theory Spec2Isabelle
  imports Complex_Main
begin

section \<open>Bezier curve fitting (src/qtloops/beziers.cpp)\<close>

text \<open>
  The file fits a chain of cubic Bezier segments to digitized points (Schneider's
  algorithm, with the corner detection of the Inkscape version).  It is written over
  C++ \<^verbatim>\<open>double\<close> and Qt's \<^verbatim>\<open>QPointF\<close>, neither of which is part of the
  repository.  The embedding therefore keeps the number type as a type variable \<open>'d\<close>:
  \<^item> \<open>+\<close>, \<open>-\<close>, \<open>*\<close>, \<open>/\<close>, unary minus, \<open>\<bar>_\<bar>\<close> (fabs), \<open><\<close> and \<open>\<le>\<close> are the
    operations of the syntactic type classes, about which nothing is assumed;
  \<^item> everything else the code takes from outside (literals and int-to-double
    conversion, \<^verbatim>\<open>==\<close> on doubles, sqrt, hypot, isNaN, isFinite, and the comparison
    and null test of \<^verbatim>\<open>QPointF\<close>, which Qt implements with a fuzzy comparison) is a
    field of the environment record \<open>env\<close>.
  A theorem stated for an arbitrary environment holds for whatever arithmetic the
  program is compiled with.  The environment \<open>real_env\<close> below interprets the
  operations by exact real arithmetic; it is used to run the model on concrete inputs.
\<close>

subsection \<open>Numbers, points and faults\<close>

type_synonym 'd point = "'d \<times> 'd"

record 'd env =
  lit :: "real \<Rightarrow> 'd"
  feq :: "'d \<Rightarrow> 'd \<Rightarrow> bool"
  fsqrt :: "'d \<Rightarrow> 'd"
  fhypot :: "'d \<Rightarrow> 'd \<Rightarrow> 'd"
  isNaN :: "'d \<Rightarrow> bool"
  isFinite :: "'d \<Rightarrow> bool"
  pt_eq :: "'d point \<Rightarrow> 'd point \<Rightarrow> bool"
  pt_isNull :: "'d point \<Rightarrow> bool"

text \<open>
  Modelled from the spec: the 2D point type (section 1 of the specification: a point
  ``assumed to support addition, subtraction, scalar multiply, equality, and a
  not-a-number test'').  \<^verbatim>\<open>QPointF\<close> is a pair of doubles and its arithmetic is
  componentwise; \<open>pt_scale c p\<close> stands for both \<^verbatim>\<open>c * p\<close> and \<^verbatim>\<open>p * c\<close>.
\<close>

definition pt_add :: "'d::plus point \<Rightarrow> 'd point \<Rightarrow> 'd point" where
  "pt_add p q = (fst p + fst q, snd p + snd q)"

definition pt_sub :: "'d::minus point \<Rightarrow> 'd point \<Rightarrow> 'd point" where
  "pt_sub p q = (fst p - fst q, snd p - snd q)"

definition pt_neg :: "'d::uminus point \<Rightarrow> 'd point" where
  "pt_neg p = (- fst p, - snd p)"

definition pt_scale :: "'d::times \<Rightarrow> 'd point \<Rightarrow> 'd point" where
  "pt_scale c p = (fst p * c, snd p * c)"

definition pt_div :: "'d::inverse point \<Rightarrow> 'd \<Rightarrow> 'd point" where
  "pt_div p c = (fst p / c, snd p / c)"

text \<open>
  \<^verbatim>\<open>g_assert\<close> calls \<^verbatim>\<open>abort()\<close>: \<open>Abort\<close>.  Reading a variable that was never
  assigned, or an array element outside the length the caller gave, is \<open>Undef\<close>.
  \<^verbatim>\<open>g_return_val_if_fail\<close> is an ordinary early return and stays a value.
\<close>

datatype fault = Abort | Undef

type_synonym 'a res = "fault + 'a"

definition rbind :: "'a res \<Rightarrow> ('a \<Rightarrow> 'b res) \<Rightarrow> 'b res" where
  "rbind r f = (case r of Inl e \<Rightarrow> Inl e | Inr x \<Rightarrow> f x)"

definition g_assert :: "bool \<Rightarrow> 'a res \<Rightarrow> 'a res" where
  "g_assert check k = (if check then k else Inl Abort)"

subsection \<open>Vector helpers and Bernstein multipliers (lines 60-132, 530)\<close>

definition is_zero :: "'d env \<Rightarrow> 'd point \<Rightarrow> bool" where
  "is_zero E pt = pt_isNull E pt"

definition unit_vector :: "'d env \<Rightarrow> 'd::{plus,times,inverse} point \<Rightarrow> 'd point" where
  "unit_vector E pt =
     (let mag = fsqrt E (fst pt * fst pt + snd pt * snd pt) in pt_div pt mag)"

definition dot :: "'d::{plus,times} point \<Rightarrow> 'd point \<Rightarrow> 'd" where
  "dot a b = fst a * fst b + snd a * snd b"

definition L2 :: "'d env \<Rightarrow> 'd point \<Rightarrow> 'd" where
  "L2 E p = fhypot E (fst p) (snd p)"

definition rot90 :: "'d::uminus point \<Rightarrow> 'd point" where
  "rot90 p = (- snd p, fst p)"

definition lensq :: "'d::{plus,times} point \<Rightarrow> 'd" where
  "lensq p = dot p p"

definition unconstrained_tangent :: "'d env \<Rightarrow> 'd point" where
  "unconstrained_tangent E = (lit E 0, lit E 0)"

definition B0 :: "'d env \<Rightarrow> 'd::{minus,times} \<Rightarrow> 'd" where
  "B0 E u = (lit E 1 - u) * (lit E 1 - u) * (lit E 1 - u)"

definition B1 :: "'d env \<Rightarrow> 'd::{minus,times} \<Rightarrow> 'd" where
  "B1 E u = lit E 3 * u * (lit E 1 - u) * (lit E 1 - u)"

definition B2 :: "'d env \<Rightarrow> 'd::{minus,times} \<Rightarrow> 'd" where
  "B2 E u = lit E 3 * u * u * (lit E 1 - u)"

definition B3 :: "'d env \<Rightarrow> 'd::times \<Rightarrow> 'd" where
  "B3 E u = u * u * u"

subsection \<open>Evaluating a Bezier curve (lines 706-732)\<close>

text \<open>
  The control points \<^verbatim>\<open>V[]\<close> are a function from the index.  \<open>pw E s i\<close> is the
  entry \<^verbatim>\<open>spow[i]\<close> (and \<^verbatim>\<open>tpow[i]\<close>) of the tables of powers.
\<close>

definition pascal :: "nat \<Rightarrow> nat \<Rightarrow> int" where
  "pascal n k = ([[1, 0, 0, 0], [1, 1, 0, 0], [1, 2, 1, 0], [1, 3, 3, 1]] ! n) ! k"

fun pw :: "'d env \<Rightarrow> 'd::times \<Rightarrow> nat \<Rightarrow> 'd" where
  "pw E s 0 = lit E 1"
| "pw E s (Suc 0) = s"
| "pw E s (Suc (Suc i)) = pw E s (Suc i) * s"

definition bezier_pt ::
  "'d env \<Rightarrow> nat \<Rightarrow> (nat \<Rightarrow> 'd::{plus,minus,times} point) \<Rightarrow> 'd \<Rightarrow> 'd point res" where
  "bezier_pt E degree V t =
     g_assert (degree < 4)
       (let s = lit E 1 - t;
            ret = pt_scale (pw E s degree) (V 0)
        in Inr (fold (\<lambda>i ret. pt_add ret
                       (pt_scale (lit E (real_of_int (pascal degree i)) * pw E s (degree - i) * pw E t i)
                                 (V i)))
                  [1..<degree + 1] ret))"

subsection \<open>Newton-Raphson re-parameterization (lines 579-685)\<close>

text \<open>
  The last loop of \<^verbatim>\<open>NewtonRaphsonRootFind\<close> runs \<^verbatim>\<open>proportion\<close> through
  0.125, 0.25, ... by repeated addition of 0.125.  These multiples of 1/8 are exact in
  binary floating point, so the model keeps the counter \<open>k\<close> with
  \<^verbatim>\<open>proportion\<close> \<open>= k * 0.125\<close> and decides \<^verbatim>\<open>proportion > 1.0\<close> as \<open>8 < k\<close>.
\<close>

function nr_improve ::
  "'d env \<Rightarrow> (nat \<Rightarrow> 'd::{plus,minus,times,ord} point) \<Rightarrow> 'd point \<Rightarrow> 'd \<Rightarrow> 'd \<Rightarrow> 'd \<Rightarrow> nat
     \<Rightarrow> 'd res" where
  "nr_improve E Q P u diff_lensq improved_u k =
     (case bezier_pt E 3 Q improved_u of
        Inl e \<Rightarrow> Inl e
      | Inr q \<Rightarrow>
          if lensq (pt_sub q P) > diff_lensq then
            if 8 < k then Inr u
            else nr_improve E Q P u diff_lensq
                   ((lit E 1 - lit E (real k * 0.125)) * improved_u + lit E (real k * 0.125) * u)
                   (k + 1)
          else Inr improved_u)"
  by pat_completeness auto
termination
  by (relation "measure (\<lambda>(E, Q, P, u, dl, iu, k). 9 - k)") auto

definition newton_step ::
  "'d env \<Rightarrow> 'd::{plus,minus,times,inverse,ord} \<Rightarrow> 'd \<Rightarrow> 'd \<Rightarrow> 'd" where
  "newton_step E u numerator denominator =
     (if denominator > lit E 0 then u - numerator / denominator
      else if numerator > lit E 0 then u * lit E 0.98 - lit E 0.01
      else if numerator < lit E 0 then lit E 0.031 + u * lit E 0.98
      else u)"

definition clamp_u :: "'d env \<Rightarrow> 'd::ord \<Rightarrow> 'd \<Rightarrow> 'd" where
  "clamp_u E u improved_u =
     (if \<not> isFinite E improved_u then u
      else if improved_u < lit E 0 then lit E 0
      else if improved_u > lit E 1 then lit E 1
      else improved_u)"

definition NewtonRaphsonRootFind ::
  "'d env \<Rightarrow> (nat \<Rightarrow> 'd::{plus,minus,times,inverse,ord} point) \<Rightarrow> 'd point \<Rightarrow> 'd \<Rightarrow> 'd res" where
  "NewtonRaphsonRootFind E Q P u =
     g_assert (lit E 0 \<le> u)
    (g_assert (u \<le> lit E 1)
     (let Q1 = (\<lambda>i. pt_scale (lit E 3) (pt_sub (Q (i + 1)) (Q i)));
          Q2 = (\<lambda>i. pt_scale (lit E 2) (pt_sub (Q1 (i + 1)) (Q1 i)))
      in rbind (bezier_pt E 3 Q u) (\<lambda>Q_u.
         rbind (bezier_pt E 2 Q1 u) (\<lambda>Q1_u.
         rbind (bezier_pt E 1 Q2 u) (\<lambda>Q2_u.
           let diff = pt_sub Q_u P;
               numerator = dot diff Q1_u;
               denominator = dot Q1_u Q1_u + dot diff Q2_u;
               improved_u = clamp_u E u (newton_step E u numerator denominator);
               diff_lensq = lensq diff
           in nr_improve E Q P u diff_lensq improved_u 1)))))"

definition reparameterize ::
  "'d env \<Rightarrow> 'd::{plus,minus,times,inverse,ord} point list \<Rightarrow> nat \<Rightarrow> 'd list \<Rightarrow> (nat \<Rightarrow> 'd point)
     \<Rightarrow> 'd list res" where
  "reparameterize E d len u bezCurve =
     g_assert (2 \<le> len)
    (let last = len - 1 in
     g_assert (pt_eq E (bezCurve 0) (d ! 0))
    (g_assert (pt_eq E (bezCurve 3) (d ! last))
    (g_assert (feq E (u ! 0) (lit E 0))
    (g_assert (feq E (u ! last) (lit E 1))
      (fold (\<lambda>i r. rbind r (\<lambda>u.
               rbind (NewtonRaphsonRootFind E bezCurve (d ! i) (u ! i)) (\<lambda>v. Inr (u[i := v]))))
         [1..<last] (Inr u))))))"

subsection \<open>Tangent estimation (lines 746-864)\<close>

definition sp_darray_left_tangent2 ::
  "'d env \<Rightarrow> 'd::{plus,minus,times,inverse} point list \<Rightarrow> nat \<Rightarrow> 'd point res" where
  "sp_darray_left_tangent2 E d len =
     g_assert (len \<ge> 2)
    (g_assert (\<not> pt_eq E (d ! 0) (d ! 1))
      (Inr (unit_vector E (pt_sub (d ! 1) (d ! 0)))))"

definition sp_darray_right_tangent2 ::
  "'d env \<Rightarrow> 'd::{plus,minus,times,inverse} point list \<Rightarrow> nat \<Rightarrow> 'd point res" where
  "sp_darray_right_tangent2 E d len =
     g_assert (2 \<le> len)
    (let last = len - 1; prev = last - 1 in
     g_assert (\<not> pt_eq E (d ! last) (d ! prev))
      (Inr (unit_vector E (pt_sub (d ! prev) (d ! last)))))"

text \<open>
  The loop of the three-argument \<^verbatim>\<open>sp_darray_left_tangent\<close> starts at \<open>i = 1\<close> and
  leaves at \<open>i = len\<close>; an index at or beyond \<open>len\<close> would read outside the data.
\<close>

function left_tangent_loop ::
  "'d env \<Rightarrow> 'd::{plus,minus,times,inverse,ord} point list \<Rightarrow> nat \<Rightarrow> 'd \<Rightarrow> nat \<Rightarrow> 'd point res" where
  "left_tangent_loop E d len tolerance_sq i =
     (if len \<le> i then Inl Undef
      else
        let t = pt_sub (d ! i) (d ! 0);
            distsq = dot t t
        in if tolerance_sq < distsq then Inr (unit_vector E t)
           else if i + 1 = len then
             (if feq E distsq (lit E 0) then sp_darray_left_tangent2 E d len
              else Inr (unit_vector E t))
           else left_tangent_loop E d len tolerance_sq (i + 1))"
  by pat_completeness auto
termination
  by (relation "measure (\<lambda>(E, d, len, tol, i). len - i)") auto

definition sp_darray_left_tangent ::
  "'d env \<Rightarrow> 'd::{plus,minus,times,inverse,ord} point list \<Rightarrow> nat \<Rightarrow> 'd \<Rightarrow> 'd point res" where
  "sp_darray_left_tangent E d len tolerance_sq =
     g_assert (2 \<le> len)
    (g_assert (lit E 0 \<le> tolerance_sq)
      (left_tangent_loop E d len tolerance_sq 1))"

fun right_tangent_loop ::
  "'d env \<Rightarrow> 'd::{plus,minus,times,inverse,ord} point list \<Rightarrow> nat \<Rightarrow> 'd \<Rightarrow> nat \<Rightarrow> 'd point res" where
  "right_tangent_loop E d len tolerance_sq i =
     (let last = len - 1;
          t = pt_sub (d ! i) (d ! last);
          distsq = dot t t
      in if tolerance_sq < distsq then Inr (unit_vector E t)
         else if i = 0 then
           (if feq E distsq (lit E 0) then sp_darray_right_tangent2 E d len
            else Inr (unit_vector E t))
         else right_tangent_loop E d len tolerance_sq (i - 1))"

definition sp_darray_right_tangent ::
  "'d env \<Rightarrow> 'd::{plus,minus,times,inverse,ord} point list \<Rightarrow> nat \<Rightarrow> 'd \<Rightarrow> 'd point res" where
  "sp_darray_right_tangent E d len tolerance_sq =
     g_assert (2 \<le> len)
    (g_assert (lit E 0 \<le> tolerance_sq)
      (right_tangent_loop E d len tolerance_sq (len - 1 - 1)))"

definition sp_darray_center_tangent ::
  "'d env \<Rightarrow> 'd::{plus,minus,uminus,times,inverse} point list \<Rightarrow> nat \<Rightarrow> nat \<Rightarrow> 'd point res" where
  "sp_darray_center_tangent E d center len =
     g_assert (center \<noteq> 0)
    (g_assert (center < len - 1)
      (let ret = (if pt_eq E (d ! (center + 1)) (d ! (center - 1))
                  then rot90 (pt_sub (d ! center) (d ! (center - 1)))
                  else pt_sub (d ! (center - 1)) (d ! (center + 1)))
       in Inr (unit_vector E ret)))"

subsection \<open>Chord-length parameterization (lines 872-918)\<close>

text \<open>
  \<^verbatim>\<open>u[]\<close> is the caller's array, passed in and returned; \<open>chord_step\<close> is the body
  of the first loop.  The two
  \<^verbatim>\<open>g_return_if_fail\<close> return early and leave it as it is at that point.  The
  diagnostic printed when \<^verbatim>\<open>u[len - 1]\<close> is off by more than 1e-13 has no effect on
  the result.
\<close>

definition chord_step :: "'d env \<Rightarrow> 'd::{plus,minus} point list \<Rightarrow> nat \<Rightarrow> 'd list \<Rightarrow> 'd list" where
  "chord_step E d i u = (let dist = L2 E (pt_sub (d ! i) (d ! (i - 1)))
                         in u[i := u ! (i - 1) + dist])"

definition chord_length_parameterize ::
  "'d env \<Rightarrow> 'd::{plus,minus,inverse} point list \<Rightarrow> 'd list \<Rightarrow> nat \<Rightarrow> 'd list" where
  "chord_length_parameterize E d u len =
     (if \<not> 2 \<le> len then u
      else
        let u1 = fold (chord_step E d) [1..<len] (u[0 := lit E 0]);
            tot_len = u1 ! (len - 1)
        in if \<not> \<not> feq E tot_len (lit E 0) then u1
           else
             let u2 = (if isFinite E tot_len
                       then fold (\<lambda>i u. u[i := u ! i / tot_len]) [1..<len] u1
                       else fold (\<lambda>i u. u[i := lit E (real i) / lit E (real (len - 1))])
                              [1..<len] u1)
             in if \<not> feq E (u2 ! (len - 1)) (lit E 1) then u2[len - 1 := lit E 1] else u2)"

subsection \<open>Least-squares curve generation (lines 400-567)\<close>

text \<open>
  The output buffer \<^verbatim>\<open>bezier[]\<close> is a store \<open>m\<close> from addresses to points together
  with the address \<open>b\<close> the pointer holds: \<^verbatim>\<open>bezier[i]\<close> is \<open>m (b + i)\<close>.
  \<^verbatim>\<open>estimate_lengths\<close> is given in three parts: its loop, which accumulates the
  matrices as the tuple \<open>(C00, C01, C10, C11, X0, X1)\<close> (\<open>ls_sums\<close>), the solution
  for the two lengths (\<open>ls_alphas\<close>), and the assignments to \<^verbatim>\<open>bezier[]\<close>.  The loop
  of \<^verbatim>\<open>estimate_bi\<close> is \<open>bi_sums\<close>.
\<close>

type_synonym 'd store = "nat \<Rightarrow> 'd point"

definition ls_sums ::
  "'d env \<Rightarrow> 'd::{plus,minus,times} point \<Rightarrow> 'd point \<Rightarrow> 'd point list \<Rightarrow> 'd list \<Rightarrow> nat
     \<Rightarrow> 'd point \<Rightarrow> 'd point \<Rightarrow> 'd \<times> 'd \<times> 'd \<times> 'd \<times> 'd \<times> 'd" where
  "ls_sums E bezier0 bezier3 data uPrime len tHat1 tHat2 =
     fold (\<lambda>i (C00, C01, C10, C11, X0, X1).
             let b0 = B0 E (uPrime ! i);
                 b1 = B1 E (uPrime ! i);
                 b2 = B2 E (uPrime ! i);
                 b3 = B3 E (uPrime ! i);
                 a1 = pt_scale b1 tHat1;
                 a2 = pt_scale b2 tHat2;
                 C00' = C00 + dot a1 a1;
                 C01' = C01 + dot a1 a2;
                 C10' = C01';
                 C11' = C11 + dot a2 a2;
                 shortfall = pt_sub (pt_sub (data ! i) (pt_scale (b0 + b1) bezier0))
                                    (pt_scale (b2 + b3) bezier3)
             in (C00', C01', C10', C11', X0 + dot a1 shortfall, X1 + dot a2 shortfall))
       [0..<len] (lit E 0, lit E 0, lit E 0, lit E 0, lit E 0, lit E 0)"

definition ls_alphas ::
  "'d env \<Rightarrow> 'd::{plus,minus,times,inverse,ord} \<times> 'd \<times> 'd \<times> 'd \<times> 'd \<times> 'd \<Rightarrow> 'd point list \<Rightarrow> nat
     \<Rightarrow> 'd \<times> 'd" where
  "ls_alphas E acc data len =
     (case acc of (C00, C01, C10, C11, X0, X1) \<Rightarrow>
      let det_C0_C1 = C00 * C11 - C10 * C01;
          (alpha_l, alpha_r) =
            (if \<not> feq E det_C0_C1 (lit E 0) then
               let det_C0_X = C00 * X1 - C01 * X0;
                   det_X_C1 = X0 * C11 - X1 * C01
               in (det_X_C1 / det_C0_C1, det_C0_X / det_C0_C1)
             else
               let c0 = C00 + C01 in
               if \<not> feq E c0 (lit E 0) then (X0 / c0, X0 / c0)
               else
                 let c1 = C10 + C11 in
                 if \<not> feq E c1 (lit E 0) then (X1 / c1, X1 / c1)
                 else (lit E 0, lit E 0))
      in if alpha_l < lit E 0.000001 \<or> alpha_r < lit E 0.000001 then
           let a = L2 E (pt_sub (data ! (len - 1)) (data ! 0)) * (lit E 1 / lit E 3)
           in (a, a)
         else (alpha_l, alpha_r))"

definition estimate_lengths ::
  "'d env \<Rightarrow> 'd::{plus,minus,times,inverse,ord} store \<Rightarrow> nat \<Rightarrow> 'd point list \<Rightarrow> 'd list \<Rightarrow> nat
     \<Rightarrow> 'd point \<Rightarrow> 'd point \<Rightarrow> 'd store" where
  "estimate_lengths E m b data uPrime len tHat1 tHat2 =
     (let m1 = m(b + 0 := data ! 0);
          m2 = m1(b + 3 := data ! (len - 1));
          acc = ls_sums E (m2 (b + 0)) (m2 (b + 3)) data uPrime len tHat1 tHat2;
          (alpha_l, alpha_r) = ls_alphas E acc data len;
          m3 = m2(b + 1 := pt_add (pt_scale alpha_l tHat1) (m2 (b + 0)))
      in m3(b + 2 := pt_add (pt_scale alpha_r tHat2) (m3 (b + 3))))"

definition bi_sums ::
  "'d env \<Rightarrow> 'd::{plus,minus,uminus,times} point \<Rightarrow> 'd point \<Rightarrow> nat \<Rightarrow> 'd point list \<Rightarrow> 'd list
     \<Rightarrow> nat \<Rightarrow> 'd point \<times> 'd" where
  "bi_sums E bezier0 bezier3 ei data u len =
     (let oi = 3 - ei in
      fold (\<lambda>i (num, den).
              let ui = u ! i;
                  bb = [B0 E ui, B1 E ui, B2 E ui, B3 E ui];
                  nx = fst num + bb ! ei * (bb ! 0 * fst bezier0 +
                                            bb ! oi * fst bezier0 +
                                            bb ! 3 * fst bezier3 +
                                            - fst (data ! i));
                  ny = snd num + bb ! ei * (bb ! 0 * snd bezier0 +
                                            bb ! oi * snd bezier0 +
                                            bb ! 3 * snd bezier3 +
                                            - snd (data ! i))
              in ((nx, ny), den - bb ! ei * bb ! ei))
        [0..<len] ((lit E 0, lit E 0), lit E 0))"

definition estimate_bi ::
  "'d env \<Rightarrow> 'd::{plus,minus,uminus,times,inverse} store \<Rightarrow> nat \<Rightarrow> nat \<Rightarrow> 'd point list \<Rightarrow> 'd list
     \<Rightarrow> nat \<Rightarrow> 'd store" where
  "estimate_bi E m b ei data u len =
     (if \<not> (1 \<le> ei \<and> ei \<le> 2) then m
      else
        let oi = 3 - ei;
            (num, den) = bi_sums E (m (b + 0)) (m (b + 3)) ei data u len
        in if \<not> feq E den (lit E 0) then m(b + ei := pt_div num den)
           else m(b + ei := pt_scale (lit E 1 / lit E 3)
                              (pt_add (pt_scale (lit E (real oi)) (m (b + 0)))
                                      (pt_scale (lit E (real ei)) (m (b + 3))))))"

definition generate_bezier ::
  "'d env \<Rightarrow> 'd::{plus,minus,uminus,times,inverse,ord} store \<Rightarrow> nat \<Rightarrow> 'd point list \<Rightarrow> 'd list
     \<Rightarrow> nat \<Rightarrow> 'd point \<Rightarrow> 'd point \<Rightarrow> 'd \<Rightarrow> 'd store res" where
  "generate_bezier E m b data u len tHat1 tHat2 tolerance_sq =
     (let est1 = is_zero E tHat1;
          est2 = is_zero E tHat2
      in rbind (if est1 then sp_darray_left_tangent E data len tolerance_sq else Inr tHat1)
           (\<lambda>est_tHat1.
         rbind (if est2 then sp_darray_right_tangent E data len tolerance_sq else Inr tHat2)
           (\<lambda>est_tHat2.
           let m1 = estimate_lengths E m b data u len est_tHat1 est_tHat2 in
           if est1 then
             let m2 = estimate_bi E m1 b 1 data u len;
                 est_tHat1' = (if \<not> pt_eq E (m2 (b + 1)) (m2 (b + 0))
                               then unit_vector E (pt_sub (m2 (b + 1)) (m2 (b + 0)))
                               else est_tHat1)
             in Inr (estimate_lengths E m2 b data u len est_tHat1' est_tHat2)
           else Inr m1)))"

subsection \<open>Error evaluation and hook detection (lines 934-1024)\<close>

definition compute_hook ::
  "'d env \<Rightarrow> 'd::{plus,minus,times,inverse,ord} point \<Rightarrow> 'd point \<Rightarrow> 'd \<Rightarrow> (nat \<Rightarrow> 'd point) \<Rightarrow> 'd
     \<Rightarrow> 'd res" where
  "compute_hook E a b u bezCurve tolerance =
     rbind (bezier_pt E 3 bezCurve u) (\<lambda>P.
       let diff = pt_sub (pt_scale (lit E 0.5) (pt_add a b)) P;
           dist = L2 E diff
       in if dist < tolerance then Inr (lit E 0)
          else
            let allowed = L2 E (pt_sub b a) * lit E 0.2 + tolerance
            in Inr (dist / allowed))"

text \<open>
  The state of the loop of \<^verbatim>\<open>compute_max_error_ratio\<close> is
  \<open>(maxDistsq, splitPoint, max_hook_ratio, snap_end, prev)\<close>.  \<^verbatim>\<open>*splitPoint\<close> is
  the caller's variable, which the driver declares without a value: \<open>None\<close> until the
  first assignment.
\<close>

definition max_error_step ::
  "'d env \<Rightarrow> 'd::{plus,minus,times,inverse,ord} point list \<Rightarrow> 'd list \<Rightarrow> (nat \<Rightarrow> 'd point) \<Rightarrow> 'd
     \<Rightarrow> nat \<Rightarrow> 'd \<times> nat option \<times> 'd \<times> nat \<times> 'd point
     \<Rightarrow> ('d \<times> nat option \<times> 'd \<times> nat \<times> 'd point) res" where
  "max_error_step E d u bezCurve tolerance i st =
     (case st of (maxDistsq, splitPoint, max_hook_ratio, snap_end, prev) \<Rightarrow>
        rbind (bezier_pt E 3 bezCurve (u ! i)) (\<lambda>curr.
          let distsq = lensq (pt_sub curr (d ! i));
              (maxDistsq, splitPoint) =
                (if distsq > maxDistsq then (distsq, Some i) else (maxDistsq, splitPoint))
          in rbind (compute_hook E prev curr (lit E 0.5 * (u ! (i - 1) + u ! i)) bezCurve tolerance)
               (\<lambda>hook_ratio.
                 let (max_hook_ratio, snap_end) =
                       (if max_hook_ratio < hook_ratio then (hook_ratio, i)
                        else (max_hook_ratio, snap_end))
                 in Inr (maxDistsq, splitPoint, max_hook_ratio, snap_end, curr))))"

text \<open>\<open>max_error_finish\<close> is what follows the loop, lines 969-981.\<close>

definition max_error_finish ::
  "'d env \<Rightarrow> nat \<Rightarrow> 'd::{uminus,inverse,ord} \<Rightarrow> 'd \<times> nat option \<times> 'd \<times> nat \<times> 'd point
     \<Rightarrow> ('d \<times> nat option) res" where
  "max_error_finish E last_ix tolerance st =
     (case st of (maxDistsq, splitPoint, max_hook_ratio, snap_end, prev) \<Rightarrow>
        let dist_ratio = fsqrt E maxDistsq / tolerance in
        rbind (if max_hook_ratio \<le> dist_ratio then Inr (dist_ratio, splitPoint)
               else g_assert (0 < snap_end) (Inr (- max_hook_ratio, Some (snap_end - 1))))
          (\<lambda>(ret, splitPoint).
             if feq E ret (lit E 0) then Inr (ret, splitPoint)
             else (case splitPoint of
                     None \<Rightarrow> Inl Undef
                   | Some sp \<Rightarrow>
                       g_assert (sp < last_ix \<and> (sp \<noteq> 0 \<or> ret < lit E 0))
                         (Inr (ret, splitPoint)))))"

definition compute_max_error_ratio ::
  "'d env \<Rightarrow> 'd::{plus,minus,uminus,times,inverse,ord} point list \<Rightarrow> 'd list \<Rightarrow> nat
     \<Rightarrow> (nat \<Rightarrow> 'd point) \<Rightarrow> 'd \<Rightarrow> nat option \<Rightarrow> ('d \<times> nat option) res" where
  "compute_max_error_ratio E d u len bezCurve tolerance splitPoint =
     g_assert (2 \<le> len)
    (let last = len - 1 in
     g_assert (pt_eq E (bezCurve 0) (d ! 0))
    (g_assert (pt_eq E (bezCurve 3) (d ! last))
    (g_assert (feq E (u ! 0) (lit E 0))
    (g_assert (feq E (u ! last) (lit E 1))
    (rbind (fold (\<lambda>i r. rbind r (max_error_step E d u bezCurve tolerance i))
              [1..<last + 1] (Inr (lit E 0, splitPoint, lit E 0, 0, bezCurve 0)))
       (max_error_finish E last tolerance))))))"

subsection \<open>The fitting driver (lines 235-386)\<close>

text \<open>
  \<^verbatim>\<open>sp_bezier_fit_cubic_full\<close> is embedded in three layers, in the order of its text:
  \<^item> \<open>fit_attempt\<close> is lines 241-314: the argument checks that follow the two null
    checks, the two-point case, and the attempts to fit one segment.  It ends with the
    function's return value, or with \<^verbatim>\<open>is_corner\<close> and \<^verbatim>\<open>splitPoint\<close>;
  \<^item> \<open>fit_plan\<close> adds lines 316-351: the treatment of a corner at either end and the
    choice of the tangents at the split, everything up to the first recursive call;
  \<^item> \<open>sp_bezier_fit_cubic_full\<close> adds the null checks and the recursive calls.
\<close>

datatype attempt = Fitted int | Failed bool "nat option"

fun fit_iterate ::
  "'d env \<Rightarrow> nat \<Rightarrow> 'd::{plus,minus,uminus,times,inverse,ord,abs} store \<Rightarrow> nat \<Rightarrow> 'd point list
     \<Rightarrow> nat \<Rightarrow> 'd list \<Rightarrow> 'd point \<Rightarrow> 'd point \<Rightarrow> 'd \<Rightarrow> 'd \<Rightarrow> 'd \<Rightarrow> nat option
     \<Rightarrow> (attempt \<times> 'd store) res" where
  "fit_iterate E 0 m b data len u tHat1 tHat2 error tolerance maxErrorRatio splitPoint =
     Inr (Failed (maxErrorRatio < lit E 0) splitPoint, m)"
| "fit_iterate E (Suc n) m b data len u tHat1 tHat2 error tolerance maxErrorRatio splitPoint =
     rbind (generate_bezier E m b data u len tHat1 tHat2 error) (\<lambda>m1.
     rbind (reparameterize E data len u (\<lambda>i. m1 (b + i))) (\<lambda>u1.
     rbind (compute_max_error_ratio E data u1 len (\<lambda>i. m1 (b + i)) tolerance splitPoint)
       (\<lambda>(maxErrorRatio, splitPoint).
          if \<bar>maxErrorRatio\<bar> \<le> lit E 1 then Inr (Fitted 1, m1)
          else fit_iterate E n m1 b data len u1 tHat1 tHat2 error tolerance
                 maxErrorRatio splitPoint)))"

definition fit_attempt ::
  "'d env \<Rightarrow> 'd::{plus,minus,uminus,times,inverse,ord,abs} store \<Rightarrow> nat \<Rightarrow> 'd point list \<Rightarrow> int
     \<Rightarrow> 'd point \<Rightarrow> 'd point \<Rightarrow> 'd \<Rightarrow> nat \<Rightarrow> (attempt \<times> 'd store) res" where
  "fit_attempt E m b data len tHat1 tHat2 error max_beziers =
     (if \<not> len > 0 then Inr (Fitted (- 1), m)
      else if \<not> max_beziers \<ge> 1 then Inr (Fitted (- 1), m)
      else if \<not> error \<ge> lit E 0 then Inr (Fitted (- 1), m)
      else if len < 2 then Inr (Fitted 0, m)
      else if len = 2 then
        let m1 = m(b + 0 := data ! 0);
            m2 = m1(b + 3 := data ! (nat len - 1));
            dist = L2 E (pt_sub (data ! (nat len - 1)) (data ! 0)) * (lit E 1 / lit E 3)
        in if isNaN E dist then
             let m3 = m2(b + 1 := m2 (b + 0))
             in Inr (Fitted 1, m3(b + 2 := m3 (b + 3)))
           else
             let m3 = m2(b + 1 :=
                        (if is_zero E tHat1
                         then pt_scale (lit E 1 / lit E 3)
                                (pt_add (pt_scale (lit E 2) (m2 (b + 0))) (m2 (b + 3)))
                         else pt_add (m2 (b + 0)) (pt_scale dist tHat1)))
             in Inr (Fitted 1,
                     m3(b + 2 :=
                        (if is_zero E tHat2
                         then pt_scale (lit E 1 / lit E 3)
                                (pt_add (m3 (b + 0)) (pt_scale (lit E 2) (m3 (b + 3))))
                         else pt_add (m3 (b + 3)) (pt_scale dist tHat2))))
      else
        let n = nat len;
            u = chord_length_parameterize E data (replicate n (lit E 0)) n
        in if feq E (u ! (n - 1)) (lit E 0) then Inr (Fitted 0, m)
           else
             rbind (generate_bezier E m b data u n tHat1 tHat2 error) (\<lambda>m1.
             rbind (reparameterize E data n u (\<lambda>i. m1 (b + i))) (\<lambda>u1.
             let tolerance = fsqrt E (error + lit E 0.000000001) in
             rbind (compute_max_error_ratio E data u1 n (\<lambda>i. m1 (b + i)) tolerance None)
               (\<lambda>(maxErrorRatio, splitPoint).
                  if \<bar>maxErrorRatio\<bar> \<le> lit E 1 then Inr (Fitted 1, m1)
                  else if lit E 0 \<le> maxErrorRatio \<and> maxErrorRatio \<le> lit E 3 then
                    fit_iterate E 4 m1 b data n u1 tHat1 tHat2 error tolerance
                      maxErrorRatio splitPoint
                  else Inr (Failed (maxErrorRatio < lit E 0) splitPoint, m1)))))"

datatype 'd corner = CornerRetry "'d point" "'d point" | Proceed "nat option"

definition corner_check ::
  "'d env \<Rightarrow> int \<Rightarrow> 'd point \<Rightarrow> 'd point \<Rightarrow> bool \<Rightarrow> nat option \<Rightarrow> 'd corner res" where
  "corner_check E len tHat1 tHat2 is_corner splitPoint =
     (if is_corner then
        (case splitPoint of
           None \<Rightarrow> Inl Undef
         | Some sp \<Rightarrow>
             g_assert (sp < nat len)
               (if sp = 0 then
                  (if is_zero E tHat1 then Inr (Proceed (Some (sp + 1)))
                   else Inr (CornerRetry (unconstrained_tangent E) tHat2))
                else if sp = nat (len - 1) then
                  (if is_zero E tHat2 then Inr (Proceed (Some (sp - 1)))
                   else Inr (CornerRetry tHat1 (unconstrained_tangent E)))
                else Inr (Proceed splitPoint)))
      else Inr (Proceed splitPoint))"

datatype 'd plan = Done int | Retry "'d point" "'d point" | Split nat "'d point" "'d point"

text \<open>
  \<open>Split splitPoint recTHat1 recTHat2\<close> carries what the two recursive calls need.
  \<open>split_plan\<close> is lines 337-351 and the \<^verbatim>\<open>else\<close> of line 383.
\<close>

definition split_plan ::
  "'d env \<Rightarrow> 'd::{plus,minus,uminus,times,inverse,ord,abs} store \<Rightarrow> 'd point list \<Rightarrow> int
     \<Rightarrow> nat \<Rightarrow> bool \<Rightarrow> 'd corner \<Rightarrow> ('d plan \<times> 'd store) res" where
  "split_plan E m1 data len max_beziers is_corner c =
     (case c of
        CornerRetry t1 t2 \<Rightarrow> Inr (Retry t1 t2, m1)
      | Proceed splitPoint \<Rightarrow>
          if 1 < max_beziers then
            (case splitPoint of
               None \<Rightarrow> Inl Undef
             | Some sp \<Rightarrow>
                 if is_corner then
                   (if \<not> (0 < sp \<and> sp < nat (len - 1)) then Inr (Done (- 1), m1)
                    else Inr (Split sp (unconstrained_tangent E) (unconstrained_tangent E), m1))
                 else
                   rbind (sp_darray_center_tangent E data sp (nat len)) (\<lambda>recTHat2.
                     Inr (Split sp (pt_neg recTHat2) recTHat2, m1)))
          else Inr (Done (- 1), m1))"

definition fit_plan ::
  "'d env \<Rightarrow> 'd::{plus,minus,uminus,times,inverse,ord,abs} store \<Rightarrow> nat \<Rightarrow> 'd point list \<Rightarrow> int
     \<Rightarrow> 'd point \<Rightarrow> 'd point \<Rightarrow> 'd \<Rightarrow> nat \<Rightarrow> ('d plan \<times> 'd store) res" where
  "fit_plan E m b data len tHat1 tHat2 error max_beziers =
     rbind (fit_attempt E m b data len tHat1 tHat2 error max_beziers) (\<lambda>(a, m1).
       case a of
         Fitted r \<Rightarrow> Inr (Done r, m1)
       | Failed is_corner splitPoint \<Rightarrow>
           rbind (corner_check E len tHat1 tHat2 is_corner splitPoint)
             (split_plan E m1 data len max_beziers is_corner))"

text \<open>
  The first argument after the environment bounds the depth of the recursion: a call
  with bound \<open>Suc n\<close> gives each call it makes the bound \<open>n\<close>, and a call with bound
  \<open>0\<close> has no result, \<open>None\<close>.  \<^verbatim>\<open>split_points\<close> is a second store \<open>s\<close> with the
  address the pointer holds, \<open>None\<close> for \<^verbatim>\<open>NULL\<close>; so are \<^verbatim>\<open>bezier\<close> and
  \<^verbatim>\<open>data\<close>, the latter with the list of the points from the pointer on.
  \<^verbatim>\<open>max_beziers\<close> is \<^verbatim>\<open>unsigned\<close>: the one subtraction that no check guards is
  written with its wrap-around.
\<close>

type_synonym sstore = "nat \<Rightarrow> int"

fun sp_bezier_fit_cubic_full ::
  "'d env \<Rightarrow> nat \<Rightarrow> 'd::{plus,minus,uminus,times,inverse,ord,abs} store \<Rightarrow> sstore \<Rightarrow> nat option
     \<Rightarrow> nat option \<Rightarrow> 'd point list option \<Rightarrow> int \<Rightarrow> 'd point \<Rightarrow> 'd point \<Rightarrow> 'd \<Rightarrow> nat
     \<Rightarrow> (int \<times> 'd store \<times> sstore) res option" where
  "sp_bezier_fit_cubic_full E 0 m s bezier split_points data len tHat1 tHat2 error max_beziers =
     None"
| "sp_bezier_fit_cubic_full E (Suc n) m s bezier split_points data len tHat1 tHat2 error
     max_beziers =
     (case bezier of
        None \<Rightarrow> Some (Inr (- 1, m, s))
      | Some b \<Rightarrow>
     (case data of
        None \<Rightarrow> Some (Inr (- 1, m, s))
      | Some d \<Rightarrow>
     (case fit_plan E m b d len tHat1 tHat2 error max_beziers of
        Inl e \<Rightarrow> Some (Inl e)
      | Inr (Done r, m1) \<Rightarrow> Some (Inr (r, m1, s))
      | Inr (Retry t1 t2, m1) \<Rightarrow>
          sp_bezier_fit_cubic_full E n m1 s bezier split_points data len t1 t2 error
            max_beziers
      | Inr (Split splitPoint recTHat1 recTHat2, m1) \<Rightarrow>
          let rec_max_beziers1 = max_beziers - 1 in
          (case sp_bezier_fit_cubic_full E n m1 s bezier split_points data
                  (int splitPoint + 1) tHat1 recTHat2 error rec_max_beziers1 of
             None \<Rightarrow> None
           | Some (Inl e) \<Rightarrow> Some (Inl e)
           | Some (Inr (nsegs1, m2, s2)) \<Rightarrow>
               if nsegs1 < 0 then Some (Inr (- 1, m2, s2))
               else if \<not> nsegs1 \<noteq> 0 then Some (Inl Abort)
               else
                 let s3 = (case split_points of
                             None \<Rightarrow> s2
                           | Some sa \<Rightarrow> s2(sa + nat (nsegs1 - 1) := int splitPoint));
                     rec_max_beziers2 = nat ((int max_beziers - nsegs1) mod 2 ^ 32)
                 in (case sp_bezier_fit_cubic_full E n m2 s3
                            (Some (b + nat (nsegs1 * 4)))
                            (case split_points of
                               None \<Rightarrow> None
                             | Some sa \<Rightarrow> Some (sa + nat nsegs1))
                            (Some (drop splitPoint d)) (len - int splitPoint)
                            recTHat1 tHat2 error rec_max_beziers2 of
                       None \<Rightarrow> None
                     | Some (Inl e) \<Rightarrow> Some (Inl e)
                     | Some (Inr (nsegs2, m3, s4)) \<Rightarrow>
                         if nsegs2 < 0 then Some (Inr (- 1, m3, s4))
                         else Some (Inr (nsegs1 + nsegs2, m3, s4)))))))"

subsection \<open>Entry points with input sanitation (lines 153-225)\<close>

text \<open>
  The first loop of \<^verbatim>\<open>copy_without_nans_or_adjacent_duplicates\<close> has no increment of
  \<^verbatim>\<open>si\<close> on the path where \<^verbatim>\<open>src[si]\<close> holds a NaN, so it is embedded as a partial
  function: \<open>None\<close> is a loop that does not end, \<open>Some None\<close> the
  \<^verbatim>\<open>return 0\<close>, \<open>Some (Some si)\<close> the index at the \<^verbatim>\<open>break\<close>.
  \<^verbatim>\<open>dest[]\<close> is returned as the list of its first \<^verbatim>\<open>dest_len\<close> elements.
  The entry points have no result, \<open>None\<close>, when that loop does not end or when the
  bound on the depth of the recursion is too small.
\<close>

partial_function (option) skip_leading ::
  "'d env \<Rightarrow> 'd point list \<Rightarrow> nat \<Rightarrow> nat \<Rightarrow> nat option option" where
  "skip_leading E src src_len si =
     (if si = src_len then Some None
      else if \<not> isNaN E (fst (src ! si)) \<and> \<not> isNaN E (snd (src ! si)) then Some (Some si)
      else skip_leading E src src_len si)"

definition copy_without_nans_or_adjacent_duplicates ::
  "'d env \<Rightarrow> 'd point list \<Rightarrow> nat \<Rightarrow> 'd point list res option" where
  "copy_without_nans_or_adjacent_duplicates E src src_len =
     (case skip_leading E src src_len 0 of
        None \<Rightarrow> None
      | Some None \<Rightarrow> Some (Inr [])
      | Some (Some si) \<Rightarrow>
          let dest = fold (\<lambda>si dest.
                             let src_pt = src ! si in
                             if \<not> pt_eq E src_pt (last dest)
                                \<and> \<not> isNaN E (fst src_pt) \<and> \<not> isNaN E (snd src_pt)
                             then dest @ [src_pt] else dest)
                       [si + 1..<src_len] [src ! si]
          in Some (g_assert (length dest \<le> src_len) (Inr dest)))"

definition sp_bezier_fit_cubic_r ::
  "'d env \<Rightarrow> nat \<Rightarrow> 'd::{plus,minus,uminus,times,inverse,ord,abs} store \<Rightarrow> nat option
     \<Rightarrow> 'd point list option \<Rightarrow> int \<Rightarrow> 'd \<Rightarrow> nat \<Rightarrow> (int \<times> 'd store) res option" where
  "sp_bezier_fit_cubic_r E fuel m bezier data len error max_beziers =
     (case bezier of
        None \<Rightarrow> Some (Inr (- 1, m))
      | Some b \<Rightarrow>
     (case data of
        None \<Rightarrow> Some (Inr (- 1, m))
      | Some d \<Rightarrow>
          if \<not> len > 0 then Some (Inr (- 1, m))
          else if \<not> max_beziers < 2 ^ (31 - 2 - 1 - 3) then Some (Inr (- 1, m))
          else
            (case copy_without_nans_or_adjacent_duplicates E d (nat len) of
               None \<Rightarrow> None
             | Some (Inl e) \<Rightarrow> Some (Inl e)
             | Some (Inr uniqued_data) \<Rightarrow>
                 let uniqued_len = length uniqued_data in
                 if uniqued_len < 2 then Some (Inr (0, m))
                 else
                   (case sp_bezier_fit_cubic_full E fuel m (\<lambda>_. 0) (Some b) None
                           (Some uniqued_data) (int uniqued_len)
                           (unconstrained_tangent E) (unconstrained_tangent E)
                           error max_beziers of
                      None \<Rightarrow> None
                    | Some (Inl e) \<Rightarrow> Some (Inl e)
                    | Some (Inr (r, m', s')) \<Rightarrow> Some (Inr (r, m'))))))"

definition sp_bezier_fit_cubic ::
  "'d env \<Rightarrow> nat \<Rightarrow> 'd::{plus,minus,uminus,times,inverse,ord,abs} store \<Rightarrow> nat option
     \<Rightarrow> 'd point list option \<Rightarrow> int \<Rightarrow> 'd \<Rightarrow> (int \<times> 'd store) res option" where
  "sp_bezier_fit_cubic E fuel m bezier data len error =
     sp_bezier_fit_cubic_r E fuel m bezier data len error 1"

subsection \<open>Exact real arithmetic as an environment\<close>

definition real_env :: "real env" where
  "real_env =
     \<lparr> lit = (\<lambda>x. x), feq = (=), fsqrt = sqrt, fhypot = (\<lambda>x y. sqrt (x * x + y * y)),
       isNaN = (\<lambda>x. False), isFinite = (\<lambda>x. True), pt_eq = (=),
       pt_isNull = (\<lambda>p. p = (0, 0)) \<rparr>"

subsection \<open>Notions the specification uses\<close>

text \<open>
  Pre-sanitized input (section 4.1): the first \<open>len\<close> points hold no NaN and no two
  neighbours compare equal.
\<close>

definition sanitized :: "'d env \<Rightarrow> 'd point list \<Rightarrow> nat \<Rightarrow> bool" where
  "sanitized E d len \<longleftrightarrow>
     (\<forall>i<len. \<not> isNaN E (fst (d ! i)) \<and> \<not> isNaN E (snd (d ! i)))
     \<and> (\<forall>i. i + 1 < len \<longrightarrow> \<not> pt_eq E (d ! (i + 1)) (d ! i))"

text \<open>
  The driver returns \<open>0\<close> for a zero-length path: the test \<^verbatim>\<open>u[len - 1] == 0.0\<close>
  of line 280 on the freshly parameterized points.  The comment there says that clients
  may not pass such data.  \<open>positive_chords\<close> is the fact about the arithmetic behind
  that comment: the total chord length of sanitized points never compares equal to zero.
\<close>

definition zero_length_path :: "'d env \<Rightarrow> 'd::{plus,minus,inverse} point list \<Rightarrow> nat \<Rightarrow> bool" where
  "zero_length_path E d len \<longleftrightarrow>
     feq E (chord_length_parameterize E d (replicate len (lit E 0)) len ! (len - 1)) (lit E 0)"

definition positive_chords :: "'d::{plus,minus,inverse} env \<Rightarrow> bool" where
  "positive_chords E \<longleftrightarrow>
     (\<forall>d len. 2 \<le> len \<and> sanitized E d len \<longrightarrow> \<not> zero_length_path E d len)"

text \<open>
  The total chord length of the points \<open>d ! 0, \<dots>, d ! k\<close> (section 4.2), summed in
  the order of the code.
\<close>

fun chord_total :: "'d env \<Rightarrow> 'd::{plus,minus} point list \<Rightarrow> nat \<Rightarrow> 'd" where
  "chord_total E d 0 = lit E 0"
| "chord_total E d (Suc k) = chord_total E d k + L2 E (pt_sub (d ! Suc k) (d ! k))"

text \<open>
  What the claims about the order of parameters need of the arithmetic.  Each line
  holds of IEEE 754 binary floating point, where rounding is monotone, an operation
  with a NaN operand gives a NaN, and \<open>c / c\<close> is \<open>1\<close> for finite non-zero \<open>c\<close>.
\<close>

definition ordered_arith :: "'d::{plus,inverse,ord} env \<Rightarrow> bool" where
  "ordered_arith E \<longleftrightarrow>
     (\<forall>a b. isFinite E (a + b) \<longrightarrow> isFinite E a \<and> isFinite E b)
   \<and> (\<forall>x y. isFinite E (fhypot E x y) \<longrightarrow> lit E 0 \<le> fhypot E x y)
   \<and> (\<forall>a h. isFinite E a \<and> lit E 0 \<le> h \<longrightarrow> a \<le> a + h)
   \<and> (\<forall>x y c. x \<le> y \<and> lit E 0 < c \<and> isFinite E c \<longrightarrow> x / c \<le> y / c)
   \<and> (\<forall>x c. lit E 0 \<le> x \<and> lit E 0 < c \<and> isFinite E c \<longrightarrow> lit E 0 \<le> x / c)
   \<and> (\<forall>x c. x \<le> c \<and> lit E 0 < c \<and> isFinite E c \<longrightarrow> x / c \<le> lit E 1)
   \<and> lit E 0 \<le> lit E 1
   \<and> feq E (lit E 1) (lit E 1)
   \<and> (\<forall>x. lit E 0 < x \<longrightarrow> \<not> feq E x (lit E 0))"

text \<open>
  The \<open>n\<close> segments that start at address \<open>b\<close> of the output buffer, four control
  points each.
\<close>

definition segments :: "'d store \<Rightarrow> nat \<Rightarrow> nat \<Rightarrow> ('d point \<times> 'd point \<times> 'd point \<times> 'd point) list" where
  "segments m b n =
     map (\<lambda>k. (m (b + 4 * k), m (b + 4 * k + 1), m (b + 4 * k + 2), m (b + 4 * k + 3))) [0..<n]"

text \<open>
  \<open>segments_span m b d cs\<close>: the indices \<open>cs\<close> increase, and the segment number \<open>k\<close>
  from address \<open>b\<close> on starts at the data point \<open>cs ! k\<close> and ends at the data point
  \<open>cs ! (k + 1)\<close>, the first and the last point of the sub-range it was fitted to.
\<close>

fun segments_span :: "'d store \<Rightarrow> nat \<Rightarrow> 'd point list \<Rightarrow> nat list \<Rightarrow> bool" where
  "segments_span m b d (i # j # cs) \<longleftrightarrow>
     i < j \<and> m b = d ! i \<and> m (b + 3) = d ! j \<and> segments_span m (b + 4) d (j # cs)"
| "segments_span m b d cs \<longleftrightarrow> True"

text \<open>
  The hook ratio of the pair \<open>(i - 1, i)\<close> in the words of the specification (section
  4.7): the curve at the midpoint parameter against the midpoint of the two data points,
  scored when the distance exceeds the tolerance, with an allowance of \<open>0.2\<close> times the
  chord between the two data points plus the tolerance.
\<close>

definition spec_hook_ratio ::
  "'d env \<Rightarrow> 'd::{plus,minus,times,inverse,ord} point list \<Rightarrow> 'd list \<Rightarrow> (nat \<Rightarrow> 'd point) \<Rightarrow> 'd
     \<Rightarrow> nat \<Rightarrow> 'd res" where
  "spec_hook_ratio E d u bezCurve tolerance i =
     rbind (bezier_pt E 3 bezCurve (lit E 0.5 * (u ! (i - 1) + u ! i))) (\<lambda>P.
       let dist = L2 E (pt_sub (pt_scale (lit E 0.5) (pt_add (d ! (i - 1)) (d ! i))) P)
       in if dist > tolerance
          then Inr (dist / (L2 E (pt_sub (d ! i) (d ! (i - 1))) * lit E 0.2 + tolerance))
          else Inr (lit E 0))"

text \<open>
  What the claim about \<^verbatim>\<open>NewtonRaphsonRootFind\<close> needs of the arithmetic: no number is
  below itself, a finite number that is neither below \<open>0\<close> nor above \<open>1\<close> lies between
  them, and a blend \<open>(1 - p) * a + p * b\<close> of two numbers between \<open>0\<close> and \<open>1\<close>, with \<open>p\<close> one
  of \<open>1/8, \<dots>, 8/8\<close>, lies between \<open>0\<close> and \<open>1\<close>.  All of this holds of IEEE-754
  arithmetic, where a comparison with a NaN is false and rounding is monotone.
\<close>

definition newton_arith :: "'d::{plus,minus,times,ord} env \<Rightarrow> bool" where
  "newton_arith E \<longleftrightarrow>
     (\<forall>x::'d. \<not> x < x)
   \<and> lit E 0 \<le> lit E 0 \<and> lit E 0 \<le> lit E 1 \<and> lit E 1 \<le> lit E 1
   \<and> (\<forall>x. isFinite E x \<and> \<not> x < lit E 0 \<and> \<not> x > lit E 1 \<longrightarrow> lit E 0 \<le> x \<and> x \<le> lit E 1)
   \<and> (\<forall>k a b. 1 \<le> k \<and> k \<le> 8 \<and> lit E 0 \<le> a \<and> a \<le> lit E 1 \<and> lit E 0 \<le> b \<and> b \<le> lit E 1 \<longrightarrow>
          lit E 0 \<le> (lit E 1 - lit E (real k * 0.125)) * a + lit E (real k * 0.125) * b
        \<and> (lit E 1 - lit E (real k * 0.125)) * a + lit E (real k * 0.125) * b \<le> lit E 1)"

subsection \<open>Data of the runs\<close>

text \<open>
  Three points that double back, the middle one a cusp, with a tolerance a little below
  one: the first fit hooks, and the driver splits at the cusp.
\<close>

definition dA :: "real point list" where "dA = [(0, 0), (100, 0), (0, 0)]"
definition eA :: real where "eA = 999999999 / 1000000000"

definition mA :: "real store \<Rightarrow> real store" where
  "mA m = m(0 := (0, 0), 0 + 3 := (0, 0), 0 + 1 := (400 / 3, 0), 0 + 2 := (400 / 3, 0))"

text \<open>
  Four points on a line that run forward and turn back at the end, for a call with a
  first tangent that points backwards and a budget of two segments.
\<close>

definition dB :: "real point list" where "dB = [(0, 0), (30, 0), (57, 0), (54, 0)]"

definition dB3 :: "real point list" where "dB3 = [(30, 0), (57, 0), (54, 0)]"

definition mB1 :: "real store \<Rightarrow> real store" where
  "mB1 m = m(0 := (0, 0), 0 + 3 := (54, 0), 0 + 1 := (- 18, 0), 0 + 2 := (80, 0))"

definition mB2 :: "real store \<Rightarrow> real store" where
  "mB2 m = m(0 := (0, 0), 0 + 3 := (54, 0), 0 + 1 := (18, 0), 0 + 2 := (72, 0))"

definition mB3 :: "real store \<Rightarrow> real store" where
  "mB3 m = m(4 := (30, 0), 4 + 3 := (54, 0), 4 + 1 := (218 / 5, 0), 4 + 2 := (338 / 5, 0))"

text \<open>
  Three points with the middle one off the line, and a straight curve between the two
  outer ones.
\<close>

definition dC :: "real point list" where "dC = [(0, 0), (3, 4), (6, 0)]"

definition bC :: "nat \<Rightarrow> real point" where "bC i = [(0, 0), (2, 0), (4, 0), (6, 0)] ! i"

section \<open>Properties\<close>

subsection \<open>Evaluation rules\<close>

lemma rbind_simps [simp]: "rbind (Inr x) f = f x" "rbind (Inl e) f = Inl e"
  by (simp_all add: rbind_def)
lemma g_assert_simps [simp]: "g_assert True k = k" "g_assert False k = Inl Abort"
  by (simp_all add: g_assert_def)

lemma real_env_simps [simp]:
  "lit real_env x = x" "feq real_env = (=)" "fsqrt real_env = sqrt"
  "fhypot real_env x y = sqrt (x * x + y * y)" "isNaN real_env x = False"
  "isFinite real_env x = True" "pt_eq real_env = (=)" "pt_isNull real_env p = (p = (0,0))"
  by (simp_all add: real_env_def)

lemma skip_leading_valid:
  "si < src_len \<Longrightarrow> \<not> isNaN E (fst (src ! si)) \<Longrightarrow> \<not> isNaN E (snd (src ! si))
     \<Longrightarrow> skip_leading E src src_len si = Some (Some si)"
  by (subst skip_leading.simps) simp

lemma uniq_fold_length:
  "length (fold (\<lambda>si dest. let src_pt = src ! si in
                   if \<not> pt_eq E src_pt (last dest) \<and> \<not> isNaN E (fst src_pt) \<and> \<not> isNaN E (snd src_pt)
                   then dest @ [src_pt] else dest) xs dest0) \<le> length dest0 + length xs"
proof (induction xs arbitrary: dest0)
  case Nil
  show ?case by simp
next
  case (Cons x xs)
  show ?case
    using Cons.IH [of "dest0 @ [src ! x]"] Cons.IH [of dest0]
    by (simp add: Let_def)
qed

lemma copy_valid_first:
  assumes "0 < src_len" "\<not> isNaN E (fst (src ! 0))" "\<not> isNaN E (snd (src ! 0))"
  shows "copy_without_nans_or_adjacent_duplicates E src src_len =
           Some (Inr (fold (\<lambda>si dest. let src_pt = src ! si in
                   if \<not> pt_eq E src_pt (last dest) \<and> \<not> isNaN E (fst src_pt) \<and> \<not> isNaN E (snd src_pt)
                   then dest @ [src_pt] else dest) [1..<src_len] [src ! 0]))"
proof -
  have "length (fold (\<lambda>si dest. let src_pt = src ! si in
                   if \<not> pt_eq E src_pt (last dest) \<and> \<not> isNaN E (fst src_pt) \<and> \<not> isNaN E (snd src_pt)
                   then dest @ [src_pt] else dest) [1..<src_len] [src ! 0]) \<le> src_len"
    using uniq_fold_length [of src E "[1..<src_len]" "[src ! 0]"] assms(1) by simp
  then show ?thesis
    using assms by (simp add: copy_without_nans_or_adjacent_duplicates_def skip_leading_valid Let_def)
qed

lemma fit_attempt_two:
  assumes "lit E 0 \<le> error" "1 \<le> max_beziers"
  shows "\<exists>m'. fit_attempt E m b d 2 tHat1 tHat2 error max_beziers = Inr (Fitted 1, m')
           \<and> m' b = d ! 0 \<and> m' (b + 3) = d ! 1 \<and> (\<forall>a. a < b \<or> b + 3 < a \<longrightarrow> m' a = m a)"
  using assms by (simp add: fit_attempt_def Let_def)

lemma full_two:
  assumes "lit E 0 \<le> error" "1 \<le> max_beziers"
  shows "\<exists>m'. sp_bezier_fit_cubic_full E (Suc n) m s (Some b) split_points (Some d) 2
                 tHat1 tHat2 error max_beziers = Some (Inr (1, m', s))
           \<and> m' b = d ! 0 \<and> m' (b + 3) = d ! 1 \<and> (\<forall>a. a < b \<or> b + 3 < a \<longrightarrow> m' a = m a)"
proof -
  obtain m' where m': "fit_attempt E m b d 2 tHat1 tHat2 error max_beziers = Inr (Fitted 1, m')"
    "m' b = d ! 0" "m' (b + 3) = d ! 1" "\<forall>a. a < b \<or> b + 3 < a \<longrightarrow> m' a = m a"
    using fit_attempt_two [OF assms] by blast
  have "fit_plan E m b d 2 tHat1 tHat2 error max_beziers = Inr (Done 1, m')"
    by (simp add: fit_plan_def m'(1))
  then have "sp_bezier_fit_cubic_full E (Suc n) m s (Some b) split_points (Some d) 2
                 tHat1 tHat2 error max_beziers = Some (Inr (1, m', s))"
    by simp
  with m' show ?thesis by blast
qed

lemma full_bad_tolerance:
  assumes "\<not> lit E 0 \<le> error" "0 < len"
  shows "sp_bezier_fit_cubic_full E (Suc n) m s (Some b) split_points (Some d) len
           tHat1 tHat2 error max_beziers = Some (Inr (- 1, m, s))"
proof -
  have "fit_attempt E m b d len tHat1 tHat2 error max_beziers = Inr (Fitted (- 1), m)"
    using assms by (simp add: fit_attempt_def)
  then have "fit_plan E m b d len tHat1 tHat2 error max_beziers = Inr (Done (- 1), m)"
    by (simp add: fit_plan_def)
  then show ?thesis by simp
qed

subsection \<open>Argument checks of the entry point\<close>

text \<open>
  C4, as the specification states it: with non-null buffers and a positive length,
  \<^verbatim>\<open>sp_bezier_fit_cubic_r\<close> rejects a budget only when it is not below \<open>2^27\<close>.
  The check in the code is \<^verbatim>\<open>max_beziers < (1ul << (31 - 2 - 1 - 3))\<close>, which is
  \<open>2^25\<close>: the budget \<open>2^25\<close> is below \<open>2^27\<close> and is rejected with \<open>-1\<close>, on a
  two-point input that any smaller budget of at least one fits with one segment.
\<close>

theorem budget_limit_counterexample:
  "(2::nat) ^ 25 < 2 ^ 27 \<and>
   sp_bezier_fit_cubic_r real_env 1 (\<lambda>_. (0, 0)) (Some 0) (Some [(0, 0), (1, 1)]) 2 0 (2 ^ 25)
     = Some (Inr (- 1, \<lambda>_. (0, 0)))"
  by (simp add: sp_bezier_fit_cubic_r_def)

text \<open>
  C4, amended: with non-null buffers and a positive length, a budget of \<open>2^25\<close> or
  more makes \<^verbatim>\<open>sp_bezier_fit_cubic_r\<close> return \<open>-1\<close> with the buffer untouched, and
  every budget below \<open>2^25\<close> passes the check: the call goes on to sanitation and
  to the fitter, whose result it returns.
\<close>

theorem budget_limit:
  "0 < len \<Longrightarrow>
   sp_bezier_fit_cubic_r E fuel m (Some b) (Some d) len error max_beziers =
     (if max_beziers < 2 ^ 25
      then (case copy_without_nans_or_adjacent_duplicates E d (nat len) of
              None \<Rightarrow> None
            | Some (Inl e) \<Rightarrow> Some (Inl e)
            | Some (Inr uniqued_data) \<Rightarrow>
                if length uniqued_data < 2 then Some (Inr (0, m))
                else (case sp_bezier_fit_cubic_full E fuel m (\<lambda>_. 0) (Some b) None
                             (Some uniqued_data) (int (length uniqued_data))
                             (unconstrained_tangent E) (unconstrained_tangent E)
                             error max_beziers of
                        None \<Rightarrow> None
                      | Some (Inl e) \<Rightarrow> Some (Inl e)
                      | Some (Inr (r, m', s')) \<Rightarrow> Some (Inr (r, m'))))
      else Some (Inr (- 1, m)))"
  by (simp add: sp_bezier_fit_cubic_r_def Let_def split: option.splits sum.splits)

theorem budget_limit_witness:
  "sp_bezier_fit_cubic_r real_env (Suc 0) (\<lambda>_. (0, 0)) (Some 0) (Some [(0, 0)]) 1 0 (2 ^ 25 - 1)
     = Some (Inr (0, \<lambda>_. (0, 0)))
   \<and> sp_bezier_fit_cubic_r real_env (Suc 0) (\<lambda>_. (0, 0)) (Some 0) (Some [(0, 0)]) 1 0 (2 ^ 25)
     = Some (Inr (- 1, \<lambda>_. (0, 0)))"
  using budget_limit [where E = real_env and len = 1 and max_beziers = "2 ^ 25 - 1"
      and fuel = "Suc 0" and m = "\<lambda>_. (0, 0)" and b = 0 and d = "[(0, 0)]" and error = 0]
    budget_limit [where E = real_env and len = 1 and max_beziers = "2 ^ 25"
      and fuel = "Suc 0" and m = "\<lambda>_. (0, 0)" and b = 0 and d = "[(0, 0)]" and error = 0]
  by (simp add: copy_valid_first del: sp_bezier_fit_cubic_full.simps)

text \<open>
  C5, as the specification states it: a negative tolerance makes
  \<^verbatim>\<open>sp_bezier_fit_cubic_r\<close> fail with a negative result for every input.  The
  entry point does not look at the tolerance; it sanitizes first, and an input that
  leaves fewer than two points returns \<open>0\<close>, whatever the tolerance.
\<close>

theorem negative_tolerance_counterexample:
  "(- 1 :: real) < 0 \<and>
   sp_bezier_fit_cubic_r real_env 1 (\<lambda>_. (0, 0)) (Some 0) (Some [(0, 0)]) 1 (- 1) 1
     = Some (Inr (0, \<lambda>_. (0, 0)))"
  by (simp add: sp_bezier_fit_cubic_r_def copy_valid_first)

text \<open>
  C5, amended: with non-null buffers, a positive length, a budget below \<open>2^25\<close> and a
  tolerance that fails the test \<^verbatim>\<open>error >= 0.0\<close>, on an input whose first point
  holds no NaN, the call returns \<open>0\<close> when sanitation leaves fewer than two points
  and \<open>-1\<close> otherwise, with the output buffer as it was.
\<close>

theorem negative_tolerance:
  assumes "0 < len" "max_beziers < 2 ^ 25" "\<not> lit E 0 \<le> error"
    and "\<not> isNaN E (fst (d ! 0))" "\<not> isNaN E (snd (d ! 0))"
  shows "\<exists>uniqued_data.
           copy_without_nans_or_adjacent_duplicates E d (nat len) = Some (Inr uniqued_data)
         \<and> sp_bezier_fit_cubic_r E (Suc n) m (Some b) (Some d) len error max_beziers
             = Some (Inr (if length uniqued_data < 2 then 0 else - 1, m))"
proof -
  from assms obtain ud where
    ud: "copy_without_nans_or_adjacent_duplicates E d (nat len) = Some (Inr ud)"
    by (simp add: copy_valid_first)
  have "sp_bezier_fit_cubic_r E (Suc n) m (Some b) (Some d) len error max_beziers
             = Some (Inr (if length ud < 2 then 0 else - 1, m))"
  proof (cases "length ud < 2")
    case True
    then show ?thesis using assms ud
      by (simp add: sp_bezier_fit_cubic_r_def del: sp_bezier_fit_cubic_full.simps)
  next
    case False
    then have "0 < int (length ud)" by (cases ud) auto
    from full_bad_tolerance [OF assms(3) this]
    show ?thesis using assms ud False
      by (simp add: sp_bezier_fit_cubic_r_def del: sp_bezier_fit_cubic_full.simps)
  qed
  with ud show ?thesis by blast
qed

theorem negative_tolerance_witness:
  "sp_bezier_fit_cubic_r real_env (Suc 0) (\<lambda>_. (0, 0)) (Some 0) (Some [(0, 0), (1, 1)]) 2 (- 1) 1
     = Some (Inr (- 1, \<lambda>_. (0, 0)))"
proof -
  have c: "copy_without_nans_or_adjacent_duplicates real_env [(0, 0), (1, 1)] 2
             = Some (Inr [(0, 0), (1, 1)])"
    by (simp add: copy_valid_first Let_def upt_rec)
  show ?thesis
    using negative_tolerance [where E = real_env and len = 2 and max_beziers = 1
        and error = "- 1" and d = "[(0, 0), (1, 1)]" and n = 0 and m = "\<lambda>_. (0, 0)" and b = 0]
    by (auto simp: c simp del: sp_bezier_fit_cubic_full.simps)
qed

subsection \<open>Two points\<close>

text \<open>
  C8: an input of exactly two points, with a tolerance that passes
  \<^verbatim>\<open>error >= 0.0\<close> and a budget of at least one, is fitted with exactly one segment
  whose first control point is the first input point and whose last control point is
  the second, as values and not up to comparison; this holds for
  \<^verbatim>\<open>sp_bezier_fit_cubic_full\<close> under any tangent hints, and for
  \<^verbatim>\<open>sp_bezier_fit_cubic_r\<close> on two points that sanitation keeps.  The witness is
  the scenario of the specification: \<open>[(0,0), (1,1)]\<close> with tolerance \<open>0\<close>.
\<close>

theorem two_point_fit:
  assumes "lit E 0 \<le> error" "1 \<le> max_beziers"
  shows "(\<exists>m'. sp_bezier_fit_cubic_full E (Suc n) m s (Some b) split_points (Some d) 2
                 tgl tgr error max_beziers = Some (Inr (1, m', s))
            \<and> m' b = d ! 0 \<and> m' (b + 3) = d ! 1)
       \<and> (max_beziers < 2 ^ 25 \<and> \<not> pt_eq E q p
            \<and> \<not> isNaN E (fst p) \<and> \<not> isNaN E (snd p) \<and> \<not> isNaN E (fst q) \<and> \<not> isNaN E (snd q)
          \<longrightarrow> (\<exists>m'. sp_bezier_fit_cubic_r E (Suc n) m (Some b) (Some [p, q]) 2 error max_beziers
                      = Some (Inr (1, m'))
                 \<and> m' b = p \<and> m' (b + 3) = q))"
proof (intro conjI impI)
  show "\<exists>m'. sp_bezier_fit_cubic_full E (Suc n) m s (Some b) split_points (Some d) 2
                 tgl tgr error max_beziers = Some (Inr (1, m', s))
            \<and> m' b = d ! 0 \<and> m' (b + 3) = d ! 1"
    using full_two [OF assms] by blast
next
  assume h: "max_beziers < 2 ^ 25 \<and> \<not> pt_eq E q p
            \<and> \<not> isNaN E (fst p) \<and> \<not> isNaN E (snd p) \<and> \<not> isNaN E (fst q) \<and> \<not> isNaN E (snd q)"
  have c: "copy_without_nans_or_adjacent_duplicates E [p, q] (nat 2) = Some (Inr [p, q])"
    using h by (simp add: copy_valid_first Let_def upt_rec)
  obtain m' where m': "sp_bezier_fit_cubic_full E (Suc n) m (\<lambda>_. 0) (Some b) None (Some [p, q]) 2
                 (unconstrained_tangent E) (unconstrained_tangent E) error max_beziers
                   = Some (Inr (1, m', \<lambda>_. 0))"
    "m' b = [p, q] ! 0" "m' (b + 3) = [p, q] ! 1"
    using full_two [OF assms, of n m "\<lambda>_. 0" b None "[p, q]"] by blast
  have "sp_bezier_fit_cubic_r E (Suc n) m (Some b) (Some [p, q]) 2 error max_beziers
          = Some (Inr (1, m'))"
    using h c m'(1) by (simp add: sp_bezier_fit_cubic_r_def del: sp_bezier_fit_cubic_full.simps)
  with m' show "\<exists>m'. sp_bezier_fit_cubic_r E (Suc n) m (Some b) (Some [p, q]) 2 error max_beziers
                      = Some (Inr (1, m')) \<and> m' b = p \<and> m' (b + 3) = q"
    by auto
qed

theorem two_point_fit_witness:
  "(\<exists>m'. sp_bezier_fit_cubic_full real_env (Suc 0) (\<lambda>_. (0, 0)) (\<lambda>_. 0) (Some 0) None
            (Some [(0, 0), (1, 1)]) 2 (0, 0) (0, 0) 0 1 = Some (Inr (1, m', \<lambda>_. 0))
          \<and> m' 0 = (0, 0) \<and> m' 3 = (1, 1))
   \<and> (\<exists>m'. sp_bezier_fit_cubic_r real_env (Suc 0) (\<lambda>_. (0, 0)) (Some 0)
              (Some [(0, 0), (1, 1)]) 2 0 1 = Some (Inr (1, m'))
          \<and> m' 0 = (0, 0) \<and> m' 3 = (1, 1))"
  using two_point_fit [where E = real_env and error = 0 and max_beziers = 1 and n = 0
      and m = "\<lambda>_. (0, 0)" and s = "\<lambda>_. 0" and b = 0 and split_points = None
      and d = "[(0, 0), (1, 1)]" and tgl = "(0, 0)" and tgr = "(0, 0)"
      and p = "(0, 0)" and q = "(1, 1)"]
  by (simp del: sp_bezier_fit_cubic_full.simps)

subsection \<open>What one call does to the output buffer\<close>

lemma estimate_lengths_frame:
  "estimate_lengths E m b data u len tgl tgr b = data ! 0"
  "estimate_lengths E m b data u len tgl tgr (b + 3) = data ! (len - 1)"
  "a < b \<or> b + 3 < a \<Longrightarrow> estimate_lengths E m b data u len tgl tgr a = m a"
  by (auto simp: estimate_lengths_def Let_def case_prod_beta)

lemma estimate_bi_frame:
  "a \<le> b \<or> b + 3 \<le> a \<Longrightarrow> estimate_bi E m b ei data u len a = m a"
  by (auto simp: estimate_bi_def Let_def case_prod_beta)

lemma generate_bezier_frame:
  assumes "generate_bezier E m b data u len tgl tgr tol = Inr m'"
  shows "m' b = data ! 0 \<and> m' (b + 3) = data ! (len - 1)
         \<and> (\<forall>a. a < b \<or> b + 3 < a \<longrightarrow> m' a = m a)"
  using assms
  by (auto simp: generate_bezier_def Let_def rbind_def estimate_lengths_frame estimate_bi_frame
      split: sum.splits if_splits)

lemma rbind_Inr:
  "rbind r f = Inr y \<longleftrightarrow> (\<exists>x. r = Inr x \<and> f x = Inr y)"
  by (cases r) simp_all

lemma fit_iterate_props:
  "fit_iterate E k m b data len u tgl tgr error tol r sp = Inr (a, m') \<Longrightarrow>
     (\<forall>x. x < b \<or> b + 3 < x \<longrightarrow> m' x = m x)
     \<and> (\<forall>n. a = Fitted n \<longrightarrow> n = 1 \<and> m' b = data ! 0 \<and> m' (b + 3) = data ! (len - 1))"
proof (induction k arbitrary: m u r sp)
  case 0
  then show ?case by auto
next
  case (Suc k)
  from Suc.prems obtain m1 u1 r1 sp1 where
    g: "generate_bezier E m b data u len tgl tgr error = Inr m1" and
    c: "(if \<bar>r1\<bar> \<le> lit E 1 then Inr (Fitted 1, m1)
         else fit_iterate E k m1 b data len u1 tgl tgr error tol r1 sp1) = Inr (a, m')"
    by (auto simp: rbind_Inr)
  note f = generate_bezier_frame [OF g]
  show ?case
  proof (cases "\<bar>r1\<bar> \<le> lit E 1")
    case True
    with c f show ?thesis by auto
  next
    case False
    with c have "fit_iterate E k m1 b data len u1 tgl tgr error tol r1 sp1 = Inr (a, m')"
      by simp
    from Suc.IH [OF this] f show ?thesis by auto
  qed
qed


lemma fit_attempt_props:
  assumes "fit_attempt E m b data len tgl tgr error mb = Inr (a, m')"
  shows "(\<forall>x. x < b \<or> b + 3 < x \<longrightarrow> m' x = m x)
     \<and> (\<forall>n. a = Fitted n \<longrightarrow>
            (n = - 1 \<and> m' = m)
          \<or> (n = 0 \<and> m' = m \<and> 1 \<le> mb \<and> (len < 2 \<or> 2 < len \<and> zero_length_path E data (nat len)))
          \<or> (n = 1 \<and> 2 \<le> len \<and> 1 \<le> mb \<and> m' b = data ! 0 \<and> m' (b + 3) = data ! (nat len - 1)))
     \<and> (\<forall>c sp. a = Failed c sp \<longrightarrow> 2 < len \<and> 1 \<le> mb)"
proof -
  consider (bad1) "\<not> len > 0" | (bad2) "len > 0" "\<not> mb \<ge> 1"
    | (bad3) "len > 0" "mb \<ge> 1" "\<not> error \<ge> lit E 0"
    | (short) "len > 0" "mb \<ge> 1" "error \<ge> lit E 0" "len < 2"
    | (two) "mb \<ge> 1" "error \<ge> lit E 0" "len = 2"
    | (zero) "mb \<ge> 1" "error \<ge> lit E 0" "2 < len" "zero_length_path E data (nat len)"
    | (fit) "mb \<ge> 1" "error \<ge> lit E 0" "2 < len" "\<not> zero_length_path E data (nat len)"
    by force
  then show ?thesis
  proof cases
    case bad1
    then have "fit_attempt E m b data len tgl tgr error mb = Inr (Fitted (- 1), m)"
      by (simp add: fit_attempt_def)
    with assms show ?thesis by auto
  next
    case bad2
    then have "fit_attempt E m b data len tgl tgr error mb = Inr (Fitted (- 1), m)"
      by (simp add: fit_attempt_def)
    with assms show ?thesis by auto
  next
    case bad3
    then have "fit_attempt E m b data len tgl tgr error mb = Inr (Fitted (- 1), m)"
      by (simp add: fit_attempt_def)
    with assms show ?thesis by auto
  next
    case short
    then have "fit_attempt E m b data len tgl tgr error mb = Inr (Fitted 0, m)"
      by (simp add: fit_attempt_def)
    with assms short show ?thesis by auto
  next
    case two
    with fit_attempt_two [of E error mb m b data tgl tgr] assms show ?thesis by auto
  next
    case zero
    then have "fit_attempt E m b data len tgl tgr error mb = Inr (Fitted 0, m)"
      by (simp add: fit_attempt_def Let_def zero_length_path_def del: fit_iterate.simps)
    with assms zero show ?thesis by auto
  next
    case fit
    let ?n = "nat len"
    let ?u = "chord_length_parameterize E data (replicate ?n (lit E 0)) ?n"
    from fit assms obtain m1 u1 r sp tol where
      g: "generate_bezier E m b data ?u ?n tgl tgr error = Inr m1" and
      c: "(if \<bar>r\<bar> \<le> lit E 1 then Inr (Fitted 1, m1)
           else if lit E 0 \<le> r \<and> r \<le> lit E 3 then
             fit_iterate E 4 m1 b data ?n u1 tgl tgr error tol r sp
           else Inr (Failed (r < lit E 0) sp, m1)) = Inr (a, m')"
      by (auto simp: fit_attempt_def Let_def zero_length_path_def rbind_Inr
          simp del: fit_iterate.simps)
    note f = generate_bezier_frame [OF g]
    consider (ok) "\<bar>r\<bar> \<le> lit E 1"
      | (iter) "\<not> \<bar>r\<bar> \<le> lit E 1" "lit E 0 \<le> r \<and> r \<le> lit E 3"
      | (fail) "\<not> \<bar>r\<bar> \<le> lit E 1" "\<not> (lit E 0 \<le> r \<and> r \<le> lit E 3)"
      by blast
    then show ?thesis
    proof cases
      case ok
      with c f fit show ?thesis by auto
    next
      case iter
      with c have "fit_iterate E 4 m1 b data ?n u1 tgl tgr error tol r sp = Inr (a, m')"
        by (simp del: fit_iterate.simps)
      from fit_iterate_props [OF this] f fit show ?thesis by (cases a) auto
    next
      case fail
      with c f fit show ?thesis by auto
    qed
  qed
qed


lemma corner_check_props:
  assumes "corner_check E len tgl tgr c sp = Inr r"
  shows "(\<forall>t1 t2. r = CornerRetry t1 t2 \<longrightarrow>
            (t1 = unconstrained_tangent E \<and> t2 = tgr \<and> \<not> is_zero E tgl)
          \<or> (t1 = tgl \<and> t2 = unconstrained_tangent E \<and> \<not> is_zero E tgr))"
  using assms
  by (auto simp: corner_check_def g_assert_def split: if_splits option.splits)

lemma center_tangent_Inr:
  "sp_darray_center_tangent E d c len = Inr t \<Longrightarrow> 0 < c \<and> c < len - 1"
  by (auto simp: sp_darray_center_tangent_def g_assert_def split: if_splits)

lemma split_plan_props:
  assumes "split_plan E m1 data len mb c cc = Inr (p, m')" "2 < len"
  shows "m' = m1 \<and> (\<forall>n. p = Done n \<longrightarrow> n = - 1)
     \<and> (\<forall>t1 t2. p = Retry t1 t2 \<longrightarrow> cc = CornerRetry t1 t2)
     \<and> (\<forall>sp r1 r2. p = Split sp r1 r2 \<longrightarrow> 0 < sp \<and> sp < nat len - 1 \<and> 1 < mb)"
  using assms
  by (auto simp: split_plan_def rbind_Inr nat_diff_distrib split: corner.splits if_splits option.splits
      dest!: center_tangent_Inr)

lemma fit_plan_props:
  assumes "fit_plan E m b data len tgl tgr error mb = Inr (p, m')"
  shows "(\<forall>x. x < b \<or> b + 3 < x \<longrightarrow> m' x = m x)
     \<and> (\<forall>n. p = Done n \<longrightarrow>
            n = - 1
          \<or> (n = 0 \<and> m' = m \<and> 1 \<le> mb \<and> (len < 2 \<or> 2 < len \<and> zero_length_path E data (nat len)))
          \<or> (n = 1 \<and> 2 \<le> len \<and> 1 \<le> mb \<and> m' b = data ! 0 \<and> m' (b + 3) = data ! (nat len - 1)))
     \<and> (\<forall>t1 t2. p = Retry t1 t2 \<longrightarrow> 2 < len \<and> 1 \<le> mb
          \<and> ((t1 = unconstrained_tangent E \<and> t2 = tgr \<and> \<not> is_zero E tgl)
             \<or> (t1 = tgl \<and> t2 = unconstrained_tangent E \<and> \<not> is_zero E tgr)))
     \<and> (\<forall>sp r1 r2. p = Split sp r1 r2 \<longrightarrow> 0 < sp \<and> sp < nat len - 1 \<and> 1 < mb \<and> 2 < len)"
proof -
  from assms obtain a m1 where
    a: "fit_attempt E m b data len tgl tgr error mb = Inr (a, m1)" and
    r: "(case a of
           Fitted r \<Rightarrow> Inr (Done r, m1)
         | Failed is_corner splitPoint \<Rightarrow>
             rbind (corner_check E len tgl tgr is_corner splitPoint)
               (split_plan E m1 data len mb is_corner)) = Inr (p, m')"
    by (auto simp: fit_plan_def rbind_Inr)
  note fa = fit_attempt_props [OF a]
  show ?thesis
  proof (cases a)
    case (Fitted n)
    with r fa show ?thesis by auto
  next
    case (Failed c sp)
    with fa have len: "2 < len" "1 \<le> mb" by auto
    from Failed r obtain cc where
      cc: "corner_check E len tgl tgr c sp = Inr cc" and
      r2: "split_plan E m1 data len mb c cc = Inr (p, m')"
      by (auto simp: rbind_Inr)
    from split_plan_props [OF r2 len(1)] corner_check_props [OF cc] len fa
    show ?thesis by auto
  qed
qed


lemma full_Suc_cases [consumes 1, case_names Done Retry LeftFail Both]:
  assumes "sp_bezier_fit_cubic_full E (Suc n) m s (Some b) spo (Some d) len tgl tgr error mb
             = Some (Inr (N, m', s'))"
  obtains
    (Done) "fit_plan E m b d len tgl tgr error mb = Inr (Done N, m')" "s' = s"
  | (Retry) t1 t2 m1 where
      "fit_plan E m b d len tgl tgr error mb = Inr (Retry t1 t2, m1)"
      "sp_bezier_fit_cubic_full E n m1 s (Some b) spo (Some d) len t1 t2 error mb
         = Some (Inr (N, m', s'))"
  | (LeftFail) sp r1 r2 m1 n1 where
      "fit_plan E m b d len tgl tgr error mb = Inr (Split sp r1 r2, m1)"
      "sp_bezier_fit_cubic_full E n m1 s (Some b) spo (Some d) (int sp + 1) tgl r2 error (mb - 1)
         = Some (Inr (n1, m', s'))"
      "n1 < 0" "N = - 1"
  | (Both) sp r1 r2 m1 n1 m2 s2 n2 where
      "fit_plan E m b d len tgl tgr error mb = Inr (Split sp r1 r2, m1)"
      "sp_bezier_fit_cubic_full E n m1 s (Some b) spo (Some d) (int sp + 1) tgl r2 error (mb - 1)
         = Some (Inr (n1, m2, s2))"
      "0 < n1"
      "sp_bezier_fit_cubic_full E n m2
         (case spo of None \<Rightarrow> s2 | Some sa \<Rightarrow> s2(sa + nat (n1 - 1) := int sp))
         (Some (b + nat (n1 * 4)))
         (case spo of None \<Rightarrow> None | Some sa \<Rightarrow> Some (sa + nat n1))
         (Some (drop sp d)) (len - int sp) r1 tgr error (nat ((int mb - n1) mod 2 ^ 32))
         = Some (Inr (n2, m', s'))"
      "N = (if n2 < 0 then - 1 else n1 + n2)"
proof -
  from assms obtain p m1 where
    p: "fit_plan E m b d len tgl tgr error mb = Inr (p, m1)"
    by (auto split: sum.splits)
  show thesis
  proof (cases p)
    case (Done r)
    with assms p have "r = N" "m1 = m'" "s' = s" by auto
    with p Done show thesis using that(1) by simp
  next
    case (Retry t1 t2)
    with assms p show thesis using that(2) by auto
  next
    case (Split sp r1 r2)
    with assms p obtain n1 m2 s2 where
      l: "sp_bezier_fit_cubic_full E n m1 s (Some b) spo (Some d) (int sp + 1) tgl r2 error (mb - 1)
         = Some (Inr (n1, m2, s2))"
      by (auto split: option.splits sum.splits)
    show thesis
    proof (cases "n1 < 0")
      case True
      with assms p Split l show thesis using that(3) by auto
    next
      case False
      with assms p Split l have pos: "0 < n1"
        by (auto split: if_splits)
      with assms p Split l obtain n2 where
        "sp_bezier_fit_cubic_full E n m2
         (case spo of None \<Rightarrow> s2 | Some sa \<Rightarrow> s2(sa + nat (n1 - 1) := int sp))
         (Some (b + nat (n1 * 4)))
         (case spo of None \<Rightarrow> None | Some sa \<Rightarrow> Some (sa + nat n1))
         (Some (drop sp d)) (len - int sp) r1 tgr error (nat ((int mb - n1) mod 2 ^ 32))
         = Some (Inr (n2, m', s'))" "N = (if n2 < 0 then - 1 else n1 + n2)"
        by (auto simp: Let_def split: if_splits option.splits sum.splits)
      with p Split l pos show thesis using that(4) by blast
    qed
  qed
qed

lemma full_budget:
  "sp_bezier_fit_cubic_full E fuel m s (Some b) spo (Some d) len tgl tgr error mb
     = Some (Inr (N, m', s')) \<Longrightarrow> 1 \<le> mb \<Longrightarrow> mb < 2 ^ 32 \<Longrightarrow>
   - 1 \<le> N \<and> N \<le> int mb \<and> (\<forall>a. a < b \<or> b + 4 * mb \<le> a \<longrightarrow> m' a = m a)"
proof (induction fuel arbitrary: m s b spo d len tgl tgr mb N m' s')
  case 0
  then show ?case by simp
next
  case (Suc n)
  from Suc.prems(1) show ?case
  proof (cases rule: full_Suc_cases)
    case Done
    from fit_plan_props [OF Done(1)] Suc.prems(2) show ?thesis by auto
  next
    case (Retry t1 t2 m1)
    from fit_plan_props [OF Retry(1)] Suc.IH [OF Retry(2) Suc.prems(2,3)] Suc.prems(2)
    show ?thesis by auto
  next
    case (LeftFail sp r1 r2 m1 n1)
    from fit_plan_props [OF LeftFail(1)] have mb: "1 \<le> mb - 1" "mb - 1 < 2 ^ 32"
      and fr: "\<forall>x. x < b \<or> b + 3 < x \<longrightarrow> m1 x = m x"
      using Suc.prems(3) by auto
    from Suc.IH [OF LeftFail(2) mb] fr LeftFail(4) mb show ?thesis by auto
  next
    case (Both sp r1 r2 m1 n1 m2 s2 n2)
    from fit_plan_props [OF Both(1)] have mb: "1 \<le> mb - 1" "mb - 1 < 2 ^ 32"
      and fr: "\<forall>x. x < b \<or> b + 3 < x \<longrightarrow> m1 x = m x"
      using Suc.prems(3) by auto
    from Suc.IH [OF Both(2) mb] have l: "n1 \<le> int (mb - 1)"
      "\<forall>a. a < b \<or> b + 4 * (mb - 1) \<le> a \<longrightarrow> m2 a = m1 a" by auto
    from l(1) Both(3) mb have e: "nat ((int mb - n1) mod 2 ^ 32) = mb - nat n1"
      "1 \<le> mb - nat n1" "mb - nat n1 < 2 ^ 32" "nat (n1 * 4) = 4 * nat n1" "nat n1 \<le> mb - 1"
      using Suc.prems(3) by (auto simp: nat_diff_distrib nat_mult_distrib)
    from Suc.IH [OF Both(4) [unfolded e] e(2,3)] have r: "- 1 \<le> n2" "n2 \<le> int (mb - nat n1)"
      "\<forall>a. a < b + 4 * nat n1 \<or> b + 4 * nat n1 + 4 * (mb - nat n1) \<le> a \<longrightarrow> m' a = m2 a"
      by auto
    have "\<forall>a. a < b \<or> b + 4 * mb \<le> a \<longrightarrow> m' a = m a"
    proof (intro allI impI)
      fix a assume a: "a < b \<or> b + 4 * mb \<le> a"
      with e(5) mb(1) have "m' a = m2 a" using r(3) by auto
      moreover from a mb(1) have "m2 a = m1 a" using l(2) by auto
      moreover from a mb(1) have "m1 a = m a" using fr by auto
      ultimately show "m' a = m a" by simp
    qed
    with Both(5,3) r(1,2) e(5) mb(1) show ?thesis by auto
  qed
qed

subsection \<open>Segments in the buffer and the points they span\<close>

lemma segments_add:
  "segments m b (n1 + n2) = segments m b n1 @ segments m (b + 4 * n1) n2"
proof -
  have "[0..<n1 + n2] = [0..<n1] @ [n1..<n1 + n2]"
    using upt_add_eq_append [of 0 n1 n2] by simp
  also have "[n1..<n1 + n2] = map (\<lambda>k. k + n1) [0..<n2]"
    using map_add_upt [of n1 n2] by (simp only: add.commute)
  finally have "[0..<n1 + n2] = [0..<n1] @ map (\<lambda>k. k + n1) [0..<n2]" .
  then show ?thesis
    by (simp add: segments_def o_def distrib_left add_ac)
qed

lemma segments_cong:
  "(\<And>a. b \<le> a \<Longrightarrow> a < b + 4 * n \<Longrightarrow> m a = m' a) \<Longrightarrow> segments m b n = segments m' b n"
  by (simp add: segments_def)

lemma full_zero:
  "sp_bezier_fit_cubic_full E fuel m s (Some b) spo (Some d) len tgl tgr error mb
     = Some (Inr (0, m', s')) \<Longrightarrow>
   len < 2 \<or> 2 < len \<and> zero_length_path E d (nat len)"
proof (induction fuel arbitrary: m s tgl tgr)
  case 0
  then show ?case by simp
next
  case (Suc n)
  from Suc.prems show ?case
  proof (cases rule: full_Suc_cases)
    case Done
    from fit_plan_props [OF Done(1)] show ?thesis by auto
  next
    case (Retry t1 t2 m1)
    from Suc.IH [OF Retry(2)] show ?thesis .
  next
    case (LeftFail sp r1 r2 m1 n1)
    then show ?thesis by simp
  next
    case (Both sp r1 r2 m1 n1 m2 s2 n2)
    then show ?thesis by (auto split: if_splits)
  qed
qed

lemma full_no_budget:
  "sp_bezier_fit_cubic_full E fuel m s (Some b) spo (Some d) len tgl tgr error 0
     = Some (Inr (N, m', s')) \<Longrightarrow> N = - 1"
proof (cases fuel)
  case 0
  assume "sp_bezier_fit_cubic_full E fuel m s (Some b) spo (Some d) len tgl tgr error 0
     = Some (Inr (N, m', s'))"
  with 0 show ?thesis by simp
next
  case (Suc n)
  assume a: "sp_bezier_fit_cubic_full E fuel m s (Some b) spo (Some d) len tgl tgr error 0
     = Some (Inr (N, m', s'))"
  have "fit_attempt E m b d len tgl tgr error 0 = Inr (Fitted (- 1), m)"
    by (simp add: fit_attempt_def)
  then have "fit_plan E m b d len tgl tgr error 0 = Inr (Done (- 1), m)"
    by (simp add: fit_plan_def)
  with a Suc show ?thesis by simp
qed

lemma segments_span_frame:
  "segments_span m b d cs \<Longrightarrow> (\<And>a. b \<le> a \<Longrightarrow> a < b + 4 * (length cs - 1) \<Longrightarrow> m' a = m a)
     \<Longrightarrow> segments_span m' b d cs"
proof (induction m b d cs rule: segments_span.induct)
  case (1 m b d i j cs)
  have "segments_span m' (b + 4) d (j # cs)"
  proof (rule "1.IH")
    show "segments_span m (b + 4) d (j # cs)" using "1.prems"(1) by simp
  next
    fix a assume "b + 4 \<le> a" "a < b + 4 + 4 * (length (j # cs) - 1)"
    then show "m' a = m a" using "1.prems"(2) [of a] by simp
  qed
  moreover have "m' b = m b" "m' (b + 3) = m (b + 3)"
    using "1.prems"(2) [of b] "1.prems"(2) [of "b + 3"] by simp_all
  ultimately show ?case using "1.prems"(1) by simp
qed simp_all

lemma segments_span_append:
  "cs1 \<noteq> [] \<Longrightarrow> segments_span m b d cs1
     \<Longrightarrow> segments_span m (b + 4 * (length cs1 - 1)) d (last cs1 # cs2)
     \<Longrightarrow> segments_span m b d (cs1 @ cs2)"
proof (induction m b d cs1 rule: segments_span.induct)
  case (1 m b d i j cs)
  from "1.prems" have "segments_span m (b + 4) d ((j # cs) @ cs2)"
    by (intro "1.IH") (simp_all add: algebra_simps)
  with "1.prems" show ?case by simp
qed simp_all

lemma segments_span_shift:
  "sp \<le> length d \<Longrightarrow> segments_span m b (drop sp d) cs
     \<Longrightarrow> segments_span m b d (map (\<lambda>c. sp + c) cs)"
  by (induction m b "drop sp d" cs rule: segments_span.induct) simp_all

lemma segments_span_chained:
  "segments_span m b d cs \<Longrightarrow> k + 2 < length cs \<Longrightarrow> m (b + 4 * k + 3) = m (b + 4 * (k + 1))"
proof (induction m b d cs arbitrary: k rule: segments_span.induct)
  case (1 m b d i j cs)
  show ?case
  proof (cases k)
    case 0
    with "1.prems" obtain j' cs' where "cs = j' # cs'" by (cases cs) auto
    with "1.prems" 0 show ?thesis by simp
  next
    case (Suc k')
    with "1.prems" have "m (b + 4 + 4 * k' + 3) = m (b + 4 + 4 * (k' + 1))"
      by (intro "1.IH") simp_all
    with Suc show ?thesis by (simp add: algebra_simps)
  qed
qed simp_all

lemma sanitized_prefix:
  "sanitized E d len \<Longrightarrow> len' \<le> len \<Longrightarrow> sanitized E d len'"
  by (auto simp: sanitized_def)

lemma sanitized_drop:
  "sanitized E d len \<Longrightarrow> sp \<le> len \<Longrightarrow> len \<le> length d \<Longrightarrow> sanitized E (drop sp d) (len - sp)"
  by (auto simp: sanitized_def algebra_simps)

lemma full_chain:
  "sp_bezier_fit_cubic_full E fuel m s (Some b) spo (Some d) len tgl tgr error mb
     = Some (Inr (N, m', s')) \<Longrightarrow> 1 \<le> N \<Longrightarrow> positive_chords E \<Longrightarrow>
   sanitized E d (nat len) \<Longrightarrow> nat len \<le> length d \<Longrightarrow> 1 \<le> mb \<Longrightarrow> mb < 2 ^ 32 \<Longrightarrow>
   \<exists>cs. length cs = nat N + 1 \<and> hd cs = 0 \<and> last cs = nat len - 1 \<and> segments_span m' b d cs"
proof (induction fuel arbitrary: m s b spo d len tgl tgr mb N m' s')
  case 0
  then show ?case by simp
next
  case (Suc n)
  from Suc.prems(1) show ?case
  proof (cases rule: full_Suc_cases)
    case Done
    from fit_plan_props [OF Done(1)] Suc.prems(2)
    have "2 \<le> len" "m' b = d ! 0" "m' (b + 3) = d ! (nat len - 1)" "N = 1" by auto
    then have "length [0, nat len - 1] = nat N + 1 \<and> hd [0, nat len - 1] = 0
        \<and> last [0, nat len - 1] = nat len - 1 \<and> segments_span m' b d [0, nat len - 1]"
      by simp
    then show ?thesis by blast
  next
    case (Retry t1 t2 m1)
    from Suc.IH [OF Retry(2) Suc.prems(2-7)] show ?thesis .
  next
    case (LeftFail sp r1 r2 m1 n1)
    with Suc.prems(2) show ?thesis by simp
  next
    case (Both sp r1 r2 m1 n1 m2 s2 n2)
    from fit_plan_props [OF Both(1)] have mb: "1 \<le> mb - 1" "mb - 1 < 2 ^ 32"
      and sp: "0 < sp" "sp < nat len - 1" "2 < len"
      using Suc.prems(7) by auto
    from full_budget [OF Both(2) mb] have l: "n1 \<le> int (mb - 1)" by auto
    from l(1) Both(3) mb have e: "nat ((int mb - n1) mod 2 ^ 32) = mb - nat n1"
      "1 \<le> mb - nat n1" "mb - nat n1 < 2 ^ 32" "nat (n1 * 4) = 4 * nat n1" "nat n1 \<le> mb - 1"
      using Suc.prems(7) by (auto simp: nat_diff_distrib nat_mult_distrib)
    note right = Both(4) [unfolded e]
    from full_budget [OF right e(2,3)]
    have fr: "\<forall>a. a < b + 4 * nat n1 \<longrightarrow> m' a = m2 a" by auto
    from Both(5) Suc.prems(2) have n2: "0 \<le> n2" "N = n1 + n2" by (auto split: if_splits)
    have san_r: "sanitized E (drop sp d) (nat (len - int sp))"
      using sanitized_drop [OF Suc.prems(4), of sp] sp Suc.prems(5)
      by (simp add: nat_diff_distrib)
    have "n2 \<noteq> 0"
    proof
      assume "n2 = 0"
      with right have "len - int sp < 2
          \<or> 2 < len - int sp \<and> zero_length_path E (drop sp d) (nat (len - int sp))"
        using full_zero by blast
      moreover from sp have "2 \<le> nat (len - int sp)" by auto
      ultimately show False
        using Suc.prems(3) san_r unfolding positive_chords_def by auto
    qed
    with n2 have n2': "1 \<le> n2" by simp
    have "\<exists>cs. length cs = nat n1 + 1 \<and> hd cs = 0 \<and> last cs = nat (int sp + 1) - 1
            \<and> segments_span m2 b d cs"
    proof (rule Suc.IH [OF Both(2) _ Suc.prems(3) _ _ mb])
      show "1 \<le> n1" using Both(3) by simp
      show "sanitized E d (nat (int sp + 1))"
        using sanitized_prefix [OF Suc.prems(4), of "nat (int sp + 1)"] sp by auto
      show "nat (int sp + 1) \<le> length d" using sp Suc.prems(5) by auto
    qed
    then obtain cs1 where cs1: "length cs1 = nat n1 + 1" "hd cs1 = 0" "last cs1 = sp"
      "segments_span m2 b d cs1" by auto
    have "\<exists>cs. length cs = nat n2 + 1 \<and> hd cs = 0 \<and> last cs = nat (len - int sp) - 1
            \<and> segments_span m' (b + 4 * nat n1) (drop sp d) cs"
    proof (rule Suc.IH [OF right n2' Suc.prems(3) san_r _ e(2,3)])
      show "nat (len - int sp) \<le> length (drop sp d)" using sp Suc.prems(5) by auto
    qed
    then obtain cs2 where cs2: "length cs2 = nat n2 + 1" "hd cs2 = 0"
      "last cs2 = nat (len - int sp) - 1" "segments_span m' (b + 4 * nat n1) (drop sp d) cs2"
      by auto
    from cs2(1) obtain c cs2' where c: "cs2 = c # cs2'" by (cases cs2) auto
    with cs2(2) have c0: "c = 0" by simp
    from cs2(1) c n2' have ne: "cs2' \<noteq> []" by auto
    have sd: "sp \<le> length d" using sp Suc.prems(5) by auto
    from segments_span_shift [OF sd cs2(4)] c c0
    have sh: "segments_span m' (b + 4 * nat n1) d (sp # map (\<lambda>c. sp + c) cs2')" by simp
    have l': "segments_span m' b d cs1"
      using segments_span_frame [OF cs1(4), of m'] fr cs1(1) by simp
    from cs1(1) have ne1: "cs1 \<noteq> []" by auto
    have "segments_span m' b d (cs1 @ map (\<lambda>c. sp + c) cs2')"
      using segments_span_append [OF ne1 l', of "map (\<lambda>c. sp + c) cs2'"] sh cs1(1,3) by simp
    moreover have "length (cs1 @ map (\<lambda>c. sp + c) cs2') = nat N + 1"
      using cs1(1) cs2(1) c n2 n2' Both(3) by (simp add: nat_add_distrib)
    moreover have "hd (cs1 @ map (\<lambda>c. sp + c) cs2') = 0"
      using ne1 cs1(2) by simp
    moreover have "last (cs1 @ map (\<lambda>c. sp + c) cs2') = nat len - 1"
    proof -
      have "last (cs1 @ map (\<lambda>c. sp + c) cs2') = sp + last cs2'"
        using ne by (simp add: last_map)
      also have "last cs2' = nat (len - int sp) - 1" using cs2(3) c ne by simp
      also have "sp + (nat (len - int sp) - 1) = nat len - 1" using sp by auto
      finally show ?thesis .
    qed
    ultimately show ?thesis by blast
  qed
qed

subsection \<open>The depth of the recursion\<close>

lemma full_fuel_mono:
  "sp_bezier_fit_cubic_full E f m s (Some b) spo (Some d) len tgl tgr error mb = Some r
     \<Longrightarrow> f \<le> f'
     \<Longrightarrow> sp_bezier_fit_cubic_full E f' m s (Some b) spo (Some d) len tgl tgr error mb = Some r"
proof (induction f arbitrary: f' m s b spo d len tgl tgr mb r)
  case 0
  then show ?case by simp
next
  case (Suc n)
  from Suc.prems(2) obtain n' where f': "f' = Suc n'" "n \<le> n'" by (cases f') auto
  show ?case
  proof (cases "fit_plan E m b d len tgl tgr error mb")
    case (Inl e)
    with Suc.prems(1) f' show ?thesis by simp
  next
    case (Inr pm)
    obtain p m1 where pm: "pm = (p, m1)" by (cases pm)
    show ?thesis
    proof (cases p)
      case (Done x)
      with Inr pm Suc.prems(1) f' show ?thesis by simp
    next
      case (Retry t1 t2)
      with Inr pm Suc.prems(1) have
        "sp_bezier_fit_cubic_full E n m1 s (Some b) spo (Some d) len t1 t2 error mb = Some r"
        by simp
      from Suc.IH [OF this f'(2)] Inr pm Retry f' show ?thesis by simp
    next
      case (Split sp r1 r2)
      let ?L = "\<lambda>k. sp_bezier_fit_cubic_full E k m1 s (Some b) spo (Some d) (int sp + 1)
                     tgl r2 error (mb - 1)"
      from Inr pm Split Suc.prems(1) obtain l where l: "?L n = Some l"
        by (auto split: option.splits)
      from Suc.IH [OF l f'(2)] have l': "?L n' = Some l" .
      show ?thesis
      proof (cases l)
        case (Inl e)
        with Inr pm Split Suc.prems(1) f' l l' show ?thesis by auto
      next
        case (Inr res)
        obtain n1 m2 s2 where res: "res = (n1, m2, s2)" by (cases res)
        show ?thesis
        proof (cases "n1 < 0 \<or> n1 = 0")
          case True
          with \<open>fit_plan E m b d len tgl tgr error mb = Inr pm\<close> pm Split Suc.prems(1) f' l l'
            Inr res show ?thesis by auto
        next
          case False
          let ?R = "\<lambda>k. sp_bezier_fit_cubic_full E k m2
             (case spo of None \<Rightarrow> s2 | Some sa \<Rightarrow> s2(sa + nat (n1 - 1) := int sp))
             (Some (b + nat (n1 * 4)))
             (case spo of None \<Rightarrow> None | Some sa \<Rightarrow> Some (sa + nat n1))
             (Some (drop sp d)) (len - int sp) r1 tgr error (nat ((int mb - n1) mod 2 ^ 32))"
          from \<open>fit_plan E m b d len tgl tgr error mb = Inr pm\<close> pm Split Suc.prems(1) l Inr res
            False obtain rr where rr: "?R n = Some rr"
            by (auto simp: Let_def split: option.splits)
          from Suc.IH [OF rr f'(2)] have rr': "?R n' = Some rr" .
          from \<open>fit_plan E m b d len tgl tgr error mb = Inr pm\<close> pm Split Suc.prems(1) f' l l'
            Inr res False rr rr' show ?thesis
            by (simp add: Let_def)
        qed
      qed
    qed
  qed
qed

lemma full_fuel_enough:
  "is_zero E (unconstrained_tangent E) \<Longrightarrow> 1 \<le> mb \<Longrightarrow> mb < 2 ^ 32
     \<Longrightarrow> 3 * mb + (if is_zero E tgl then 0 else 1) + (if is_zero E tgr then 0 else 1) \<le> fuel + 2
     \<Longrightarrow> sp_bezier_fit_cubic_full E fuel m s (Some b) spo (Some d) len tgl tgr error mb \<noteq> None"
proof (induction fuel arbitrary: m s b spo d len tgl tgr mb)
  case 0
  then show ?case by (auto split: if_splits)
next
  case (Suc n)
  show ?case
  proof (cases "fit_plan E m b d len tgl tgr error mb")
    case (Inl e)
    then show ?thesis by simp
  next
    case (Inr pm)
    obtain p m1 where pm: "pm = (p, m1)" by (cases pm)
    note fp = fit_plan_props [OF Inr [unfolded pm]]
    show ?thesis
    proof (cases p)
      case (Done x)
      with Inr pm show ?thesis by simp
    next
      case (Retry t1 t2)
      with fp have "(t1 = unconstrained_tangent E \<and> t2 = tgr \<and> \<not> is_zero E tgl)
             \<or> (t1 = tgl \<and> t2 = unconstrained_tangent E \<and> \<not> is_zero E tgr)"
        by blast
      with Suc.prems(1,4)
      have "3 * mb + (if is_zero E t1 then 0 else 1) + (if is_zero E t2 then 0 else 1) \<le> n + 2"
        by (auto split: if_splits)
      from Suc.IH [OF Suc.prems(1-3) this] Inr pm Retry show ?thesis by simp
    next
      case (Split sp r1 r2)
      with fp have mb: "1 \<le> mb - 1" "mb - 1 < 2 ^ 32" using Suc.prems(3) by auto
      let ?L = "sp_bezier_fit_cubic_full E n m1 s (Some b) spo (Some d) (int sp + 1)
                     tgl r2 error (mb - 1)"
      have "3 * (mb - 1) + (if is_zero E tgl then 0 else 1) + (if is_zero E r2 then 0 else 1)
              \<le> n + 2"
        using Suc.prems(4) mb by (auto split: if_splits)
      from Suc.IH [OF Suc.prems(1) mb this] obtain l where l: "?L = Some l" by blast
      show ?thesis
      proof (cases l)
        case (Inl e)
        with \<open>fit_plan E m b d len tgl tgr error mb = Inr pm\<close> pm Split l show ?thesis by simp
      next
        case (Inr res)
        obtain n1 m2 s2 where res: "res = (n1, m2, s2)" by (cases res)
        show ?thesis
        proof (cases "n1 < 0 \<or> n1 = 0")
          case True
          with \<open>fit_plan E m b d len tgl tgr error mb = Inr pm\<close> pm Split l Inr res
          show ?thesis by auto
        next
          case False
          from full_budget [OF l [unfolded Inr res] mb] have "n1 \<le> int (mb - 1)" by auto
          with False mb have e: "nat ((int mb - n1) mod 2 ^ 32) = mb - nat n1"
            "1 \<le> mb - nat n1" "mb - nat n1 < 2 ^ 32" "1 \<le> nat n1"
            using Suc.prems(3) by (auto simp: nat_diff_distrib)
          have k: "3 * (mb - nat n1) + 3 \<le> 3 * mb" using e(2,4) by linarith
          have "3 * (mb - nat n1) + (if is_zero E r1 then 0 else 1)
                  + (if is_zero E tgr then 0 else 1) \<le> n + 2"
            using Suc.prems(4) k by (simp split: if_splits)
          from Suc.IH [OF Suc.prems(1) e(2,3) this] obtain rr where
            "sp_bezier_fit_cubic_full E n m2
             (case spo of None \<Rightarrow> s2 | Some sa \<Rightarrow> s2(sa + nat (n1 - 1) := int sp))
             (Some (b + nat (n1 * 4)))
             (case spo of None \<Rightarrow> None | Some sa \<Rightarrow> Some (sa + nat n1))
             (Some (drop sp d)) (len - int sp) r1 tgr error (mb - nat n1) = Some rr"
            by blast
          with \<open>fit_plan E m b d len tgl tgr error mb = Inr pm\<close> pm Split l Inr res False e(1)
          show ?thesis by (auto simp: Let_def split: sum.splits)
        qed
      qed
    qed
  qed
qed

subsection \<open>Chord-length parameters\<close>

lemma chord_sums_fold:
  assumes "length u = len" "k \<le> len"
  shows "length (fold (chord_step E d) [1..<k] u) = len
     \<and> (\<forall>j. j = 0 \<or> k \<le> j \<longrightarrow> fold (chord_step E d) [1..<k] u ! j = u ! j)
     \<and> (\<forall>j. 1 \<le> j \<and> j < k \<longrightarrow>
            fold (chord_step E d) [1..<k] u ! j
            = fold (chord_step E d) [1..<k] u ! (j - 1) + L2 E (pt_sub (d ! j) (d ! (j - 1))))"
  using assms(2)
proof (induction k)
  case 0
  then show ?case using assms(1) by simp
next
  case (Suc k)
  show ?case
  proof (cases "k = 0")
    case True
    then show ?thesis using assms(1) by simp
  next
    case False
    then have up: "[1..<Suc k] = [1..<k] @ [k]" by simp
    let ?r = "fold (chord_step E d) [1..<k] u"
    let ?v = "?r ! (k - 1) + L2 E (pt_sub (d ! k) (d ! (k - 1)))"
    from Suc.IH Suc.prems have IH: "length ?r = len
         \<and> (\<forall>j. j = 0 \<or> k \<le> j \<longrightarrow> ?r ! j = u ! j)
         \<and> (\<forall>j. 1 \<le> j \<and> j < k \<longrightarrow>
                  ?r ! j = ?r ! (j - 1) + L2 E (pt_sub (d ! j) (d ! (j - 1))))"
      by simp
    from IH have IH1: "length ?r = len" by blast
    from IH have IH2: "\<And>j. j = 0 \<or> k \<le> j \<Longrightarrow> ?r ! j = u ! j" by blast
    from IH have IH3: "\<And>j. 1 \<le> j \<Longrightarrow> j < k \<Longrightarrow>
                  ?r ! j = ?r ! (j - 1) + L2 E (pt_sub (d ! j) (d ! (j - 1)))" by blast
    have r': "fold (chord_step E d) [1..<Suc k] u = ?r[k := ?v]"
      unfolding up by (simp add: chord_step_def Let_def)
    have klen: "k < length ?r" using Suc.prems IH1 by simp
    have a: "length (?r[k := ?v]) = len" using IH1 by simp
    have b: "(?r[k := ?v]) ! j = u ! j" if "j = 0 \<or> Suc k \<le> j" for j
    proof -
      from that False have "j \<noteq> k" by auto
      then have "(?r[k := ?v]) ! j = ?r ! j" by simp
      also have "\<dots> = u ! j" using that by (intro IH2) auto
      finally show ?thesis .
    qed
    have c: "(?r[k := ?v]) ! j = (?r[k := ?v]) ! (j - 1) + L2 E (pt_sub (d ! j) (d ! (j - 1)))"
      if "1 \<le> j" "j < Suc k" for j
    proof (cases "j = k")
      case True
      with False klen show ?thesis by simp
    next
      case F: False
      with that have jk: "j < k" by simp
      with that have "(?r[k := ?v]) ! j = ?r ! j" "(?r[k := ?v]) ! (j - 1) = ?r ! (j - 1)"
        by simp_all
      with IH3 [OF that(1) jk] show ?thesis by simp
    qed
    show ?thesis unfolding r' using a b c by blast
  qed
qed


lemma chord_div_fold:
  assumes "length u = len" "k \<le> len"
  shows "length (fold (\<lambda>i u. u[i := u ! i / t]) [1..<k] u) = len
     \<and> (\<forall>j. j = 0 \<or> k \<le> j \<longrightarrow> fold (\<lambda>i u. u[i := u ! i / t]) [1..<k] u ! j = u ! j)
     \<and> (\<forall>j. 1 \<le> j \<and> j < k \<longrightarrow> fold (\<lambda>i u. u[i := u ! i / t]) [1..<k] u ! j = u ! j / t)"
  using assms(2)
proof (induction k)
  case 0
  then show ?case using assms(1) by simp
next
  case (Suc k)
  show ?case
  proof (cases "k = 0")
    case True
    then show ?thesis using assms(1) by simp
  next
    case False
    then have up: "[1..<Suc k] = [1..<k] @ [k]" by simp
    let ?r = "fold (\<lambda>i u. u[i := u ! i / t]) [1..<k] u"
    from Suc.IH Suc.prems have IH: "length ?r = len
         \<and> (\<forall>j. j = 0 \<or> k \<le> j \<longrightarrow> ?r ! j = u ! j)
         \<and> (\<forall>j. 1 \<le> j \<and> j < k \<longrightarrow> ?r ! j = u ! j / t)"
      by simp
    from IH have IH1: "length ?r = len" by blast
    from IH have IH2: "\<And>j. j = 0 \<or> k \<le> j \<Longrightarrow> ?r ! j = u ! j" by blast
    from IH have IH3: "\<And>j. 1 \<le> j \<Longrightarrow> j < k \<Longrightarrow> ?r ! j = u ! j / t" by blast
    have r': "fold (\<lambda>i u. u[i := u ! i / t]) [1..<Suc k] u = ?r[k := ?r ! k / t]"
      unfolding up by simp
    have klen: "k < length ?r" using Suc.prems IH1 by simp
    have a: "length (?r[k := ?r ! k / t]) = len" using IH1 by simp
    have b: "(?r[k := ?r ! k / t]) ! j = u ! j" if "j = 0 \<or> Suc k \<le> j" for j
    proof -
      from that False have "j \<noteq> k" by auto
      then have "(?r[k := ?r ! k / t]) ! j = ?r ! j" by simp
      also have "\<dots> = u ! j" using that by (intro IH2) auto
      finally show ?thesis .
    qed
    have c: "(?r[k := ?r ! k / t]) ! j = u ! j / t" if "1 \<le> j" "j < Suc k" for j
    proof (cases "j = k")
      case True
      have "?r ! k = u ! k" by (intro IH2) simp
      with True klen show ?thesis by simp
    next
      case F: False
      with that have jk: "j < k" by simp
      with that have "(?r[k := ?r ! k / t]) ! j = ?r ! j" by simp
      with IH3 [OF that(1) jk] show ?thesis by simp
    qed
    show ?thesis unfolding r' using a b c by blast
  qed
qed

lemma chord_sums_total:
  assumes "length u = len" "j < len"
  shows "fold (chord_step E d) [1..<len] (u[0 := lit E 0]) ! j = chord_total E d j"
  using assms(2)
proof (induction j)
  case 0
  have "fold (chord_step E d) [1..<len] (u[0 := lit E 0]) ! 0 = (u[0 := lit E 0]) ! 0"
    using chord_sums_fold [of "u[0 := lit E 0]" len len E d] assms(1) by simp
  with 0 assms(1) show ?case by simp
next
  case (Suc j)
  have "fold (chord_step E d) [1..<len] (u[0 := lit E 0]) ! Suc j
        = fold (chord_step E d) [1..<len] (u[0 := lit E 0]) ! (Suc j - 1)
          + L2 E (pt_sub (d ! Suc j) (d ! (Suc j - 1)))"
    using chord_sums_fold [of "u[0 := lit E 0]" len len E d] assms(1) Suc.prems by simp
  with Suc show ?case by simp
qed

lemma chord_sums_length:
  "length u = len \<Longrightarrow> length (fold (chord_step E d) [1..<len] (u[0 := lit E 0])) = len"
  using chord_sums_fold [of "u[0 := lit E 0]" len len E d] by simp

text \<open>The array that \<^verbatim>\<open>chord_length_parameterize\<close> leaves, entry by entry.\<close>

lemma chord_length_parameterize_nth:
  assumes "2 \<le> len" "length u = len" "\<not> feq E (chord_total E d (len - 1)) (lit E 0)"
    "isFinite E (chord_total E d (len - 1))" "j < len"
  shows "chord_length_parameterize E d u len ! j =
     (if j = 0 then lit E 0
      else if j = len - 1 \<and> \<not> feq E (chord_total E d j / chord_total E d (len - 1)) (lit E 1)
        then lit E 1
      else chord_total E d j / chord_total E d (len - 1))"
proof -
  let ?u1 = "fold (chord_step E d) [1..<len] (u[0 := lit E 0])"
  let ?t = "chord_total E d (len - 1)"
  let ?u2 = "fold (\<lambda>i u. u[i := u ! i / ?t]) [1..<len] ?u1"
  have l1: "length ?u1 = len" using assms(2) by (rule chord_sums_length)
  have t: "?u1 ! (len - 1) = ?t" using assms(1,2) by (intro chord_sums_total) auto
  have u2: "length ?u2 = len" "?u2 ! 0 = ?u1 ! 0"
    "\<And>i. 1 \<le> i \<Longrightarrow> i < len \<Longrightarrow> ?u2 ! i = ?u1 ! i / ?t"
    using chord_div_fold [of ?u1 len len ?t] l1 by auto
  have c: "chord_length_parameterize E d u len =
       (if \<not> feq E (?u2 ! (len - 1)) (lit E 1) then ?u2[len - 1 := lit E 1] else ?u2)"
    using assms(1,3,4) t by (simp add: chord_length_parameterize_def Let_def)
  have last: "?u2 ! (len - 1) = ?t / ?t"
    using u2(3) [of "len - 1"] assms(1) t by simp
  show ?thesis
  proof (cases "j = 0")
    case True
    have "?u1 ! 0 = chord_total E d 0" using assms(1,2) by (intro chord_sums_total) auto
    with True c u2 assms(1) show ?thesis by (auto simp: nth_list_update)
  next
    case False
    have "?u2 ! j = chord_total E d j / ?t"
      using u2(3) [of j] False assms(5) chord_sums_total [OF assms(2,5), of E d] by simp
    with False c u2(1) last assms(5) show ?thesis
      by (auto simp: nth_list_update)
  qed
qed

lemma chord_total_finite:
  assumes "\<forall>a b. isFinite E (a + b) \<longrightarrow> isFinite E a \<and> isFinite E b"
  shows "isFinite E (chord_total E d (j + k)) \<Longrightarrow> isFinite E (chord_total E d j)"
proof (induction k)
  case 0
  then show ?case by simp
next
  case (Suc k)
  from Suc.prems have "isFinite E (chord_total E d (j + k) + L2 E (pt_sub (d ! Suc (j + k)) (d ! (j + k))))"
    by simp
  with assms have "isFinite E (chord_total E d (j + k))" by blast
  then show ?case by (rule Suc.IH)
qed

lemma ite_second: "x = (if a then p else if b then q else r) \<Longrightarrow> \<not> a \<Longrightarrow> b \<Longrightarrow> x = q"
  by simp

lemma ite_third: "x = (if a then p else if b then q else r) \<Longrightarrow> \<not> a \<Longrightarrow> \<not> b \<Longrightarrow> x = r"
  by simp

text \<open>
  C6: for \<open>len \<ge> 2\<close> points whose total chord length, summed as the code sums it, is
  positive and finite, \<^verbatim>\<open>chord_length_parameterize\<close> leaves \<open>u[0]\<close> the literal
  \<open>0.0\<close>, leaves a \<open>u[len - 1]\<close> that compares equal to \<open>1.0\<close>, and
  \<open>u[i - 1] \<le> u[i]\<close> holds for every \<open>i\<close> from \<open>1\<close> to \<open>len - 1\<close>.  The
  arithmetic is any that obeys the laws of \<open>ordered_arith\<close>; the witness runs the
  function on three points in exact arithmetic.
\<close>

theorem chord_parameters_ordered:
  assumes "ordered_arith E" "2 \<le> len" "length u = len"
    and "lit E 0 < chord_total E d (len - 1)" "isFinite E (chord_total E d (len - 1))"
  shows "chord_length_parameterize E d u len ! 0 = lit E 0
     \<and> feq E (chord_length_parameterize E d u len ! (len - 1)) (lit E 1)
     \<and> (\<forall>i. 1 \<le> i \<and> i < len \<longrightarrow>
            chord_length_parameterize E d u len ! (i - 1) \<le> chord_length_parameterize E d u len ! i)"
proof -
  let ?T = "chord_total E d (len - 1)"
  let ?r = "chord_length_parameterize E d u len"
  from assms(1) have L:
    "(\<forall>a b. isFinite E (a + b) \<longrightarrow> isFinite E a \<and> isFinite E b)
   \<and> (\<forall>x y. isFinite E (fhypot E x y) \<longrightarrow> lit E 0 \<le> fhypot E x y)
   \<and> (\<forall>a h. isFinite E a \<and> lit E 0 \<le> h \<longrightarrow> a \<le> a + h)
   \<and> (\<forall>x y c. x \<le> y \<and> lit E 0 < c \<and> isFinite E c \<longrightarrow> x / c \<le> y / c)
   \<and> (\<forall>x c. lit E 0 \<le> x \<and> lit E 0 < c \<and> isFinite E c \<longrightarrow> lit E 0 \<le> x / c)
   \<and> (\<forall>x c. x \<le> c \<and> lit E 0 < c \<and> isFinite E c \<longrightarrow> x / c \<le> lit E 1)
   \<and> lit E 0 \<le> lit E 1
   \<and> feq E (lit E 1) (lit E 1)
   \<and> (\<forall>x. lit E 0 < x \<longrightarrow> \<not> feq E x (lit E 0))"
    unfolding ordered_arith_def .
  from L[THEN conjunct1] have L1: "\<And>a b. isFinite E (a + b) \<Longrightarrow> isFinite E a \<and> isFinite E b"
    by blast
  from L[THEN conjunct2, THEN conjunct1] have L2: "\<And>x y. isFinite E (fhypot E x y) \<Longrightarrow> lit E 0 \<le> fhypot E x y"
    by blast
  from L[THEN conjunct2, THEN conjunct2, THEN conjunct1] have L3: "\<And>a h. isFinite E a \<Longrightarrow> lit E 0 \<le> h \<Longrightarrow> a \<le> a + h"
    by blast
  from L[THEN conjunct2, THEN conjunct2, THEN conjunct2, THEN conjunct1] have L4: "\<And>x y c. x \<le> y \<Longrightarrow> lit E 0 < c \<Longrightarrow> isFinite E c \<Longrightarrow> x / c \<le> y / c"
    by blast
  from L[THEN conjunct2, THEN conjunct2, THEN conjunct2, THEN conjunct2, THEN conjunct1] have L5: "\<And>x c. lit E 0 \<le> x \<Longrightarrow> lit E 0 < c \<Longrightarrow> isFinite E c \<Longrightarrow> lit E 0 \<le> x / c"
    by blast
  from L[THEN conjunct2, THEN conjunct2, THEN conjunct2, THEN conjunct2, THEN conjunct2, THEN conjunct1] have L6: "\<And>x c. x \<le> c \<Longrightarrow> lit E 0 < c \<Longrightarrow> isFinite E c \<Longrightarrow> x / c \<le> lit E 1"
    by blast
  from L[THEN conjunct2, THEN conjunct2, THEN conjunct2, THEN conjunct2, THEN conjunct2, THEN conjunct2, THEN conjunct1] have L7: "lit E 0 \<le> lit E 1"
    by blast
  from L[THEN conjunct2, THEN conjunct2, THEN conjunct2, THEN conjunct2, THEN conjunct2, THEN conjunct2, THEN conjunct2, THEN conjunct1] have L8: "feq E (lit E 1) (lit E 1)"
    by blast
  from L[THEN conjunct2, THEN conjunct2, THEN conjunct2, THEN conjunct2, THEN conjunct2, THEN conjunct2, THEN conjunct2, THEN conjunct2] have L9: "\<And>x. lit E 0 < x \<Longrightarrow> \<not> feq E x (lit E 0)"
    by blast
  have nz: "\<not> feq E ?T (lit E 0)" using L9 assms(4) by blast
  have fin: "isFinite E (chord_total E d j)" if "j \<le> len - 1" for j
  proof -
    from that have "j + (len - 1 - j) = len - 1" by simp
    with assms(5) have "isFinite E (chord_total E d (j + (len - 1 - j)))" by simp
    then show ?thesis by (rule chord_total_finite [OF L [THEN conjunct1]])
  qed
  have step: "chord_total E d j \<le> chord_total E d (Suc j)" if "Suc j \<le> len - 1" for j
  proof -
    have f: "isFinite E (chord_total E d j + L2 E (pt_sub (d ! Suc j) (d ! j)))"
      using fin [OF that] by simp
    from L1 [OF f] have "isFinite E (chord_total E d j)"
      "isFinite E (fhypot E (fst (pt_sub (d ! Suc j) (d ! j))) (snd (pt_sub (d ! Suc j) (d ! j))))"
      by (simp_all add: L2_def)
    then show ?thesis using L3 [of "chord_total E d j" "L2 E (pt_sub (d ! Suc j) (d ! j))"]
      L2 [of "fst (pt_sub (d ! Suc j) (d ! j))" "snd (pt_sub (d ! Suc j) (d ! j))"]
      by (simp add: L2_def)
  qed
  have nth: "?r ! j =
     (if j = 0 then lit E 0
      else if j = len - 1 \<and> \<not> feq E (chord_total E d j / ?T) (lit E 1) then lit E 1
      else chord_total E d j / ?T)" if "j < len" for j
    using chord_length_parameterize_nth [OF assms(2,3) nz assms(5) that] .
  have first: "?r ! 0 = lit E 0" using nth [of 0] assms(2) by simp
  have "feq E (?r ! (len - 1)) (lit E 1)"
  proof (cases "feq E (chord_total E d (len - 1) / ?T) (lit E 1)")
    case True
    then show ?thesis using nth [of "len - 1"] assms(2) by simp
  next
    case False
    then show ?thesis using nth [of "len - 1"] assms(2) L8 by simp
  qed
  moreover have "?r ! (i - 1) \<le> ?r ! i" if i: "1 \<le> i" "i < len" for i
  proof -
    from i have i0: "\<not> i = 0" by simp
    show ?thesis
    proof (cases "i = 1")
      case True
      have z: "lit E 0 \<le> chord_total E d i"
        using step [of 0] assms(2) True by simp
      have a: "?r ! (i - 1) = lit E 0" using True first by simp
      show ?thesis
      proof (cases "i = len - 1 \<and> \<not> feq E (chord_total E d i / ?T) (lit E 1)")
        case t: True
        have "?r ! i = lit E 1" by (rule ite_second [OF nth [OF i(2)] i0 t])
        then show ?thesis using a L7 by simp
      next
        case f: False
        have "?r ! i = chord_total E d i / ?T" by (rule ite_third [OF nth [OF i(2)] i0 f])
        then show ?thesis using a L5 [OF z assms(4,5)] by simp
      qed
    next
      case False
      with i have i2: "2 \<le> i" by simp
      have ne: "\<not> i - 1 = len - 1" using i2 i(2) by arith
      have p: "\<not> i - 1 = 0"
        "\<not> (i - 1 = len - 1 \<and> \<not> feq E (chord_total E d (i - 1) / ?T) (lit E 1))"
        "i - 1 < len"
        using i2 i(2) ne by (arith, blast, arith)
      have a: "?r ! (i - 1) = chord_total E d (i - 1) / ?T"
        by (rule ite_third [OF nth [OF p(3)] p(1,2)])
      have s: "chord_total E d (i - 1) \<le> chord_total E d i"
        using step [of "i - 1"] i i2 by simp
      show ?thesis
      proof (cases "i = len - 1 \<and> \<not> feq E (chord_total E d i / ?T) (lit E 1)")
        case t: True
        have "?r ! i = lit E 1" by (rule ite_second [OF nth [OF i(2)] i0 t])
        moreover have "chord_total E d (i - 1) \<le> ?T" using s t by simp
        ultimately show ?thesis using a L6 [OF _ assms(4,5)] by simp
      next
        case f: False
        have "?r ! i = chord_total E d i / ?T" by (rule ite_third [OF nth [OF i(2)] i0 f])
        then show ?thesis using a L4 [OF s assms(4,5)] by simp
      qed
    qed
  qed
  ultimately show ?thesis using first by simp
qed

lemma sqrt_eqI: "0 \<le> y \<Longrightarrow> y * y = x \<Longrightarrow> sqrt x = (y::real)"
  using real_sqrt_unique [of y x] by (simp add: power2_eq_square)

lemma ordered_arith_real: "ordered_arith real_env"
  unfolding ordered_arith_def
  by (simp add: divide_right_mono)

theorem chord_parameters_ordered_witness:
  "chord_length_parameterize real_env [(0, 0), (100, 0), (0, 0)] [0, 0, 0] 3 ! 0 = 0
 \<and> chord_length_parameterize real_env [(0, 0), (100, 0), (0, 0)] [0, 0, 0] 3 ! 2 = 1
 \<and> chord_length_parameterize real_env [(0, 0), (100, 0), (0, 0)] [0, 0, 0] 3 ! 0
      \<le> chord_length_parameterize real_env [(0, 0), (100, 0), (0, 0)] [0, 0, 0] 3 ! 1
 \<and> chord_length_parameterize real_env [(0, 0), (100, 0), (0, 0)] [0, 0, 0] 3 ! 1
      \<le> chord_length_parameterize real_env [(0, 0), (100, 0), (0, 0)] [0, 0, 0] 3 ! 2"
proof -
  have s: "sqrt 10000 = 100" by (rule sqrt_eqI; simp)
  have t: "chord_total real_env [(0, 0), (100, 0), (0, 0)] (3 - 1) = 200"
    by (simp add: numeral_2_eq_2 L2_def pt_sub_def s)
  have h: "lit real_env 0 < chord_total real_env [(0, 0), (100, 0), (0, 0)] (3 - 1)"
    "isFinite real_env (chord_total real_env [(0, 0), (100, 0), (0, 0)] (3 - 1))"
    unfolding t by simp_all
  have l: "(2::nat) \<le> 3" "length [0::real, 0, 0] = 3" by simp_all
  note r = chord_parameters_ordered [OF ordered_arith_real l h]
  from r have "chord_length_parameterize real_env [(0, 0), (100, 0), (0, 0)] [0, 0, 0] 3 ! 0 = 0"
    by simp
  moreover from r have "chord_length_parameterize real_env [(0, 0), (100, 0), (0, 0)] [0, 0, 0] 3 ! 2 = 1"
    by simp
  moreover from r have "1 \<le> i \<and> i < 3 \<longrightarrow> chord_length_parameterize real_env [(0, 0), (100, 0), (0, 0)] [0, 0, 0] 3 ! (i - 1)
      \<le> chord_length_parameterize real_env [(0, 0), (100, 0), (0, 0)] [0, 0, 0] 3 ! i" for i
    by blast
  from this [of 1] this [of 2] have "chord_length_parameterize real_env [(0, 0), (100, 0), (0, 0)] [0, 0, 0] 3 ! 0
      \<le> chord_length_parameterize real_env [(0, 0), (100, 0), (0, 0)] [0, 0, 0] 3 ! 1
 \<and> chord_length_parameterize real_env [(0, 0), (100, 0), (0, 0)] [0, 0, 0] 3 ! 1
      \<le> chord_length_parameterize real_env [(0, 0), (100, 0), (0, 0)] [0, 0, 0] 3 ! 2"
    by simp
  ultimately show ?thesis by blast
qed

subsection \<open>Budget and layout of the result\<close>

lemma fit_attempt_failed_nonzero:
  assumes "fit_attempt E m b data len tgl tgr error mb = Inr (Failed c sp, m')"
  shows "\<not> zero_length_path E data (nat len)"
proof
  assume z: "zero_length_path E data (nat len)"
  from fit_attempt_props [OF assms] have l: "2 < len" "1 \<le> mb" by auto
  show False
  proof (cases "lit E 0 \<le> error")
    case True
    with l z have "fit_attempt E m b data len tgl tgr error mb = Inr (Fitted 0, m)"
      by (simp add: fit_attempt_def zero_length_path_def Let_def)
    with assms show False by simp
  next
    case False
    with l have "fit_attempt E m b data len tgl tgr error mb = Inr (Fitted (- 1), m)"
      by (simp add: fit_attempt_def)
    with assms show False by simp
  qed
qed

lemma fit_plan_split_nonzero:
  assumes "fit_plan E m b data len tgl tgr error mb = Inr (p, m')" "\<forall>n. p \<noteq> Done n"
  shows "\<not> zero_length_path E data (nat len)"
proof -
  from assms(1) obtain a m1 where
    a: "fit_attempt E m b data len tgl tgr error mb = Inr (a, m1)" and
    r: "(case a of
           Fitted r \<Rightarrow> Inr (Done r, m1)
         | Failed is_corner splitPoint \<Rightarrow>
             rbind (corner_check E len tgl tgr is_corner splitPoint)
               (split_plan E m1 data len mb is_corner)) = Inr (p, m')"
    by (auto simp: fit_plan_def rbind_Inr)
  show ?thesis
  proof (cases a)
    case (Fitted n)
    with r assms(2) show ?thesis by auto
  next
    case (Failed c sp)
    with a show ?thesis using fit_attempt_failed_nonzero by blast
  qed
qed

lemma full_written:
  "sp_bezier_fit_cubic_full E fuel m s (Some b) spo (Some d) len tgl tgr error mb
     = Some (Inr (N, m', s')) \<Longrightarrow> 0 \<le> N \<Longrightarrow> 1 \<le> mb \<Longrightarrow> mb < 2 ^ 32 \<Longrightarrow>
   (\<forall>a. a < b \<or> b + 4 * nat N \<le> a \<longrightarrow> m' a = m a)"
proof (induction fuel arbitrary: m s b spo d len tgl tgr mb N m' s')
  case 0
  then show ?case by simp
next
  case (Suc n)
  from Suc.prems(1) show ?case
  proof (cases rule: full_Suc_cases)
    case Done
    from fit_plan_props [OF Done(1)] Suc.prems(2) show ?thesis by auto
  next
    case (Retry t1 t2 m1)
    from fit_plan_props [OF Retry(1)] have l: "2 < len"
      and fr: "\<forall>x. x < b \<or> b + 3 < x \<longrightarrow> m1 x = m x" by blast+
    have nz: "\<not> zero_length_path E d (nat len)"
      by (rule fit_plan_split_nonzero [OF Retry(1)]) simp
    have "N \<noteq> 0"
    proof
      assume "N = 0"
      with Retry(2) full_zero [of E n m1 s b spo d len t1 t2 error mb m' s'] l nz
      show False by auto
    qed
    with Suc.prems(2) have N: "1 \<le> N" by simp
    from Suc.IH [OF Retry(2) Suc.prems(2,3,4)] fr N show ?thesis by auto
  next
    case (LeftFail sp r1 r2 m1 n1)
    with Suc.prems(2) show ?thesis by simp
  next
    case (Both sp r1 r2 m1 n1 m2 s2 n2)
    from fit_plan_props [OF Both(1)] have mb: "1 \<le> mb - 1" "mb - 1 < 2 ^ 32"
      and fr: "\<forall>x. x < b \<or> b + 3 < x \<longrightarrow> m1 x = m x"
      using Suc.prems(4) by auto
    from Both(3) have n1: "0 \<le> n1" by simp
    from Both(5) Suc.prems(2) have n2: "0 \<le> n2" "N = n1 + n2" by (auto split: if_splits)
    from full_budget [OF Both(2) mb] have lb: "n1 \<le> int (mb - 1)" by auto
    from Suc.IH [OF Both(2) n1 mb] have l: "\<forall>a. a < b \<or> b + 4 * nat n1 \<le> a \<longrightarrow> m2 a = m1 a" .
    from lb Both(3) mb have e: "nat ((int mb - n1) mod 2 ^ 32) = mb - nat n1"
      "1 \<le> mb - nat n1" "mb - nat n1 < 2 ^ 32" "nat (n1 * 4) = 4 * nat n1" "1 \<le> nat n1"
      using Suc.prems(4) by (auto simp: nat_diff_distrib nat_mult_distrib)
    from Suc.IH [OF Both(4) [unfolded e] n2(1) e(2,3)]
    have r: "\<forall>a. a < b + 4 * nat n1 \<or> b + 4 * nat n1 + 4 * nat n2 \<le> a \<longrightarrow> m' a = m2 a" .
    have N: "nat N = nat n1 + nat n2" using n1 n2 by (simp add: nat_add_distrib)
    show ?thesis
    proof (intro allI impI)
      fix a assume a: "a < b \<or> b + 4 * nat N \<le> a"
      with N have "m' a = m2 a" using r by auto
      moreover from a N have "m2 a = m1 a" using l by auto
      moreover from a N e(5) have "m1 a = m a" using fr by auto
      ultimately show "m' a = m a" by simp
    qed
  qed
qed

text \<open>
  C1: a call of \<^verbatim>\<open>sp_bezier_fit_cubic_full\<close> on pre-sanitized points that returns a
  count \<open>N \<ge> 1\<close> leaves \<open>N\<close> segments that are chained: the fourth control point of
  segment \<open>k\<close> is the first control point of segment \<open>k + 1\<close> for every \<open>k\<close> up to
  \<open>N - 2\<close>.  There are indices \<open>0 = c\<^sub>0 < c\<^sub>1 < \<dots> < c\<^sub>N = len - 1\<close> into the data such
  that segment \<open>k\<close> starts at the data point \<open>c\<^sub>k\<close> and ends at the data point
  \<open>c\<^sub>k\<^sub>+\<^sub>1\<close>, the two ends of the sub-range it was fitted to.  The arithmetic is any in
  which sanitized points have a total chord length that does not compare equal to zero.
\<close>

theorem segments_chained:
  assumes "sp_bezier_fit_cubic_full E fuel m s (Some b) spo (Some d) len tgl tgr error mb
             = Some (Inr (N, m', s'))"
    and "1 \<le> N" "positive_chords E" "sanitized E d (nat len)" "nat len \<le> length d"
    and "mb < 2 ^ 32"
  shows "(\<forall>k. k + 1 < nat N \<longrightarrow> m' (b + 4 * k + 3) = m' (b + 4 * (k + 1)))
     \<and> (\<exists>cs. length cs = nat N + 1 \<and> hd cs = 0 \<and> last cs = nat len - 1
              \<and> segments_span m' b d cs)"
proof -
  have mb: "1 \<le> mb"
  proof (rule ccontr)
    assume "\<not> 1 \<le> mb"
    then have "mb = 0" by simp
    with assms(1) have "N = - 1" using full_no_budget by blast
    with assms(2) show False by simp
  qed
  from full_chain [OF assms(1-5) mb assms(6)] obtain cs where
    cs: "length cs = nat N + 1" "hd cs = 0" "last cs = nat len - 1" "segments_span m' b d cs"
    by blast
  have "m' (b + 4 * k + 3) = m' (b + 4 * (k + 1))" if "k + 1 < nat N" for k
    using segments_span_chained [OF cs(4), of k] that cs(1) by simp
  with cs show ?thesis by blast
qed

lemma full_endpoints:
  "sp_bezier_fit_cubic_full E fuel m s (Some b) spo (Some d) len tgl tgr error mb
     = Some (Inr (N, m', s')) \<Longrightarrow> 0 \<le> N \<Longrightarrow> 1 \<le> mb \<Longrightarrow> mb < 2 ^ 32 \<Longrightarrow>
   nat len \<le> length d \<Longrightarrow>
   (\<forall>k. k < nat N \<longrightarrow>
      (\<exists>i j. i < j \<and> j < nat len \<and> m' (b + 4 * k) = d ! i \<and> m' (b + 4 * k + 3) = d ! j))"
proof (induction fuel arbitrary: m s b spo d len tgl tgr mb N m' s')
  case 0
  then show ?case by simp
next
  case (Suc n)
  from Suc.prems(1) show ?case
  proof (cases rule: full_Suc_cases)
    case Done
    from fit_plan_props [OF Done(1)] Suc.prems(2)
    have "N = 0 \<or> (N = 1 \<and> 2 \<le> len \<and> m' b = d ! 0 \<and> m' (b + 3) = d ! (nat len - 1))"
      by auto
    then show ?thesis
    proof
      assume "N = 0"
      then show ?thesis by simp
    next
      assume a: "N = 1 \<and> 2 \<le> len \<and> m' b = d ! 0 \<and> m' (b + 3) = d ! (nat len - 1)"
      show ?thesis
      proof (intro allI impI)
        fix k assume "k < nat N"
        with a have k: "k = 0" by simp
        from a have "0 < nat len - 1 \<and> nat len - 1 < nat len \<and> m' (b + 4 * k) = d ! 0
            \<and> m' (b + 4 * k + 3) = d ! (nat len - 1)"
          unfolding k by auto
        then show "\<exists>i j. i < j \<and> j < nat len \<and> m' (b + 4 * k) = d ! i \<and> m' (b + 4 * k + 3) = d ! j"
          by blast
      qed
    qed
  next
    case (Retry t1 t2 m1)
    from Suc.IH [OF Retry(2) Suc.prems(2,3,4,5)] show ?thesis .
  next
    case (LeftFail sp r1 r2 m1 n1)
    with Suc.prems(2) show ?thesis by simp
  next
    case (Both sp r1 r2 m1 n1 m2 s2 n2)
    from fit_plan_props [OF Both(1)] have mb: "1 \<le> mb - 1" "mb - 1 < 2 ^ 32"
      and sp: "0 < sp" "sp < nat len - 1"
      using Suc.prems(4) by auto
    from Both(3) have n1: "0 \<le> n1" by simp
    from Both(5) Suc.prems(2) have n2: "0 \<le> n2" "N = n1 + n2" by (auto split: if_splits)
    from full_budget [OF Both(2) mb] have lb: "n1 \<le> int (mb - 1)" by auto
    from lb Both(3) mb have e: "nat ((int mb - n1) mod 2 ^ 32) = mb - nat n1"
      "1 \<le> mb - nat n1" "mb - nat n1 < 2 ^ 32" "nat (n1 * 4) = 4 * nat n1"
      using Suc.prems(4) by (auto simp: nat_diff_distrib nat_mult_distrib)
    note right = Both(4) [unfolded e]
    from sp Suc.prems(5) have ll: "nat (int sp + 1) \<le> length d" "nat (int sp + 1) = Suc sp"
      by auto
    from sp Suc.prems(5) have rl: "nat (len - int sp) \<le> length (drop sp d)"
      "nat (len - int sp) = nat len - sp" "sp \<le> length d"
      by auto
    from Suc.IH [OF Both(2) n1 mb ll(1)] ll(2)
    have l: "\<And>k. k < nat n1 \<Longrightarrow>
      \<exists>i j. i < j \<and> j < Suc sp \<and> m2 (b + 4 * k) = d ! i \<and> m2 (b + 4 * k + 3) = d ! j"
      by simp
    from Suc.IH [OF right n2(1) e(2,3) rl(1)] rl(2)
    have r: "\<And>k. k < nat n2 \<Longrightarrow>
      \<exists>i j. i < j \<and> j < nat len - sp \<and> m' (b + 4 * nat n1 + 4 * k) = drop sp d ! i
           \<and> m' (b + 4 * nat n1 + 4 * k + 3) = drop sp d ! j"
      by simp
    from full_written [OF right n2(1) e(2,3)]
    have fr: "\<And>a. a < b + 4 * nat n1 \<Longrightarrow> m' a = m2 a" by simp
    have N: "nat N = nat n1 + nat n2" using n1 n2 by (simp add: nat_add_distrib)
    show ?thesis
    proof (intro allI impI)
      fix k assume k: "k < nat N"
      show "\<exists>i j. i < j \<and> j < nat len \<and> m' (b + 4 * k) = d ! i \<and> m' (b + 4 * k + 3) = d ! j"
      proof (cases "k < nat n1")
        case True
        from l [OF True] obtain i j where
          ij: "i < j" "j < Suc sp" "m2 (b + 4 * k) = d ! i" "m2 (b + 4 * k + 3) = d ! j"
          by blast
        from True have "b + 4 * k < b + 4 * nat n1" "b + 4 * k + 3 < b + 4 * nat n1" by simp_all
        then have "m' (b + 4 * k) = m2 (b + 4 * k)" "m' (b + 4 * k + 3) = m2 (b + 4 * k + 3)"
          using fr by blast+
        with ij sp have "i < j \<and> j < nat len \<and> m' (b + 4 * k) = d ! i \<and> m' (b + 4 * k + 3) = d ! j"
          by simp
        then show ?thesis by blast
      next
        case False
        with k N have k2: "k - nat n1 < nat n2" "k = nat n1 + (k - nat n1)" by simp_all
        from r [OF k2(1)] obtain i j where
          ij: "i < j" "j < nat len - sp"
            "m' (b + 4 * nat n1 + 4 * (k - nat n1)) = drop sp d ! i"
            "m' (b + 4 * nat n1 + 4 * (k - nat n1) + 3) = drop sp d ! j"
          by blast
        have a: "b + 4 * nat n1 + 4 * (k - nat n1) = b + 4 * k" using k2(2) by simp
        from ij(3,4) rl(3) have "m' (b + 4 * k) = d ! (sp + i)" "m' (b + 4 * k + 3) = d ! (sp + j)"
          unfolding a by simp_all
        with ij(1,2) have "sp + i < sp + j \<and> sp + j < nat len \<and> m' (b + 4 * k) = d ! (sp + i)
            \<and> m' (b + 4 * k + 3) = d ! (sp + j)"
          by simp
        then show ?thesis by blast
      qed
    qed
  qed
qed

text \<open>
  C2: a call of \<^verbatim>\<open>sp_bezier_fit_cubic_full\<close> with a budget of at least one, on
  \<open>len\<close> points, that returns a count \<open>N \<ge> 0\<close> has \<open>N \<le> max_beziers\<close>.  It leaves every
  entry of the buffer outside the first \<open>4 * N\<close> from \<^verbatim>\<open>bezier\<close> on as it was, and each
  of the \<open>N\<close> segments in those first \<open>4 * N\<close> entries is a result segment: its first
  control point is a data point \<open>d[i]\<close> and its last a later data point \<open>d[j]\<close>.  When the
  call splits at \<open>sp\<close>, the left half returns \<open>n1 \<ge> 1\<close> segments, the right half is given
  the address \<open>bezier + 4 * n1\<close> and the budget \<open>max_beziers - n1\<close> and returns \<open>n2\<close>, and
  the result is the \<open>n1\<close> segments the left half wrote, which run between data points up
  to \<open>d[sp]\<close>, followed at once by the \<open>n2\<close> segments of the right half, which run between
  data points from \<open>d[sp]\<close> on.
\<close>

theorem budget_and_layout:
  assumes "sp_bezier_fit_cubic_full E fuel m s (Some b) spo (Some d) len tgl tgr error mb
             = Some (Inr (N, m', s'))"
    and "0 \<le> N" "1 \<le> mb" "mb < 2 ^ 32" "nat len \<le> length d"
  shows "N \<le> int mb
     \<and> (\<forall>a. a < b \<or> b + 4 * nat N \<le> a \<longrightarrow> m' a = m a)
     \<and> (\<forall>k. k < nat N \<longrightarrow>
           (\<exists>i j. i < j \<and> j < nat len \<and> m' (b + 4 * k) = d ! i \<and> m' (b + 4 * k + 3) = d ! j))
     \<and> (\<forall>n sp r1 r2 m1.
           fuel = Suc n \<and> fit_plan E m b d len tgl tgr error mb = Inr (Split sp r1 r2, m1) \<longrightarrow>
           (\<exists>n1 m2 s2 n2.
              sp_bezier_fit_cubic_full E n m1 s (Some b) spo (Some d) (int sp + 1) tgl r2 error
                (mb - 1) = Some (Inr (n1, m2, s2))
            \<and> sp_bezier_fit_cubic_full E n m2
                (case spo of None \<Rightarrow> s2 | Some sa \<Rightarrow> s2(sa + nat (n1 - 1) := int sp))
                (Some (b + 4 * nat n1))
                (case spo of None \<Rightarrow> None | Some sa \<Rightarrow> Some (sa + nat n1))
                (Some (drop sp d)) (len - int sp) r1 tgr error (mb - nat n1)
                = Some (Inr (n2, m', s'))
            \<and> 1 \<le> n1 \<and> 0 \<le> n2 \<and> N = n1 + n2
            \<and> segments m' b (nat N)
                = segments m2 b (nat n1) @ segments m' (b + 4 * nat n1) (nat n2)
            \<and> (\<forall>k. k < nat n1 \<longrightarrow>
                  (\<exists>i j. i < j \<and> j \<le> sp \<and> m' (b + 4 * k) = d ! i
                        \<and> m' (b + 4 * k + 3) = d ! j))
            \<and> (\<forall>k. k < nat n2 \<longrightarrow>
                  (\<exists>i j. sp \<le> i \<and> i < j \<and> j < nat len
                        \<and> m' (b + 4 * nat n1 + 4 * k) = d ! i
                        \<and> m' (b + 4 * nat n1 + 4 * k + 3) = d ! j))))"
proof -
  have "\<exists>n1 m2 s2 n2.
              sp_bezier_fit_cubic_full E n m1 s (Some b) spo (Some d) (int sp + 1) tgl r2 error
                (mb - 1) = Some (Inr (n1, m2, s2))
            \<and> sp_bezier_fit_cubic_full E n m2
                (case spo of None \<Rightarrow> s2 | Some sa \<Rightarrow> s2(sa + nat (n1 - 1) := int sp))
                (Some (b + 4 * nat n1))
                (case spo of None \<Rightarrow> None | Some sa \<Rightarrow> Some (sa + nat n1))
                (Some (drop sp d)) (len - int sp) r1 tgr error (mb - nat n1)
                = Some (Inr (n2, m', s'))
            \<and> 1 \<le> n1 \<and> 0 \<le> n2 \<and> N = n1 + n2
            \<and> segments m' b (nat N)
                = segments m2 b (nat n1) @ segments m' (b + 4 * nat n1) (nat n2)
            \<and> (\<forall>k. k < nat n1 \<longrightarrow>
                  (\<exists>i j. i < j \<and> j \<le> sp \<and> m' (b + 4 * k) = d ! i
                        \<and> m' (b + 4 * k + 3) = d ! j))
            \<and> (\<forall>k. k < nat n2 \<longrightarrow>
                  (\<exists>i j. sp \<le> i \<and> i < j \<and> j < nat len
                        \<and> m' (b + 4 * nat n1 + 4 * k) = d ! i
                        \<and> m' (b + 4 * nat n1 + 4 * k + 3) = d ! j))"
    if f: "fuel = Suc n" and p: "fit_plan E m b d len tgl tgr error mb = Inr (Split sp r1 r2, m1)"
    for n sp r1 r2 m1
  proof -
    from assms(1) [unfolded f] show ?thesis
    proof (cases rule: full_Suc_cases)
      case Done
      with p show ?thesis by simp
    next
      case (Retry t1 t2 m1')
      with p show ?thesis by simp
    next
      case (LeftFail sp' r1' r2' m1' n1)
      with assms(2) show ?thesis by simp
    next
      case (Both sp' r1' r2' m1' n1 m2 s2 n2)
      from Both(1) p have eq: "sp' = sp" "r1' = r1" "r2' = r2" "m1' = m1" by simp_all
      from fit_plan_props [OF p] have mb: "1 \<le> mb - 1" "mb - 1 < 2 ^ 32"
        and sp: "0 < sp" "sp < nat len - 1"
        using assms(4) by auto
      from Both(3) have n1: "0 \<le> n1" by simp
      from Both(5) assms(2) have n2: "0 \<le> n2" "N = n1 + n2" by (auto split: if_splits)
      note left = Both(2) [unfolded eq]
      from full_budget [OF left mb] have lb: "n1 \<le> int (mb - 1)" by auto
      from lb Both(3) mb have e: "nat ((int mb - n1) mod 2 ^ 32) = mb - nat n1"
        "1 \<le> mb - nat n1" "mb - nat n1 < 2 ^ 32" "nat (n1 * 4) = 4 * nat n1"
        using assms(4) by (auto simp: nat_diff_distrib nat_mult_distrib)
      note right = Both(4) [unfolded e eq]
      from full_written [OF right n2(1) e(2,3)]
      have r: "\<And>a. a < b + 4 * nat n1 \<Longrightarrow> m' a = m2 a" by simp
      have N: "nat N = nat n1 + nat n2" using Both(3) n2 by (simp add: nat_add_distrib)
      have "segments m' b (nat n1) = segments m2 b (nat n1)"
        by (rule segments_cong) (simp add: r)
      then have app: "segments m' b (nat N)
                = segments m2 b (nat n1) @ segments m' (b + 4 * nat n1) (nat n2)"
        unfolding N segments_add by simp
      from sp assms(5) have ll: "nat (int sp + 1) \<le> length d" "nat (int sp + 1) = Suc sp"
        by auto
      from sp assms(5) have rl: "nat (len - int sp) \<le> length (drop sp d)"
        "nat (len - int sp) = nat len - sp" "sp \<le> length d"
        by auto
      have lp: "\<exists>i j. i < j \<and> j \<le> sp \<and> m' (b + 4 * k) = d ! i \<and> m' (b + 4 * k + 3) = d ! j"
        if k: "k < nat n1" for k
      proof -
        from full_endpoints [OF left n1 mb ll(1)] k ll(2) obtain i j where
          ij: "i < j" "j < Suc sp" "m2 (b + 4 * k) = d ! i" "m2 (b + 4 * k + 3) = d ! j"
          by auto
        from k have "b + 4 * k < b + 4 * nat n1" "b + 4 * k + 3 < b + 4 * nat n1" by simp_all
        then have "m' (b + 4 * k) = m2 (b + 4 * k)" "m' (b + 4 * k + 3) = m2 (b + 4 * k + 3)"
          using r by blast+
        with ij have "i < j \<and> j \<le> sp \<and> m' (b + 4 * k) = d ! i \<and> m' (b + 4 * k + 3) = d ! j"
          by simp
        then show ?thesis by blast
      qed
      have rp: "\<exists>i j. sp \<le> i \<and> i < j \<and> j < nat len \<and> m' (b + 4 * nat n1 + 4 * k) = d ! i
                        \<and> m' (b + 4 * nat n1 + 4 * k + 3) = d ! j"
        if k: "k < nat n2" for k
      proof -
        from full_endpoints [OF right n2(1) e(2,3) rl(1)] k rl(2) obtain i j where
          ij: "i < j" "j < nat len - sp"
            "m' (b + 4 * nat n1 + 4 * k) = drop sp d ! i"
            "m' (b + 4 * nat n1 + 4 * k + 3) = drop sp d ! j"
          by auto
        from ij(3,4) rl(3) have "m' (b + 4 * nat n1 + 4 * k) = d ! (sp + i)"
          "m' (b + 4 * nat n1 + 4 * k + 3) = d ! (sp + j)"
          by simp_all
        with ij(1,2) have "sp \<le> sp + i \<and> sp + i < sp + j \<and> sp + j < nat len
            \<and> m' (b + 4 * nat n1 + 4 * k) = d ! (sp + i)
            \<and> m' (b + 4 * nat n1 + 4 * k + 3) = d ! (sp + j)"
          by simp
        then show ?thesis by blast
      qed
      from Both(3) have n1': "1 \<le> n1" by simp
      from left right n1' n2 app lp rp show ?thesis by blast
    qed
  qed
  moreover from full_budget [OF assms(1,3,4)] have "N \<le> int mb" by simp
  moreover note full_written [OF assms(1-4)] full_endpoints [OF assms(1-5)]
  ultimately show ?thesis by blast
qed

subsection \<open>A run that splits once\<close>

lemmas pt_defs = pt_add_def pt_sub_def pt_scale_def pt_div_def pt_neg_def dot_def lensq_def L2_def

lemma pw_real [simp]: "pw real_env s n = s ^ n"
  by (induction real_env s n rule: pw.induct) simp_all

lemma bezier_pt3_real:
  "bezier_pt real_env 3 V t =
     Inr (fst (V 0) * (1 - t) ^ 3 + fst (V 1) * (3 * (1 - t) ^ 2 * t)
            + fst (V 2) * (3 * (1 - t) * t ^ 2) + fst (V 3) * t ^ 3,
          snd (V 0) * (1 - t) ^ 3 + snd (V 1) * (3 * (1 - t) ^ 2 * t)
            + snd (V 2) * (3 * (1 - t) * t ^ 2) + snd (V 3) * t ^ 3)"
  by (simp add: bezier_pt_def pt_defs upt_rec Let_def pascal_def numeral_3_eq_3 numeral_2_eq_2
      algebra_simps)

lemma bezier_pt2_real:
  "bezier_pt real_env 2 V t =
     Inr (fst (V 0) * (1 - t) ^ 2 + fst (V 1) * (2 * (1 - t) * t) + fst (V 2) * t ^ 2,
          snd (V 0) * (1 - t) ^ 2 + snd (V 1) * (2 * (1 - t) * t) + snd (V 2) * t ^ 2)"
  by (simp add: bezier_pt_def pt_defs upt_rec Let_def pascal_def numeral_3_eq_3 numeral_2_eq_2
      algebra_simps)

lemma bezier_pt1_real:
  "bezier_pt real_env 1 V t =
     Inr (fst (V 0) * (1 - t) + fst (V 1) * t, snd (V 0) * (1 - t) + snd (V 1) * t)"
  by (simp add: bezier_pt_def pt_defs upt_rec Let_def pascal_def algebra_simps)

lemma estimate_lengths_eval:
  "ls_alphas E (ls_sums E (data ! 0) (data ! (len - 1)) data u len tgl tgr) data len = (al, ar)
   \<Longrightarrow> estimate_lengths E m b data u len tgl tgr =
       m(b := data ! 0, b + 3 := data ! (len - 1),
         b + 1 := pt_add (pt_scale al tgl) (data ! 0),
         b + 2 := pt_add (pt_scale ar tgr) (data ! (len - 1)))"
  by (simp add: estimate_lengths_def Let_def)

lemma generate_bezier_est:
  assumes "is_zero E tgl" "is_zero E tgr"
    and "sp_darray_left_tangent E data len tol = Inr e1"
    and "sp_darray_right_tangent E data len tol = Inr e2"
    and "bi_sums E (data ! 0) (data ! (len - 1)) 1 data u len = (num, den)"
    and "\<not> feq E den (lit E 0)" "\<not> pt_eq E (pt_div num den) (data ! 0)"
    and "ls_alphas E (ls_sums E (data ! 0) (data ! (len - 1)) data u len
                        (unit_vector E (pt_sub (pt_div num den) (data ! 0))) e2) data len
           = (al, ar)"
  shows "generate_bezier E m b data u len tgl tgr tol =
     Inr (m(b := data ! 0, b + 3 := data ! (len - 1),
            b + 1 := pt_add (pt_scale al (unit_vector E (pt_sub (pt_div num den) (data ! 0))))
                       (data ! 0),
            b + 2 := pt_add (pt_scale ar e2) (data ! (len - 1))))"
proof -
  let ?m1 = "estimate_lengths E m b data u len e1 e2"
  have m1: "?m1 b = data ! 0" "?m1 (b + 3) = data ! (len - 1)"
    by (simp_all add: estimate_lengths_frame)
  have bi: "estimate_bi E ?m1 b (Suc 0) data u len = ?m1(b + 1 := pt_div num den)"
    using assms(5,6) m1 by (simp add: estimate_bi_def Let_def)
  have "generate_bezier E m b data u len tgl tgr tol =
     Inr (estimate_lengths E (?m1(b + 1 := pt_div num den)) b data u len
            (unit_vector E (pt_sub (pt_div num den) (data ! 0))) e2)"
    using assms(1-4,7) m1 by (simp add: generate_bezier_def Let_def bi)
  also have "estimate_lengths E (?m1(b + 1 := pt_div num den)) b data u len
            (unit_vector E (pt_sub (pt_div num den) (data ! 0))) e2
     = m(b := data ! 0, b + 3 := data ! (len - 1),
            b + 1 := pt_add (pt_scale al (unit_vector E (pt_sub (pt_div num den) (data ! 0))))
                       (data ! 0),
            b + 2 := pt_add (pt_scale ar e2) (data ! (len - 1)))"
    unfolding estimate_lengths_eval [OF assms(8)]
  proof (intro ext)
    fix x
    have "x \<noteq> b \<Longrightarrow> x \<noteq> b + 3 \<Longrightarrow> x \<noteq> Suc b \<Longrightarrow> x \<noteq> Suc (Suc b) \<Longrightarrow> x < b \<or> b + 3 < x"
      by arith
    then show "(?m1(b + 1 := pt_div num den, b := data ! 0, b + 3 := data ! (len - 1),
              b + 1 := pt_add (pt_scale al (unit_vector E (pt_sub (pt_div num den) (data ! 0))))
                         (data ! 0),
              b + 2 := pt_add (pt_scale ar e2) (data ! (len - 1)))) x
         = (m(b := data ! 0, b + 3 := data ! (len - 1),
              b + 1 := pt_add (pt_scale al (unit_vector E (pt_sub (pt_div num den) (data ! 0))))
                         (data ! 0),
              b + 2 := pt_add (pt_scale ar e2) (data ! (len - 1)))) x"
      by (auto simp: estimate_lengths_frame)
  qed
  finally show ?thesis .
qed

lemma generate_bezier_given:
  assumes "\<not> is_zero E tgl" "is_zero E tgr"
    and "sp_darray_right_tangent E data len tol = Inr e2"
    and "ls_alphas E (ls_sums E (data ! 0) (data ! (len - 1)) data u len tgl e2) data len
           = (al, ar)"
  shows "generate_bezier E m b data u len tgl tgr tol =
     Inr (m(b := data ! 0, b + 3 := data ! (len - 1),
            b + 1 := pt_add (pt_scale al tgl) (data ! 0),
            b + 2 := pt_add (pt_scale ar e2) (data ! (len - 1))))"
  using assms
  by (simp add: generate_bezier_def Let_def estimate_lengths_eval)

lemmas bezier_pt_real = bezier_pt3_real bezier_pt2_real bezier_pt1_real
  bezier_pt3_real [unfolded numeral_3_eq_3] bezier_pt2_real [unfolded numeral_2_eq_2]
  bezier_pt1_real [unfolded One_nat_def]

lemmas num_defs = B0_def B1_def B2_def B3_def pt_defs unit_vector_def Let_def upt_rec
  numeral_3_eq_3 numeral_2_eq_2

lemma sqrt_A [simp]: "sqrt 10000 = 100" "sqrt (640000 / 9) = 800 / 3"
  by (rule sqrt_eqI; simp)+

lemma A_chord: "chord_length_parameterize real_env dA (replicate 3 0) 3 = [0, 1 / 2, 1]"
  by (simp add: chord_length_parameterize_def chord_step_def dA_def num_defs)

lemma A_left: "sp_darray_left_tangent real_env dA 3 eA = Inr (1, 0)"
  by (simp add: sp_darray_left_tangent_def left_tangent_loop.simps dA_def eA_def num_defs)

lemma A_right: "sp_darray_right_tangent real_env dA 3 eA = Inr (1, 0)"
  by (simp add: sp_darray_right_tangent_def dA_def eA_def num_defs)

lemma A_bi: "bi_sums real_env (dA ! 0) (dA ! (3 - 1)) 1 dA [0, 1 / 2, 1] 3
     = ((- 75 / 2, 0), - 9 / 64)"
  by (simp add: bi_sums_def dA_def num_defs)

lemma A_sums: "ls_sums real_env (dA ! 0) (dA ! (3 - 1)) dA [0, 1 / 2, 1] 3 (1, 0) (1, 0)
     = (9 / 64, 9 / 64, 9 / 64, 9 / 64, 75 / 2, 75 / 2)"
  by (simp add: ls_sums_def dA_def num_defs)

lemma A_alphas: "ls_alphas real_env (9 / 64, 9 / 64, 9 / 64, 9 / 64, 75 / 2, 75 / 2) dA 3
     = (400 / 3, 400 / 3)"
  by (simp add: ls_alphas_def dA_def num_defs)

lemma A_gen:
  "generate_bezier real_env m b dA [0, 1 / 2, 1] 3 (0, 0) (0, 0) eA
     = Inr (m(b := (0, 0), b + 3 := (0, 0), b + 1 := (400 / 3, 0), b + 2 := (400 / 3, 0)))"
proof -
  have z: "is_zero real_env (0, 0)" by (simp add: is_zero_def)
  have u: "unit_vector real_env (pt_sub (pt_div (- 75 / 2, 0) (- 9 / 64)) (dA ! 0)) = (1, 0)"
    by (simp add: dA_def num_defs)
  have n1: "\<not> feq real_env (- 9 / 64) (lit real_env 0)" by simp
  have n2: "\<not> pt_eq real_env (pt_div (- 75 / 2, 0) (- 9 / 64)) (dA ! 0)"
    by (simp add: dA_def num_defs)
  have a: "ls_alphas real_env (ls_sums real_env (dA ! 0) (dA ! (3 - 1)) dA [0, 1 / 2, 1] 3
             (unit_vector real_env (pt_sub (pt_div (- 75 / 2, 0) (- 9 / 64)) (dA ! 0))) (1, 0))
             dA 3 = (400 / 3, 400 / 3)"
    unfolding u A_sums A_alphas by (rule refl)
  show ?thesis
    unfolding generate_bezier_est [OF z z A_left A_right A_bi n1 n2 a] u
    by (simp add: dA_def pt_defs)
qed

lemma reparameterize_3:
  assumes "pt_eq E (bez 0) (d ! 0)" "pt_eq E (bez 3) (d ! 2)"
    "feq E (u ! 0) (lit E 0)" "feq E (u ! 2) (lit E 1)"
  shows "reparameterize E d 3 u bez =
           rbind (NewtonRaphsonRootFind E bez (d ! 1) (u ! 1)) (\<lambda>v. Inr (u[1 := v]))"
  using assms by (simp add: reparameterize_def upt_rec numeral_3_eq_3 numeral_2_eq_2)

lemma compute_max_error_ratio_3:
  assumes "pt_eq E (bez 0) (d ! 0)" "pt_eq E (bez 3) (d ! 2)"
    "feq E (u ! 0) (lit E 0)" "feq E (u ! 2) (lit E 1)"
    and "max_error_step E d u bez tol 1 (lit E 0, sp0, lit E 0, 0, bez 0) = Inr st1"
    and "max_error_step E d u bez tol 2 st1 = Inr st2"
  shows "compute_max_error_ratio E d u 3 bez tol sp0 = max_error_finish E 2 tol st2"
  using assms by (simp add: compute_max_error_ratio_def upt_rec numeral_3_eq_3 numeral_2_eq_2)

lemma fit_attempt_failed:
  assumes "2 < len" "1 \<le> mb" "lit E 0 \<le> error"
    and "chord_length_parameterize E data (replicate (nat len) (lit E 0)) (nat len) = u"
    and "\<not> feq E (u ! (nat len - 1)) (lit E 0)"
    and "generate_bezier E m b data u (nat len) tgl tgr error = Inr m1"
    and "reparameterize E data (nat len) u (\<lambda>i. m1 (b + i)) = Inr u1"
    and "compute_max_error_ratio E data u1 (nat len) (\<lambda>i. m1 (b + i))
           (fsqrt E (error + lit E 0.000000001)) None = Inr (r, sp)"
    and "\<not> \<bar>r\<bar> \<le> lit E 1" "\<not> (lit E 0 \<le> r \<and> r \<le> lit E 3)"
  shows "fit_attempt E m b data len tgl tgr error mb = Inr (Failed (r < lit E 0) sp, m1)"
  using assms by (auto simp: fit_attempt_def Let_def simp del: fit_iterate.simps)

lemma fit_attempt_fitted:
  assumes "2 < len" "1 \<le> mb" "lit E 0 \<le> error"
    and "chord_length_parameterize E data (replicate (nat len) (lit E 0)) (nat len) = u"
    and "\<not> feq E (u ! (nat len - 1)) (lit E 0)"
    and "generate_bezier E m b data u (nat len) tgl tgr error = Inr m1"
    and "reparameterize E data (nat len) u (\<lambda>i. m1 (b + i)) = Inr u1"
    and "compute_max_error_ratio E data u1 (nat len) (\<lambda>i. m1 (b + i))
           (fsqrt E (error + lit E 0.000000001)) None = Inr (r, sp)"
    and "\<bar>r\<bar> \<le> lit E 1"
  shows "fit_attempt E m b data len tgl tgr error mb = Inr (Fitted 1, m1)"
  using assms by (simp add: fit_attempt_def Let_def del: fit_iterate.simps)

lemma A_newton: "NewtonRaphsonRootFind real_env (mA m) (dA ! 1) ([0, 1 / 2, 1] ! 1)
    = Inr (1 / 2)"
  by (simp add: NewtonRaphsonRootFind_def bezier_pt_real
      newton_step_def clamp_u_def mA_def dA_def num_defs nr_improve.simps)

lemma A_reparam: "reparameterize real_env dA 3 [0, 1 / 2, 1] (mA m) = Inr [0, 1 / 2, 1]"
  by (subst reparameterize_3) (simp_all add: A_newton [simplified], simp_all add: mA_def dA_def)

lemma A_step1: "max_error_step real_env dA [0, 1 / 2, 1] (mA m) 1 1
     (lit real_env 0, None, lit real_env 0, 0, mA m 0) = Inr (0, None, 25 / 21, 1, (100, 0))"
  by (simp add: max_error_step_def compute_hook_def bezier_pt_real mA_def dA_def num_defs)

lemma A_step2: "max_error_step real_env dA [0, 1 / 2, 1] (mA m) 1 2
     (0, None, 25 / 21, 1, (100, 0)) = Inr (0, None, 25 / 21, 1, (0, 0))"
  by (simp add: max_error_step_def compute_hook_def bezier_pt_real mA_def dA_def num_defs)

lemma A_max: "compute_max_error_ratio real_env dA [0, 1 / 2, 1] 3 (mA m) 1 None
     = Inr (- 25 / 21, Some 0)"
  by (subst compute_max_error_ratio_3 [OF _ _ _ _ A_step1 A_step2])
     (simp_all add: mA_def dA_def max_error_finish_def)

lemma A_attempt:
  "fit_attempt real_env m 0 dA 3 (0, 0) (0, 0) eA 2 = Inr (Failed True (Some 0), mA m)"
proof -
  have t: "fsqrt real_env (eA + lit real_env 0.000000001) = 1" by (simp add: eA_def)
  have g: "generate_bezier real_env m 0 dA [0, 1 / 2, 1] 3 (0, 0) (0, 0) eA = Inr (mA m)"
    using A_gen [of m 0] by (simp add: mA_def)
  have "fit_attempt real_env m 0 dA 3 (0, 0) (0, 0) eA 2
          = Inr (Failed (- 25 / 21 < lit real_env 0) (Some 0), mA m)"
    by (rule fit_attempt_failed [where u = "[0, 1 / 2, 1]" and ?u1.0 = "[0, 1 / 2, 1]"])
       (simp_all add: A_chord g A_reparam, simp_all add: eA_def A_max)
  then show ?thesis by simp
qed

lemma A_plan:
  "fit_plan real_env m 0 dA 3 (0, 0) (0, 0) eA 2 = Inr (Split 1 (0, 0) (0, 0), mA m)"
  by (simp add: fit_plan_def A_attempt corner_check_def split_plan_def is_zero_def
      unconstrained_tangent_def)

lemma chord_total_real_nonneg: "0 \<le> chord_total real_env d k"
  by (induction k) (simp_all add: L2_def)

lemma chord_total_real_pos: "d ! Suc 0 \<noteq> d ! 0 \<Longrightarrow> 0 < chord_total real_env d (Suc k)"
proof (induction k)
  case 0
  obtain a b where p: "d ! Suc 0 = (a, b)" by (cases "d ! Suc 0")
  obtain a' b' where q: "d ! 0 = (a', b')" by (cases "d ! 0")
  from 0 p q have "a - a' \<noteq> 0 \<or> b - b' \<noteq> 0" by auto
  then have "0 < (a - a') * (a - a') + (b - b') * (b - b')"
    by (metis add_pos_nonneg add_nonneg_pos zero_le_square not_real_square_gt_zero)
  then show ?case by (simp add: L2_def pt_sub_def p q)
next
  case (Suc k)
  have "0 \<le> L2 real_env (pt_sub (d ! Suc (Suc k)) (d ! Suc k))" by (simp add: L2_def)
  with Suc show ?case by simp
qed

lemma positive_chords_real: "positive_chords real_env"
  unfolding positive_chords_def zero_length_path_def
proof (intro allI impI)
  fix d :: "real point list" and len
  assume a: "2 \<le> len \<and> sanitized real_env d len"
  then have "d ! Suc 0 \<noteq> d ! 0" unfolding sanitized_def by auto
  from chord_total_real_pos [OF this, of "len - 2"] a
  have t: "0 < chord_total real_env d (len - 1)"
    by (simp add: Suc_diff_Suc numeral_2_eq_2)
  have "chord_length_parameterize real_env d (replicate len (lit real_env 0)) len ! (len - 1) = 1"
    using chord_length_parameterize_nth [of len "replicate len (lit real_env 0)" real_env d "len - 1"]
      a t by simp
  then show "\<not> feq real_env
            (chord_length_parameterize real_env d (replicate len (lit real_env 0)) len ! (len - 1))
            (lit real_env 0)"
    by simp
qed

lemma eA_ok: "lit real_env 0 \<le> eA"
  by (simp add: eA_def)

lemma run_A:
  "\<exists>m2 m'. sp_bezier_fit_cubic_full real_env (Suc 0) (mA m) s (Some 0) None (Some dA) 2
               (0, 0) (0, 0) eA 1 = Some (Inr (1, m2, s))
     \<and> sp_bezier_fit_cubic_full real_env (Suc (Suc 0)) m s (Some 0) None (Some dA) 3
          (0, 0) (0, 0) eA 2 = Some (Inr (2, m', s))"
proof -
  obtain m2 where l: "sp_bezier_fit_cubic_full real_env (Suc 0) (mA m) s (Some 0) None (Some dA) 2
      (0, 0) (0, 0) eA 1 = Some (Inr (1, m2, s))"
    using full_two [OF eA_ok, of 1 0 "mA m" s 0 None dA "(0, 0)" "(0, 0)"] by auto
  obtain m3 where r: "sp_bezier_fit_cubic_full real_env (Suc 0) m2 s (Some 4) None
      (Some (drop 1 dA)) 2 (0, 0) (0, 0) eA 1 = Some (Inr (1, m3, s))"
    using full_two [OF eA_ok, of 1 0 m2 s 4 None "drop 1 dA" "(0, 0)" "(0, 0)"] by auto
  have "sp_bezier_fit_cubic_full real_env (Suc (Suc 0)) m s (Some 0) None (Some dA) 3
          (0, 0) (0, 0) eA 2 = Some (Inr (2, m3, s))"
    using l r
    by (subst sp_bezier_fit_cubic_full.simps(2))
       (simp add: A_plan del: sp_bezier_fit_cubic_full.simps)
  with l show ?thesis by blast
qed

lemma sanitized_A: "sanitized real_env dA 3"
  unfolding sanitized_def by (auto simp: dA_def less_Suc_eq numeral_3_eq_3)

theorem segments_chained_witness:
  "\<exists>m' s'. sp_bezier_fit_cubic_full real_env (Suc (Suc 0)) (\<lambda>a. (0, 0)) (\<lambda>a. 0) (Some 0) None
       (Some dA) 3 (0, 0) (0, 0) eA 2 = Some (Inr (2, m', s'))
     \<and> m' 3 = m' 4
     \<and> (\<exists>cs. length cs = 3 \<and> hd cs = 0 \<and> last cs = 2 \<and> segments_span m' 0 dA cs)"
proof -
  from run_A obtain m' where
    r: "sp_bezier_fit_cubic_full real_env (Suc (Suc 0)) (\<lambda>a. (0, 0)) (\<lambda>a. 0) (Some 0) None
       (Some dA) 3 (0, 0) (0, 0) eA 2 = Some (Inr (2, m', \<lambda>a. 0))"
    by blast
  have h: "(1::int) \<le> 2" "sanitized real_env dA (nat 3)" "nat 3 \<le> length dA"
    "(2::nat) < 2 ^ 32"
    using sanitized_A by (simp_all add: dA_def)
  note t = segments_chained [OF r h(1) positive_chords_real h(2,3,4)]
  from t have "0 + 1 < nat 2 \<longrightarrow> m' (0 + 4 * 0 + 3) = m' (0 + 4 * (0 + 1))" by blast
  then have "m' 3 = m' 4" by simp
  moreover from t have "\<exists>cs. length cs = 3 \<and> hd cs = 0 \<and> last cs = 2 \<and> segments_span m' 0 dA cs"
    by simp
  ultimately show ?thesis using r by blast
qed

theorem budget_and_layout_witness:
  "\<exists>m' s' m2 s2.
       sp_bezier_fit_cubic_full real_env (Suc (Suc 0)) (\<lambda>a. (7, 7)) (\<lambda>a. 0) (Some 0) None
         (Some dA) 3 (0, 0) (0, 0) eA 2 = Some (Inr (2, m', s'))
     \<and> sp_bezier_fit_cubic_full real_env (Suc 0) (mA (\<lambda>a. (7, 7))) (\<lambda>a. 0) (Some 0) None
         (Some dA) 2 (0, 0) (0, 0) eA 1 = Some (Inr (1, m2, s2))
     \<and> segments m' 0 2 = segments m2 0 1 @ segments m' 4 1
     \<and> m' 0 = (0, 0) \<and> m' 3 = (100, 0) \<and> m' 4 = (100, 0) \<and> m' 7 = (0, 0)
     \<and> m' 8 = (7, 7)"
proof -
  from run_A obtain m2 m' where
    l: "sp_bezier_fit_cubic_full real_env (Suc 0) (mA (\<lambda>a. (7, 7))) (\<lambda>a. 0) (Some 0) None (Some dA) 2
               (0, 0) (0, 0) eA 1 = Some (Inr (1, m2, \<lambda>a. 0))" and
    r: "sp_bezier_fit_cubic_full real_env (Suc (Suc 0)) (\<lambda>a. (7, 7)) (\<lambda>a. 0) (Some 0) None
       (Some dA) 3 (0, 0) (0, 0) eA 2 = Some (Inr (2, m', \<lambda>a. 0))"
    by blast
  have h: "(0::int) \<le> 2" "(1::nat) \<le> 2" "(2::nat) < 2 ^ 32" "nat 3 \<le> length dA"
    by (simp_all add: dA_def)
  note t = budget_and_layout [OF r h]
  from t have fr: "m' 8 = (7, 7)" by simp
  from t A_plan [of "\<lambda>a. (7, 7)"] obtain n1 m2' s2 n2 where
    x: "sp_bezier_fit_cubic_full real_env (Suc 0) (mA (\<lambda>a. (7, 7))) (\<lambda>a. 0) (Some 0) None (Some dA)
          (int 1 + 1) (0, 0) (0, 0) eA (2 - 1) = Some (Inr (n1, m2', s2))"
       "1 \<le> n1" "0 \<le> n2" "2 = n1 + n2"
       "segments m' 0 (nat 2) = segments m2' 0 (nat n1) @ segments m' (0 + 4 * nat n1) (nat n2)"
       "\<forall>k. k < nat n1 \<longrightarrow>
          (\<exists>i j. i < j \<and> j \<le> 1 \<and> m' (0 + 4 * k) = dA ! i \<and> m' (0 + 4 * k + 3) = dA ! j)"
       "\<forall>k. k < nat n2 \<longrightarrow>
          (\<exists>i j. 1 \<le> i \<and> i < j \<and> j < nat 3 \<and> m' (0 + 4 * nat n1 + 4 * k) = dA ! i
                \<and> m' (0 + 4 * nat n1 + 4 * k + 3) = dA ! j)"
    by blast
  from x(1) l have n: "n1 = 1" "m2' = m2" by simp_all
  with x(4) have n2: "n2 = 1" by simp
  from x(5) n n2 have app: "segments m' 0 2 = segments m2 0 1 @ segments m' 4 1" by simp
  from x(6) n obtain i j where ij: "i < j" "j \<le> 1" "m' 0 = dA ! i" "m' 3 = dA ! j"
    by auto
  from ij(1,2) have "i = 0" "j = 1" by simp_all
  with ij(3,4) have a: "m' 0 = (0, 0)" "m' 3 = (100, 0)" by (simp_all add: dA_def)
  from x(7) n n2 obtain i' j' where ij': "1 \<le> i'" "i' < j'" "j' < 3" "m' 4 = dA ! i'" "m' 7 = dA ! j'"
    by auto
  from ij'(1,2,3) have "i' = 1" "j' = 2" by simp_all
  with ij'(4,5) have b: "m' 4 = (100, 0)" "m' 7 = (0, 0)" by (simp_all add: dA_def)
  from r l app a b fr show ?thesis by blast
qed

subsection \<open>A run that retries, splits and retries again\<close>

lemma L2_axis: "L2 real_env (x, 0) = \<bar>x\<bar>"
  by (simp add: L2_def)

lemma unit_axis: "unit_vector real_env (x, 0) = (x / \<bar>x\<bar>, 0)"
  by (simp add: unit_vector_def pt_div_def)

lemmas axis_defs = B0_def B1_def B2_def B3_def pt_add_def pt_sub_def pt_scale_def pt_div_def
  pt_neg_def dot_def lensq_def unit_axis Let_def upt_rec numeral_3_eq_3 numeral_2_eq_2
  L2_axis

lemma reparameterize_4:
  assumes "pt_eq E (bez 0) (d ! 0)" "pt_eq E (bez 3) (d ! 3)"
    "feq E (u ! 0) (lit E 0)" "feq E (u ! 3) (lit E 1)"
    and "NewtonRaphsonRootFind E bez (d ! 1) (u ! 1) = Inr v1"
    and "NewtonRaphsonRootFind E bez (d ! 2) (u[1 := v1] ! 2) = Inr v2"
  shows "reparameterize E d 4 u bez = Inr (u[1 := v1, 2 := v2])"
  using assms by (simp add: reparameterize_def upt_rec eval_nat_numeral)

lemma compute_max_error_ratio_4:
  assumes "pt_eq E (bez 0) (d ! 0)" "pt_eq E (bez 3) (d ! 3)"
    "feq E (u ! 0) (lit E 0)" "feq E (u ! 3) (lit E 1)"
    and "max_error_step E d u bez tol 1 (lit E 0, sp0, lit E 0, 0, bez 0) = Inr st1"
    and "max_error_step E d u bez tol 2 st1 = Inr st2"
    and "max_error_step E d u bez tol 3 st2 = Inr st3"
  shows "compute_max_error_ratio E d u 4 bez tol sp0 = max_error_finish E 3 tol st3"
  using assms by (simp add: compute_max_error_ratio_def upt_rec eval_nat_numeral)

lemma B_chord: "chord_length_parameterize real_env dB (replicate 4 0) 4 = [0, 1 / 2, 19 / 20, 1]"
  by (simp add: chord_length_parameterize_def chord_step_def dB_def axis_defs eval_nat_numeral)

lemma B_right: "sp_darray_right_tangent real_env dB 4 eA = Inr (1, 0)"
  by (simp add: sp_darray_right_tangent_def dB_def eA_def axis_defs eval_nat_numeral)

lemma B_left: "sp_darray_left_tangent real_env dB 4 eA = Inr (1, 0)"
  by (simp add: sp_darray_left_tangent_def left_tangent_loop.simps dB_def eA_def axis_defs eval_nat_numeral)

lemma B1_sums: "ls_sums real_env (dB ! 0) (dB ! (4 - 1)) dB [0, 1 / 2, 19 / 20, 1] 4 (- 1, 0) (1, 0)
     = (9003249 / 64000000, - 9061731 / 64000000, - 9061731 / 64000000, 10172889 / 64000000,
        - 18386631 / 16000000, 25345989 / 16000000)"
  by (simp add: ls_sums_def dB_def axis_defs eval_nat_numeral)

lemma B1_alphas: "ls_alphas real_env (9003249 / 64000000, - 9061731 / 64000000,
        - 9061731 / 64000000, 10172889 / 64000000, - 18386631 / 16000000, 25345989 / 16000000) dB 4
     = (18, 26)"
  by (simp add: ls_alphas_def dB_def axis_defs eval_nat_numeral)

lemma B1_gen:
  "generate_bezier real_env m 0 dB [0, 1 / 2, 19 / 20, 1] 4 (- 1, 0) (0, 0) eA = Inr (mB1 m)"
proof -
  have z: "\<not> is_zero real_env (- 1, 0)" "is_zero real_env (0, 0)" by (simp_all add: is_zero_def)
  have a: "ls_alphas real_env (ls_sums real_env (dB ! 0) (dB ! (4 - 1)) dB [0, 1 / 2, 19 / 20, 1] 4
             (- 1, 0) (1, 0)) dB 4 = (18, 26)"
    unfolding B1_sums B1_alphas by (rule refl)
  show ?thesis
    unfolding generate_bezier_given [OF z B_right a] mB1_def
    by (simp add: dB_def pt_defs)
qed

lemma B1_newton1: "NewtonRaphsonRootFind real_env (mB1 m) (dB ! 1) ([0, 1 / 2, 19 / 20, 1] ! 1)
    = Inr (1 / 2)"
  by (simp add: NewtonRaphsonRootFind_def bezier_pt_real
      newton_step_def clamp_u_def mB1_def dB_def axis_defs nr_improve.simps)

lemma B1_newton2: "NewtonRaphsonRootFind real_env (mB1 m) (dB ! 2)
     ([0, 1 / 2, 19 / 20, 1][1 := 1 / 2] ! 2) = Inr (19 / 20)"
  by (simp add: NewtonRaphsonRootFind_def bezier_pt_real
      newton_step_def clamp_u_def mB1_def dB_def axis_defs nr_improve.simps)

lemma B1_reparam:
  "reparameterize real_env dB 4 [0, 1 / 2, 19 / 20, 1] (mB1 m) = Inr [0, 1 / 2, 19 / 20, 1]"
  by (subst reparameterize_4 [OF _ _ _ _ B1_newton1 B1_newton2])
     (simp_all add: mB1_def dB_def)

lemma B1_step1: "max_error_step real_env dB [0, 1 / 2, 19 / 20, 1] (mB1 m) 1 1
     (lit real_env 0, None, lit real_env 0, 0, mB1 m 0) = Inr (0, None, 3 / 2, 1, (30, 0))"
  by (simp add: max_error_step_def compute_hook_def bezier_pt_real mB1_def dB_def axis_defs)

lemma B1_step2: "max_error_step real_env dB [0, 1 / 2, 19 / 20, 1] (mB1 m) 1 2
     (0, None, 3 / 2, 1, (30, 0)) = Inr (0, None, 3 / 2, 1, (57, 0))"
  by (simp add: max_error_step_def compute_hook_def bezier_pt_real mB1_def dB_def axis_defs)

lemma B1_step3: "max_error_step real_env dB [0, 1 / 2, 19 / 20, 1] (mB1 m) 1 3
     (0, None, 3 / 2, 1, (57, 0)) = Inr (0, None, 3 / 2, 1, (54, 0))"
  by (simp add: max_error_step_def compute_hook_def bezier_pt_real mB1_def dB_def axis_defs)

lemma B1_max: "compute_max_error_ratio real_env dB [0, 1 / 2, 19 / 20, 1] 4 (mB1 m) 1 None
     = Inr (- 3 / 2, Some 0)"
  by (subst compute_max_error_ratio_4 [OF _ _ _ _ B1_step1 B1_step2 B1_step3])
     (simp_all add: mB1_def dB_def max_error_finish_def)

lemma tol_A: "fsqrt real_env (eA + lit real_env 0.000000001) = 1"
  by (simp add: eA_def)

lemma B1_attempt:
  "fit_attempt real_env m 0 dB 4 (- 1, 0) (0, 0) eA 2 = Inr (Failed True (Some 0), mB1 m)"
proof -
  have "fit_attempt real_env m 0 dB 4 (- 1, 0) (0, 0) eA 2
          = Inr (Failed (- 3 / 2 < lit real_env 0) (Some 0), mB1 m)"
    by (rule fit_attempt_failed [where u = "[0, 1 / 2, 19 / 20, 1]"
          and ?u1.0 = "[0, 1 / 2, 19 / 20, 1]"])
       (simp_all add: B_chord B1_gen B1_reparam, simp_all add: eA_def B1_max)
  then show ?thesis by simp
qed

lemma B1_plan:
  "fit_plan real_env m 0 dB 4 (- 1, 0) (0, 0) eA 2 = Inr (Retry (0, 0) (0, 0), mB1 m)"
  by (simp add: fit_plan_def B1_attempt corner_check_def split_plan_def is_zero_def
      unconstrained_tangent_def)

lemma B2_bi: "bi_sums real_env (dB ! 0) (dB ! (4 - 1)) 1 dB [0, 1 / 2, 19 / 20, 1] 4
     = ((- 281439999 / 32000000, 0), - 9003249 / 64000000)"
  by (simp add: bi_sums_def dB_def axis_defs eval_nat_numeral)

lemma B2_sums: "ls_sums real_env (dB ! 0) (dB ! (4 - 1)) dB [0, 1 / 2, 19 / 20, 1] 4 (1, 0) (1, 0)
     = (9003249 / 64000000, 9061731 / 64000000, 9061731 / 64000000, 10172889 / 64000000,
        18386631 / 16000000, 25345989 / 16000000)"
  by (simp add: ls_sums_def dB_def axis_defs eval_nat_numeral)

lemma B2_alphas: "ls_alphas real_env (9003249 / 64000000, 9061731 / 64000000,
        9061731 / 64000000, 10172889 / 64000000, 18386631 / 16000000, 25345989 / 16000000) dB 4
     = (18, 18)"
  by (simp add: ls_alphas_def dB_def axis_defs eval_nat_numeral)

lemma B2_gen:
  "generate_bezier real_env m 0 dB [0, 1 / 2, 19 / 20, 1] 4 (0, 0) (0, 0) eA = Inr (mB2 m)"
proof -
  have z: "is_zero real_env (0, 0)" by (simp add: is_zero_def)
  have u: "unit_vector real_env (pt_sub (pt_div (- 281439999 / 32000000, 0)
             (- 9003249 / 64000000)) (dB ! 0)) = (1, 0)"
    by (simp add: dB_def axis_defs)
  have n1: "\<not> feq real_env (- 9003249 / 64000000) (lit real_env 0)" by simp
  have n2: "\<not> pt_eq real_env (pt_div (- 281439999 / 32000000, 0) (- 9003249 / 64000000)) (dB ! 0)"
    by (simp add: dB_def axis_defs)
  have a: "ls_alphas real_env (ls_sums real_env (dB ! 0) (dB ! (4 - 1)) dB [0, 1 / 2, 19 / 20, 1] 4
             (unit_vector real_env (pt_sub (pt_div (- 281439999 / 32000000, 0)
                (- 9003249 / 64000000)) (dB ! 0))) (1, 0))
             dB 4 = (18, 18)"
    unfolding u B2_sums B2_alphas by (rule refl)
  show ?thesis
    unfolding generate_bezier_est [OF z z B_left B_right B2_bi n1 n2 a] u mB2_def
    by (simp add: dB_def axis_defs)
qed

lemma B2_newton1: "NewtonRaphsonRootFind real_env (mB2 m) (dB ! 1) ([0, 1 / 2, 19 / 20, 1] ! 1)
    = Inr (23 / 67)"
  by (simp add: NewtonRaphsonRootFind_def bezier_pt_real
      newton_step_def clamp_u_def mB2_def dB_def axis_defs nr_improve.simps)

lemma B2_newton2: "NewtonRaphsonRootFind real_env (mB2 m) (dB ! 2)
     ([0, 1 / 2, 19 / 20, 1][1 := 23 / 67] ! 2) = Inr (823498 / 884675)"
  by (simp add: NewtonRaphsonRootFind_def bezier_pt_real
      newton_step_def clamp_u_def mB2_def dB_def axis_defs nr_improve.simps)

lemma B2_reparam:
  "reparameterize real_env dB 4 [0, 1 / 2, 19 / 20, 1] (mB2 m)
     = Inr [0, 23 / 67, 823498 / 884675, 1]"
  by (subst reparameterize_4 [OF _ _ _ _ B2_newton1 B2_newton2])
     (simp_all add: mB2_def dB_def)

lemma B2_step1: "max_error_step real_env dB [0, 23 / 67, 823498 / 884675, 1] (mB2 m) 1 1
     (lit real_env 0, None, lit real_env 0, 0, mB2 m 0)
     = Inr (871877857536 / 90458382169, Some 1, 4641975 / 19185922, 1, (8089146 / 300763, 0))"
  by (simp add: max_error_step_def compute_hook_def bezier_pt_real mB2_def dB_def axis_defs)

lemma B2_step2: "max_error_step real_env dB [0, 23 / 67, 823498 / 884675, 1] (mB2 m) 1 2
     (871877857536 / 90458382169, Some 1, 4641975 / 19185922, 1, (8089146 / 300763, 0))
     = Inr (871877857536 / 90458382169, Some 1,
            17687358717724378588319505 / 14511211407117512043655814, 2,
            (39284180721201041964 / 692390761025046875, 0))"
  by (simp add: max_error_step_def compute_hook_def bezier_pt_real mB2_def dB_def axis_defs)

lemma B2_step3: "max_error_step real_env dB [0, 23 / 67, 823498 / 884675, 1] (mB2 m) 1 3
     (871877857536 / 90458382169, Some 1,
      17687358717724378588319505 / 14511211407117512043655814, 2,
      (39284180721201041964 / 692390761025046875, 0))
     = Inr (871877857536 / 90458382169, Some 1,
            17687358717724378588319505 / 14511211407117512043655814, 2, (54, 0))"
  by (simp add: max_error_step_def compute_hook_def bezier_pt_real mB2_def dB_def axis_defs)

lemma sqrt_B2: "sqrt (871877857536 / 90458382169) = 933744 / 300763"
  by (rule sqrt_eqI; simp)

lemma B2_max: "compute_max_error_ratio real_env dB [0, 23 / 67, 823498 / 884675, 1] 4 (mB2 m) 1 None
     = Inr (933744 / 300763, Some 1)"
  by (subst compute_max_error_ratio_4 [OF _ _ _ _ B2_step1 B2_step2 B2_step3])
     (simp_all add: mB2_def dB_def max_error_finish_def sqrt_B2)

lemma B2_attempt:
  "fit_attempt real_env m 0 dB 4 (0, 0) (0, 0) eA 2 = Inr (Failed False (Some 1), mB2 m)"
proof -
  have "fit_attempt real_env m 0 dB 4 (0, 0) (0, 0) eA 2
          = Inr (Failed (933744 / 300763 < lit real_env 0) (Some 1), mB2 m)"
    by (rule fit_attempt_failed [where u = "[0, 1 / 2, 19 / 20, 1]"
          and ?u1.0 = "[0, 23 / 67, 823498 / 884675, 1]"])
       (simp_all add: B_chord B2_gen B2_reparam, simp_all add: eA_def B2_max)
  then show ?thesis by simp
qed

lemma B_center: "sp_darray_center_tangent real_env dB 1 4 = Inr (- 1, 0)"
  by (simp add: sp_darray_center_tangent_def dB_def axis_defs)

lemma B2_plan:
  "fit_plan real_env m 0 dB 4 (0, 0) (0, 0) eA 2 = Inr (Split 1 (1, 0) (- 1, 0), mB2 m)"
  by (simp add: fit_plan_def B2_attempt corner_check_def split_plan_def is_zero_def
      unconstrained_tangent_def B_center [unfolded One_nat_def] pt_neg_def)

lemma B3_chord: "chord_length_parameterize real_env dB3 (replicate 3 0) 3 = [0, 9 / 10, 1]"
  by (simp add: chord_length_parameterize_def chord_step_def dB3_def axis_defs)

lemma B3_right: "sp_darray_right_tangent real_env dB3 3 eA = Inr (1, 0)"
  by (simp add: sp_darray_right_tangent_def dB3_def eA_def axis_defs)

lemma B3_sums: "ls_sums real_env (dB3 ! 0) (dB3 ! (3 - 1)) dB3 [0, 9 / 10, 1] 3 (1, 0) (1, 0)
     = (729 / 1000000, 6561 / 1000000, 6561 / 1000000, 59049 / 1000000,
        12393 / 125000, 111537 / 125000)"
  by (simp add: ls_sums_def dB3_def axis_defs)

lemma B3_alphas: "ls_alphas real_env (729 / 1000000, 6561 / 1000000, 6561 / 1000000,
        59049 / 1000000, 12393 / 125000, 111537 / 125000) dB3 3 = (68 / 5, 68 / 5)"
  by (simp add: ls_alphas_def dB3_def axis_defs)

lemma B3_gen:
  "generate_bezier real_env m 4 dB3 [0, 9 / 10, 1] 3 (1, 0) (0, 0) eA = Inr (mB3 m)"
proof -
  have z: "\<not> is_zero real_env (1, 0)" "is_zero real_env (0, 0)" by (simp_all add: is_zero_def)
  have a: "ls_alphas real_env (ls_sums real_env (dB3 ! 0) (dB3 ! (3 - 1)) dB3 [0, 9 / 10, 1] 3
             (1, 0) (1, 0)) dB3 3 = (68 / 5, 68 / 5)"
    unfolding B3_sums B3_alphas by (rule refl)
  show ?thesis
    unfolding generate_bezier_given [OF z B3_right a] mB3_def
    by (simp add: dB3_def axis_defs)
qed

lemma B3_newton: "NewtonRaphsonRootFind real_env (\<lambda>i. mB3 m (4 + i)) (dB3 ! 1)
     ([0, 9 / 10, 1] ! 1) = Inr (9 / 10)"
  by (simp add: NewtonRaphsonRootFind_def bezier_pt_real
      newton_step_def clamp_u_def mB3_def dB3_def axis_defs nr_improve.simps)

lemma B3_reparam:
  "reparameterize real_env dB3 3 [0, 9 / 10, 1] (\<lambda>i. mB3 m (4 + i)) = Inr [0, 9 / 10, 1]"
  by (subst reparameterize_3) (simp_all add: B3_newton [simplified], simp_all add: mB3_def dB3_def)

lemma B3_step1: "max_error_step real_env dB3 [0, 9 / 10, 1] (\<lambda>i. mB3 m (4 + i)) 1 1
     (lit real_env 0, None, lit real_env 0, 0, mB3 m (4 + 0))
     = Inr (0, None, 1701 / 1600, 1, (57, 0))"
  by (simp add: max_error_step_def compute_hook_def bezier_pt_real mB3_def dB3_def axis_defs)

lemma B3_step2: "max_error_step real_env dB3 [0, 9 / 10, 1] (\<lambda>i. mB3 m (4 + i)) 1 2
     (0, None, 1701 / 1600, 1, (57, 0)) = Inr (0, None, 1701 / 1600, 1, (54, 0))"
  by (simp add: max_error_step_def compute_hook_def bezier_pt_real mB3_def dB3_def axis_defs)

lemma B3_max: "compute_max_error_ratio real_env dB3 [0, 9 / 10, 1] 3 (\<lambda>i. mB3 m (4 + i)) 1 None
     = Inr (- 1701 / 1600, Some 0)"
  by (subst compute_max_error_ratio_3 [OF _ _ _ _ B3_step1 B3_step2])
     (simp_all add: mB3_def dB3_def max_error_finish_def)

lemma B3_attempt:
  "fit_attempt real_env m 4 dB3 3 (1, 0) (0, 0) eA 1 = Inr (Failed True (Some 0), mB3 m)"
proof -
  have "fit_attempt real_env m 4 dB3 3 (1, 0) (0, 0) eA 1
          = Inr (Failed (- 1701 / 1600 < lit real_env 0) (Some 0), mB3 m)"
    by (rule fit_attempt_failed [where u = "[0, 9 / 10, 1]" and ?u1.0 = "[0, 9 / 10, 1]"])
       (simp_all add: B3_chord B3_gen B3_reparam, simp_all add: eA_def B3_max)
  then show ?thesis by simp
qed

lemma B3_plan:
  "fit_plan real_env m 4 dB3 3 (1, 0) (0, 0) eA 1 = Inr (Retry (0, 0) (0, 0), mB3 m)"
  by (simp add: fit_plan_def B3_attempt [unfolded One_nat_def] corner_check_def split_plan_def is_zero_def
      unconstrained_tangent_def)

lemma dB_tail: "drop (Suc 0) dB = dB3"
  by (simp add: dB_def dB3_def)

lemma run_B:
  "sp_bezier_fit_cubic_full real_env (Suc (Suc (Suc 0))) m s (Some 0) None (Some dB) 4
     (- 1, 0) (0, 0) eA 2 = None"
proof -
  obtain m2 where l: "sp_bezier_fit_cubic_full real_env (Suc 0) (mB2 (mB1 m)) s (Some 0) None
      (Some dB) 2 (0, 0) (- 1, 0) eA 1 = Some (Inr (1, m2, s))"
    using full_two [OF eA_ok, of 1 0 "mB2 (mB1 m)" s 0 None dB "(0, 0)" "(- 1, 0)"] by auto
  have r: "sp_bezier_fit_cubic_full real_env (Suc 0) m2 s (Some 4) None (Some dB3) 3
      (1, 0) (0, 0) eA (Suc 0) = None"
    by (subst sp_bezier_fit_cubic_full.simps(2))
       (simp add: B3_plan [unfolded One_nat_def])
  have "sp_bezier_fit_cubic_full real_env (Suc (Suc 0)) (mB1 m) s (Some 0) None (Some dB) 4
      (0, 0) (0, 0) eA 2 = None"
    using l r
    by (subst sp_bezier_fit_cubic_full.simps(2))
       (simp add: B2_plan dB_tail del: sp_bezier_fit_cubic_full.simps)
  then show ?thesis
    by (subst sp_bezier_fit_cubic_full.simps(2))
       (simp add: B1_plan del: sp_bezier_fit_cubic_full.simps)
qed

lemma B3_left: "sp_darray_left_tangent real_env dB3 3 eA = Inr (1, 0)"
  by (simp add: sp_darray_left_tangent_def left_tangent_loop.simps dB3_def eA_def axis_defs)

lemma B4_bi: "bi_sums real_env (dB3 ! 0) (dB3 ! (3 - 1)) 1 dB3 [0, 9 / 10, 1] 3
     = ((- 139239 / 500000, 0), - 729 / 1000000)"
  by (simp add: bi_sums_def dB3_def axis_defs)

lemma B4_gen:
  "generate_bezier real_env m 4 dB3 [0, 9 / 10, 1] 3 (0, 0) (0, 0) eA = Inr (mB3 m)"
proof -
  have z: "is_zero real_env (0, 0)" by (simp add: is_zero_def)
  have u: "unit_vector real_env (pt_sub (pt_div (- 139239 / 500000, 0) (- 729 / 1000000))
             (dB3 ! 0)) = (1, 0)"
    by (simp add: dB3_def axis_defs)
  have n1: "\<not> feq real_env (- 729 / 1000000) (lit real_env 0)" by simp
  have n2: "\<not> pt_eq real_env (pt_div (- 139239 / 500000, 0) (- 729 / 1000000)) (dB3 ! 0)"
    by (simp add: dB3_def axis_defs)
  have a: "ls_alphas real_env (ls_sums real_env (dB3 ! 0) (dB3 ! (3 - 1)) dB3 [0, 9 / 10, 1] 3
             (unit_vector real_env (pt_sub (pt_div (- 139239 / 500000, 0) (- 729 / 1000000))
                (dB3 ! 0))) (1, 0))
             dB3 3 = (68 / 5, 68 / 5)"
    unfolding u B3_sums B3_alphas by (rule refl)
  show ?thesis
    unfolding generate_bezier_est [OF z z B3_left B3_right B4_bi n1 n2 a] u mB3_def
    by (simp add: dB3_def axis_defs)
qed

lemma B4_attempt:
  "fit_attempt real_env m 4 dB3 3 (0, 0) (0, 0) eA 1 = Inr (Failed True (Some 0), mB3 m)"
proof -
  have "fit_attempt real_env m 4 dB3 3 (0, 0) (0, 0) eA 1
          = Inr (Failed (- 1701 / 1600 < lit real_env 0) (Some 0), mB3 m)"
    by (rule fit_attempt_failed [where u = "[0, 9 / 10, 1]" and ?u1.0 = "[0, 9 / 10, 1]"])
       (simp_all add: B3_chord B4_gen B3_reparam, simp_all add: eA_def B3_max)
  then show ?thesis by simp
qed

lemma B4_plan:
  "fit_plan real_env m 4 dB3 3 (0, 0) (0, 0) eA 1 = Inr (Done (- 1), mB3 m)"
  by (simp add: fit_plan_def B4_attempt [unfolded One_nat_def] corner_check_def split_plan_def
      is_zero_def unconstrained_tangent_def)

lemma run_B4:
  "\<exists>m'. sp_bezier_fit_cubic_full real_env (Suc (Suc (Suc (Suc 0)))) m s (Some 0) None (Some dB) 4
     (- 1, 0) (0, 0) eA 2 = Some (Inr (- 1, m', s))"
proof -
  obtain m2 where l: "sp_bezier_fit_cubic_full real_env (Suc (Suc 0)) (mB2 (mB1 m)) s (Some 0) None
      (Some dB) 2 (0, 0) (- 1, 0) eA 1 = Some (Inr (1, m2, s))"
    using full_two [OF eA_ok, of 1 "Suc 0" "mB2 (mB1 m)" s 0 None dB "(0, 0)" "(- 1, 0)"] by auto
  have r4: "sp_bezier_fit_cubic_full real_env (Suc 0) (mB3 m2) s (Some 4) None (Some dB3) 3
      (0, 0) (0, 0) eA (Suc 0) = Some (Inr (- 1, mB3 (mB3 m2), s))"
    by (subst sp_bezier_fit_cubic_full.simps(2))
       (simp add: B4_plan [unfolded One_nat_def])
  have r: "sp_bezier_fit_cubic_full real_env (Suc (Suc 0)) m2 s (Some 4) None (Some dB3) 3
      (1, 0) (0, 0) eA (Suc 0) = Some (Inr (- 1, mB3 (mB3 m2), s))"
    using r4
    by (subst sp_bezier_fit_cubic_full.simps(2))
       (simp add: B3_plan [unfolded One_nat_def] del: sp_bezier_fit_cubic_full.simps)
  have "sp_bezier_fit_cubic_full real_env (Suc (Suc (Suc 0))) (mB1 m) s (Some 0) None (Some dB) 4
      (0, 0) (0, 0) eA 2 = Some (Inr (- 1, mB3 (mB3 m2), s))"
    using l r
    by (subst sp_bezier_fit_cubic_full.simps(2))
       (simp add: B2_plan dB_tail del: sp_bezier_fit_cubic_full.simps)
  then have "sp_bezier_fit_cubic_full real_env (Suc (Suc (Suc (Suc 0)))) m s (Some 0) None
      (Some dB) 4 (- 1, 0) (0, 0) eA 2 = Some (Inr (- 1, mB3 (mB3 m2), s))"
    by (subst sp_bezier_fit_cubic_full.simps(2))
       (simp add: B1_plan del: sp_bezier_fit_cubic_full.simps)
  then show ?thesis by blast
qed

text \<open>
  C9, as the specification has it, bounds the depth of the recursion by \<^verbatim>\<open>max_beziers\<close>.
  The call on the four points \<open>dB\<close> with first tangent \<open>(-1, 0)\<close>, no second tangent,
  tolerance \<open>1\<close> and \<^verbatim>\<open>max_beziers = 2\<close> is deeper: its first fit hooks at the start, so
  it calls itself with the first tangent unconstrained (line 322); that call fits
  badly and splits at the second point (line 352); the right half, a call with one
  segment left and the tangent at the split point, hooks at its start and calls itself
  again.  That fourth call, three calls below the first, finds the same hook with no
  segment left to split and returns \<open>-1\<close>.  With the depth limited to three calls the
  model has no result; with four the result is \<open>-1\<close>.
\<close>

theorem depth_exceeds_budget:
  "sp_bezier_fit_cubic_full real_env (Suc (Suc (Suc 0))) (\<lambda>a. (0, 0)) (\<lambda>a. 0) (Some 0) None
     (Some dB) 4 (- 1, 0) (0, 0) eA 2 = None
   \<and> (\<exists>m'. sp_bezier_fit_cubic_full real_env (Suc (Suc (Suc (Suc 0)))) (\<lambda>a. (0, 0)) (\<lambda>a. 0)
          (Some 0) None (Some dB) 4 (- 1, 0) (0, 0) eA 2 = Some (Inr (- 1, m', \<lambda>a. 0)))"
  using run_B run_B4 by blast

text \<open>
  C9, amended: \<^verbatim>\<open>sp_bezier_fit_cubic_full\<close> with \<open>1 \<le> max_beziers < 2\<^sup>3\<^sup>2\<close> terminates, and
  its recursion, retries at a corner and the two halves of a split counted alike, is no
  deeper than \<open>3 * max_beziers\<close> calls: every depth limit from \<open>3 * max_beziers\<close> on gives
  the same result.  The arithmetic is any in which the unconstrained tangent \<open>(0, 0)\<close>
  tests as zero.
\<close>

theorem recursion_depth_bound:
  assumes "is_zero E (unconstrained_tangent E)" "1 \<le> mb" "mb < 2 ^ 32" "3 * mb \<le> fuel"
  shows "\<exists>r. sp_bezier_fit_cubic_full E fuel m s (Some b) spo (Some d) len tgl tgr error mb = Some r
     \<and> (\<forall>f. fuel \<le> f \<longrightarrow>
           sp_bezier_fit_cubic_full E f m s (Some b) spo (Some d) len tgl tgr error mb = Some r)"
proof -
  have "3 * mb + (if is_zero E tgl then 0 else 1) + (if is_zero E tgr then 0 else 1) \<le> fuel + 2"
    using assms(4) by simp
  from full_fuel_enough [OF assms(1-3) this] obtain r where
    r: "sp_bezier_fit_cubic_full E fuel m s (Some b) spo (Some d) len tgl tgr error mb = Some r"
    by blast
  from full_fuel_mono [OF r] r show ?thesis by blast
qed

theorem recursion_depth_bound_witness:
  "\<exists>r. sp_bezier_fit_cubic_full real_env 6 (\<lambda>a. (0, 0)) (\<lambda>a. 0) (Some 0) None
     (Some dB) 4 (- 1, 0) (0, 0) eA 2 = Some r
     \<and> sp_bezier_fit_cubic_full real_env 7 (\<lambda>a. (0, 0)) (\<lambda>a. 0) (Some 0) None
          (Some dB) 4 (- 1, 0) (0, 0) eA 2 = Some r"
proof -
  have h: "is_zero real_env (unconstrained_tangent real_env)" "(1::nat) \<le> 2" "(2::nat) < 2 ^ 32"
    "3 * (2::nat) \<le> 6"
    by (simp_all add: is_zero_def unconstrained_tangent_def)
  from recursion_depth_bound [OF h, of "\<lambda>a. (0, 0)" "\<lambda>a. 0" 0 None dB 4 "(- 1, 0)" "(0, 0)" eA]
  obtain r where
    r: "sp_bezier_fit_cubic_full real_env 6 (\<lambda>a. (0, 0)) (\<lambda>a. 0) (Some 0) None
          (Some dB) 4 (- 1, 0) (0, 0) eA 2 = Some r"
       "\<forall>f. 6 \<le> f \<longrightarrow> sp_bezier_fit_cubic_full real_env f (\<lambda>a. (0, 0)) (\<lambda>a. 0) (Some 0) None
          (Some dB) 4 (- 1, 0) (0, 0) eA 2 = Some r"
    by blast
  from r(2) have "sp_bezier_fit_cubic_full real_env 7 (\<lambda>a. (0, 0)) (\<lambda>a. 0) (Some 0) None
          (Some dB) 4 (- 1, 0) (0, 0) eA 2 = Some r"
    by simp
  with r(1) show ?thesis by blast
qed

subsection \<open>What the error evaluation returns\<close>

lemma compute_hook_real:
  "0 < tol \<Longrightarrow> \<exists>h. compute_hook real_env a b t bez tol = Inr h \<and> 0 \<le> h"
  by (simp add: compute_hook_def bezier_pt3_real Let_def L2_def)

lemma max_error_step_real:
  assumes "0 < tol" "0 \<le> maxD" "0 \<le> mh"
  shows "\<exists>maxD' sp' mh' snap' prev'.
     max_error_step real_env d u bez tol i (maxD, sp, mh, snap, prev)
       = Inr (maxD', sp', mh', snap', prev')
     \<and> 0 \<le> maxD' \<and> 0 \<le> mh'
     \<and> (sp' = sp \<and> maxD' = maxD
          \<or> sp' = Some i \<and> 0 < maxD' \<and> bezier_pt real_env 3 bez (u ! i) \<noteq> Inr (d ! i))
     \<and> (snap' = snap \<and> mh' = mh \<or> snap' = i \<and> 0 < mh')"
proof -
  obtain curr where c: "bezier_pt real_env 3 bez (u ! i) = Inr curr"
    by (simp add: bezier_pt3_real)
  obtain h where h: "compute_hook real_env prev curr ((u ! (i - Suc 0) + u ! i) / 2) bez tol
      = Inr h" "0 \<le> h"
    using compute_hook_real [OF assms(1)] by blast
  have z: "curr = d ! i \<Longrightarrow> lensq (pt_sub curr (d ! i)) = 0"
    by (simp add: lensq_def dot_def pt_sub_def)
  show ?thesis
    unfolding max_error_step_def using assms(2,3) h(2) z
    by (auto simp: c h(1) Let_def)
qed

lemma max_error_fold_real:
  assumes "0 < tol" "bezier_pt real_env 3 bez (u ! (len - 1)) = Inr (d ! (len - 1))"
  shows "k \<le> len - 1 \<Longrightarrow>
     \<exists>maxD sp mh snap prev.
       fold (\<lambda>i r. rbind r (max_error_step real_env d u bez tol i)) [1..<k + 1]
         (Inr (0, sp0, 0, 0, bez 0)) = Inr (maxD, sp, mh, snap, prev)
     \<and> 0 \<le> maxD \<and> 0 \<le> mh
     \<and> (0 < maxD \<longrightarrow> (\<exists>p. sp = Some p \<and> 1 \<le> p \<and> p < len - 1))
     \<and> (0 < mh \<longrightarrow> 1 \<le> snap \<and> snap \<le> k)"
proof (induction k)
  case 0
  then show ?case by simp
next
  case (Suc k)
  from Suc obtain maxD sp mh snap prev where
    f: "fold (\<lambda>i r. rbind r (max_error_step real_env d u bez tol i)) [1..<k + 1]
         (Inr (0, sp0, 0, 0, bez 0)) = Inr (maxD, sp, mh, snap, prev)"
    and i: "0 \<le> maxD" "0 \<le> mh" "0 < maxD \<longrightarrow> (\<exists>p. sp = Some p \<and> 1 \<le> p \<and> p < len - 1)"
      "0 < mh \<longrightarrow> 1 \<le> snap \<and> snap \<le> k"
    by auto
  from max_error_step_real [OF assms(1) i(1,2), of d u bez "Suc k" sp snap prev]
  obtain maxD' sp' mh' snap' prev' where
    s: "max_error_step real_env d u bez tol (Suc k) (maxD, sp, mh, snap, prev)
       = Inr (maxD', sp', mh', snap', prev')"
    and j: "0 \<le> maxD'" "0 \<le> mh'"
      "sp' = sp \<and> maxD' = maxD
          \<or> sp' = Some (Suc k) \<and> 0 < maxD'
            \<and> bezier_pt real_env 3 bez (u ! Suc k) \<noteq> Inr (d ! Suc k)"
      "snap' = snap \<and> mh' = mh \<or> snap' = Suc k \<and> 0 < mh'"
    by blast
  have up: "[1..<Suc k + 1] = [1..<k + 1] @ [Suc k]" by simp
  have r: "fold (\<lambda>i r. rbind r (max_error_step real_env d u bez tol i)) [1..<Suc k + 1]
         (Inr (0, sp0, 0, 0, bez 0)) = Inr (maxD', sp', mh', snap', prev')"
    unfolding up by (simp only: fold_append comp_apply f fold_simps rbind_simps s id_apply)
  have a: "0 < maxD' \<longrightarrow> (\<exists>p. sp' = Some p \<and> 1 \<le> p \<and> p < len - 1)"
  proof
    assume m: "0 < maxD'"
    from j(3) show "\<exists>p. sp' = Some p \<and> 1 \<le> p \<and> p < len - 1"
    proof
      assume "sp' = sp \<and> maxD' = maxD"
      with m i(3) show ?thesis by simp
    next
      assume n: "sp' = Some (Suc k) \<and> 0 < maxD'
            \<and> bezier_pt real_env 3 bez (u ! Suc k) \<noteq> Inr (d ! Suc k)"
      with assms(2) have "Suc k \<noteq> len - 1" by auto
      with Suc.prems have "Suc k < len - 1" by simp
      with n show ?thesis by simp
    qed
  qed
  have b: "0 < mh' \<longrightarrow> 1 \<le> snap' \<and> snap' \<le> Suc k"
    using j(4) i(4) by auto
  from r j(1,2) a b show ?case by blast
qed

lemma max_error_finish_real:
  assumes "0 < tol" "0 \<le> maxD" "0 \<le> mh"
    "0 < maxD \<longrightarrow> (\<exists>p. sp = Some p \<and> 1 \<le> p \<and> p < last_ix)"
    "0 < mh \<longrightarrow> 1 \<le> snap \<and> snap \<le> last_ix"
  shows "\<exists>v sp'. max_error_finish real_env last_ix tol (maxD, sp, mh, snap, prev) = Inr (v, sp')
     \<and> (v = 0 \<or> (\<exists>p. sp' = Some p \<and> p < last_ix \<and> (p \<noteq> 0 \<or> v < 0)))"
proof (cases "mh \<le> sqrt maxD / tol")
  case True
  show ?thesis
  proof (cases "maxD = 0")
    case z: True
    with True show ?thesis by (simp add: max_error_finish_def)
  next
    case False
    with assms(2) have p: "0 < maxD" by simp
    with assms(1) have "sqrt maxD / tol \<noteq> 0" by simp
    moreover from p assms(4) obtain p where "sp = Some p" "1 \<le> p" "p < last_ix" by blast
    ultimately show ?thesis using True by (simp add: max_error_finish_def)
  qed
next
  case False
  have "0 \<le> sqrt maxD / tol" using assms(1,2) by simp
  with False have m: "0 < mh" by simp
  with assms(5) have "0 < snap" "snap - Suc 0 < last_ix" by auto
  with False m show ?thesis by (simp add: max_error_finish_def)
qed

lemma bezier_pt_real_end: "bezier_pt real_env 3 bez 1 = Inr (bez 3)"
  by (simp add: bezier_pt3_real)



subsection \<open>The hook ratio of a pair\<close>

lemma max_error_step_Inr:
  assumes "max_error_step E d u bez tol i (maxD, sp, mh, snap, prev)
             = Inr (maxD', sp', mh', snap', cur)"
  shows "bezier_pt E 3 bez (u ! i) = Inr cur
     \<and> (\<exists>P h. bezier_pt E 3 bez (lit E 0.5 * (u ! (i - 1) + u ! i)) = Inr P
          \<and> h = (if L2 E (pt_sub (pt_scale (lit E 0.5) (pt_add prev cur)) P) < tol then lit E 0
                 else L2 E (pt_sub (pt_scale (lit E 0.5) (pt_add prev cur)) P)
                        / (L2 E (pt_sub cur prev) * lit E 0.2 + tol))
          \<and> mh' = (if mh < h then h else mh) \<and> snap' = (if mh < h then i else snap))"
proof -
  from assms obtain c where c: "bezier_pt E 3 bez (u ! i) = Inr c"
    by (auto simp: max_error_step_def rbind_Inr)
  from assms c obtain h where
    h: "compute_hook E prev c (lit E 0.5 * (u ! (i - 1) + u ! i)) bez tol = Inr h"
    and r: "(maxD', sp', mh', snap', cur) =
       (if lensq (pt_sub c (d ! i)) > maxD then lensq (pt_sub c (d ! i)) else maxD,
        if lensq (pt_sub c (d ! i)) > maxD then Some i else sp,
        if mh < h then h else mh, if mh < h then i else snap, c)"
    by (auto simp: max_error_step_def rbind_Inr Let_def split: if_splits)
  from r have e: "cur = c" "mh' = (if mh < h then h else mh)" "snap' = (if mh < h then i else snap)"
    by simp_all
  from h obtain P where P: "bezier_pt E 3 bez (lit E 0.5 * (u ! (i - 1) + u ! i)) = Inr P"
    by (auto simp: compute_hook_def rbind_Inr)
  from h P have "h = (if L2 E (pt_sub (pt_scale (lit E 0.5) (pt_add prev c)) P) < tol then lit E 0
                 else L2 E (pt_sub (pt_scale (lit E 0.5) (pt_add prev c)) P)
                        / (L2 E (pt_sub c prev) * lit E 0.2 + tol))"
    by (auto simp: compute_hook_def Let_def split: if_splits)
  with c P e show ?thesis by blast
qed

lemma max_error_fold_prev:
  assumes "fold (\<lambda>i r. rbind r (max_error_step E d u bez tol i)) [1..<i]
             (Inr (lit E 0, sp0, lit E 0, 0, bez 0)) = Inr (maxD, sp, mh, snap, prev)"
    and "1 \<le> i"
  shows "if i = 1 then prev = bez 0 else bezier_pt E 3 bez (u ! (i - 1)) = Inr prev"
proof (cases "i = 1")
  case True
  with assms show ?thesis by simp
next
  case False
  with assms(2) have up: "[1..<i] = [1..<i - 1] @ [i - 1]"
    by (metis Suc_diff_1 le_simps(3) less_Suc_eq_le not_less_eq_eq upt_Suc_append One_nat_def
        le_neq_implies_less)
  from assms(1) obtain st0 where
    "max_error_step E d u bez tol (i - 1) st0 = Inr (maxD, sp, mh, snap, prev)"
    unfolding up by (auto simp: rbind_Inr)
  then have "bezier_pt E 3 bez (u ! (i - 1)) = Inr prev"
    using max_error_step_Inr [of E d u bez tol "i - 1"] by (cases st0) blast
  with False show ?thesis by simp
qed

lemma C_step1: "max_error_step real_env dC [0, 1 / 2, 1] bC 1 1 (0, None, 0, 0, bC 0)
     = Inr (16, Some 1, 0, 0, (3, 0))"
  by (simp add: max_error_step_def compute_hook_def bezier_pt_real bC_def dC_def axis_defs)

lemma C_step2: "max_error_step real_env dC [0, 1 / 2, 1] bC 1 2 (16, Some 1, 0, 0, (3, 0))
     = Inr (16, Some 1, 0, 0, (6, 0))"
  by (simp add: max_error_step_def compute_hook_def bezier_pt_real bC_def dC_def axis_defs)

lemma C_hook: "compute_hook real_env (bC 0) (3, 0)
     (lit real_env 0.5 * ([0, 1 / 2, 1] ! 0 + [0, 1 / 2, 1] ! 1)) bC 1 = Inr 0"
  by (simp add: compute_hook_def bezier_pt_real bC_def axis_defs)

lemma sqrt_C: "sqrt 25 = 5"
  by (rule sqrt_eqI; simp)

lemma C_spec: "spec_hook_ratio real_env dC [0, 1 / 2, 1] bC 1 1 = Inr 1"
  by (simp add: spec_hook_ratio_def bezier_pt_real bC_def dC_def num_defs sqrt_C)




subsection \<open>One Newton-Raphson step\<close>

lemma bezier_pt_total: "degree < 4 \<Longrightarrow> \<exists>q. bezier_pt E degree V t = Inr q"
  by (simp add: bezier_pt_def Let_def)

lemma nr_improve_props:
  "(\<forall>k a b. 1 \<le> k \<and> k \<le> 8 \<and> lit E 0 \<le> a \<and> a \<le> lit E 1 \<and> lit E 0 \<le> b \<and> b \<le> lit E 1 \<longrightarrow>
          lit E 0 \<le> (lit E 1 - lit E (real k * 0.125)) * a + lit E (real k * 0.125) * b
        \<and> (lit E 1 - lit E (real k * 0.125)) * a + lit E (real k * 0.125) * b \<le> lit E 1) \<Longrightarrow>
   lit E 0 \<le> u \<Longrightarrow> u \<le> lit E 1 \<Longrightarrow> lit E 0 \<le> iu \<Longrightarrow> iu \<le> lit E 1 \<Longrightarrow> 1 \<le> k \<Longrightarrow>
     \<exists>r. nr_improve E Q P u dl iu k = Inr r \<and> lit E 0 \<le> r \<and> r \<le> lit E 1
       \<and> (r = u \<or> (\<exists>q. bezier_pt E 3 Q r = Inr q \<and> \<not> lensq (pt_sub q P) > dl))"
proof (induction E Q P u dl iu k rule: nr_improve.induct)
  case (1 E Q P u dl iu k)
  obtain q where q: "bezier_pt E 3 Q iu = Inr q" using bezier_pt_total [of 3 E Q iu] by auto
  show ?case
  proof (cases "lensq (pt_sub q P) > dl")
    case False
    then have "nr_improve E Q P u dl iu k = Inr iu"
      by (subst nr_improve.simps) (simp add: q)
    moreover from q False have "\<exists>q. bezier_pt E 3 Q iu = Inr q \<and> \<not> lensq (pt_sub q P) > dl"
      by blast
    ultimately show ?thesis using "1.prems"(4,5) by blast
  next
    case worse: True
    show ?thesis
    proof (cases "8 < k")
      case True
      with worse have "nr_improve E Q P u dl iu k = Inr u"
        by (subst nr_improve.simps) (simp add: q)
      with "1.prems"(2,3) show ?thesis by blast
    next
      case False
      then have k8: "k \<le> 8" by simp
      let ?n = "(lit E 1 - lit E (real k * 0.125)) * iu + lit E (real k * 0.125) * u"
      from "1.prems"(1) "1.prems"(6) k8 "1.prems"(4,5,2,3)
      have n: "lit E 0 \<le> ?n" "?n \<le> lit E 1" by blast+
      have "\<exists>r. nr_improve E Q P u dl ?n (k + 1) = Inr r \<and> lit E 0 \<le> r \<and> r \<le> lit E 1
       \<and> (r = u \<or> (\<exists>q. bezier_pt E 3 Q r = Inr q \<and> \<not> lensq (pt_sub q P) > dl))"
        by (rule "1.IH" [OF q worse False "1.prems"(1,2,3) n]) simp
      moreover from worse False have "nr_improve E Q P u dl iu k
          = nr_improve E Q P u dl ?n (k + 1)"
        by (subst nr_improve.simps) (simp add: q)
      ultimately show ?thesis by simp
    qed
  qed
qed

lemma nr_improve_same:
  assumes "\<forall>x::'d::{plus,minus,times,ord}. \<not> x < x"
    and "bezier_pt E 3 Q u = Inr (q0::'d point)"
  shows "nr_improve E Q P u (lensq (pt_sub q0 P)) u k = Inr u"
  using assms by (subst nr_improve.simps) simp

lemma clamp_u_range:
  assumes "newton_arith E" "lit E 0 \<le> u" "u \<le> lit E 1"
  shows "lit E 0 \<le> clamp_u E u x \<and> clamp_u E u x \<le> lit E 1"
proof -
  note n = assms(1) [unfolded newton_arith_def]
  note l = n [THEN conjunct2, THEN conjunct1] n [THEN conjunct2, THEN conjunct2, THEN conjunct1]
    n [THEN conjunct2, THEN conjunct2, THEN conjunct2, THEN conjunct1]
    n [THEN conjunct2, THEN conjunct2, THEN conjunct2, THEN conjunct2, THEN conjunct1, THEN spec,
       of x]
  with assms(2,3) show ?thesis unfolding clamp_u_def by auto
qed

text \<open>
  C7: for a curve \<open>Q\<close>, a point \<open>P\<close> and a parameter \<open>u\<close> with \<open>0 \<le> u \<le> 1\<close>,
  \<^verbatim>\<open>NewtonRaphsonRootFind\<close> passes its two assertions and returns a parameter \<open>r\<close> with
  \<open>0 \<le> r \<le> 1\<close>; the squared distance from \<open>P\<close> to \<open>Q(r)\<close> is not greater than the
  squared distance from \<open>P\<close> to \<open>Q(u)\<close>; and when the step computed from \<open>Q(u)\<close>,
  \<open>Q'(u)\<close> and \<open>Q''(u)\<close> is not finite, \<open>r\<close> is \<open>u\<close>.  The arithmetic is any that obeys the
  laws of \<open>newton_arith\<close>; the witness is the step from \<open>1/2\<close> to \<open>23/67\<close> of the run on four
  points.
\<close>

theorem newton_root_find:
  assumes "newton_arith E" "lit E 0 \<le> u" "u \<le> lit E 1"
  shows "\<exists>r q0 q. NewtonRaphsonRootFind E Q P u = Inr r \<and> lit E 0 \<le> r \<and> r \<le> lit E 1
     \<and> bezier_pt E 3 Q u = Inr q0 \<and> bezier_pt E 3 Q r = Inr q
     \<and> \<not> lensq (pt_sub q P) > lensq (pt_sub q0 P)
     \<and> (let Q1 = (\<lambda>i. pt_scale (lit E 3) (pt_sub (Q (i + 1)) (Q i)));
             Q2 = (\<lambda>i. pt_scale (lit E 2) (pt_sub (Q1 (i + 1)) (Q1 i)))
         in \<forall>q1 q2. bezier_pt E 2 Q1 u = Inr q1 \<and> bezier_pt E 1 Q2 u = Inr q2
              \<and> \<not> isFinite E (newton_step E u (dot (pt_sub q0 P) q1)
                                (dot q1 q1 + dot (pt_sub q0 P) q2))
              \<longrightarrow> r = u)"
proof -
  let ?Q1 = "\<lambda>i. pt_scale (lit E 3) (pt_sub (Q (i + 1)) (Q i))"
  let ?Q2 = "\<lambda>i. pt_scale (lit E 2) (pt_sub (?Q1 (i + 1)) (?Q1 i))"
  obtain q0 where q0: "bezier_pt E 3 Q u = Inr q0" using bezier_pt_total [of 3 E Q u] by auto
  obtain q1 where q1: "bezier_pt E 2 ?Q1 u = Inr q1" using bezier_pt_total [of 2 E ?Q1 u] by auto
  obtain q2 where q2: "bezier_pt E 1 ?Q2 u = Inr q2" using bezier_pt_total [of 1 E ?Q2 u] by auto
  let ?st = "newton_step E u (dot (pt_sub q0 P) q1) (dot q1 q1 + dot (pt_sub q0 P) q2)"
  let ?dl = "lensq (pt_sub q0 P)"
  note n = assms(1) [unfolded newton_arith_def]
  note irr = n [THEN conjunct1]
  note blend = n [THEN conjunct2, THEN conjunct2, THEN conjunct2, THEN conjunct2, THEN conjunct2]
  have t: "(lit E 0 \<le> u) = True" "(u \<le> lit E 1) = True" using assms(2,3) by simp_all
  have nrf: "NewtonRaphsonRootFind E Q P u = nr_improve E Q P u ?dl (clamp_u E u ?st) 1"
    by (simp only: NewtonRaphsonRootFind_def Let_def q0 q1 q2 rbind_simps g_assert_simps t)
  note c = clamp_u_range [OF assms, of ?st]
  from nr_improve_props [OF blend assms(2,3) c [THEN conjunct1] c [THEN conjunct2], of 1 Q P ?dl]
  obtain r where r: "nr_improve E Q P u ?dl (clamp_u E u ?st) 1 = Inr r"
    "lit E 0 \<le> r" "r \<le> lit E 1"
    "r = u \<or> (\<exists>q. bezier_pt E 3 Q r = Inr q \<and> \<not> lensq (pt_sub q P) > ?dl)"
    by auto
  have better: "\<exists>q. bezier_pt E 3 Q r = Inr q \<and> \<not> lensq (pt_sub q P) > ?dl"
  proof (cases "r = u")
    case True
    from irr have "\<not> lensq (pt_sub q0 P) > ?dl" by (rule spec)
    with q0 True show ?thesis by blast
  next
    case False
    with r(4) show ?thesis by blast
  qed
  then obtain q where q: "bezier_pt E 3 Q r = Inr q" "\<not> lensq (pt_sub q P) > ?dl" by blast
  have nf: "r = u" if "\<not> isFinite E ?st"
  proof -
    from that have "clamp_u E u ?st = u" by (simp add: clamp_u_def)
    with r(1) nr_improve_same [OF irr q0, of P 1] show ?thesis by simp
  qed
  have last: "let Q1 = (\<lambda>i. pt_scale (lit E 3) (pt_sub (Q (i + 1)) (Q i)));
             Q2 = (\<lambda>i. pt_scale (lit E 2) (pt_sub (Q1 (i + 1)) (Q1 i)))
         in \<forall>q1 q2. bezier_pt E 2 Q1 u = Inr q1 \<and> bezier_pt E 1 Q2 u = Inr q2
              \<and> \<not> isFinite E (newton_step E u (dot (pt_sub q0 P) q1)
                                (dot q1 q1 + dot (pt_sub q0 P) q2))
              \<longrightarrow> r = u"
    unfolding Let_def using nf q1 q2 by auto
  from nrf r(1,2,3) q0 q last show ?thesis by (simp only: nrf) blast
qed

lemma newton_arith_real: "newton_arith real_env"
proof -
  have "0 \<le> (1 - real k * 0.125) * a + real k * 0.125 * b
      \<and> (1 - real k * 0.125) * a + real k * 0.125 * b \<le> 1"
    if "1 \<le> k" "k \<le> 8" "0 \<le> a" "a \<le> 1" "0 \<le> b" "b \<le> 1" for k :: nat and a b :: real
  proof -
    let ?p = "real k * 0.125"
    from that(1,2) have p: "0 \<le> ?p" "0 \<le> 1 - ?p" by simp_all
    have "0 \<le> (1 - ?p) * a" "0 \<le> ?p * b" using p that(3,5) by simp_all
    moreover have "(1 - ?p) * a \<le> (1 - ?p) * 1" "?p * b \<le> ?p * 1"
      using p that(4,6) by (intro mult_left_mono; simp)+
    ultimately show ?thesis by simp
  qed
  then show ?thesis unfolding newton_arith_def by simp
qed

theorem newton_root_find_witness:
  "NewtonRaphsonRootFind real_env (mB2 (\<lambda>a. (0, 0))) (30, 0) (1 / 2) = Inr (23 / 67)
   \<and> (0::real) \<le> 23 / 67 \<and> (23 / 67::real) \<le> 1
   \<and> (\<exists>q0 q. bezier_pt real_env 3 (mB2 (\<lambda>a. (0, 0))) (1 / 2) = Inr q0
        \<and> bezier_pt real_env 3 (mB2 (\<lambda>a. (0, 0))) (23 / 67) = Inr q
        \<and> \<not> lensq (pt_sub q (30, 0)) > lensq (pt_sub q0 (30, 0)))"
proof -
  have h: "lit real_env 0 \<le> (1 / 2::real)" "(1 / 2::real) \<le> lit real_env 1" by simp_all
  from newton_root_find [OF newton_arith_real h, of "mB2 (\<lambda>a. (0, 0))" "(30, 0)"]
  obtain r q0 q where
    r: "NewtonRaphsonRootFind real_env (mB2 (\<lambda>a. (0, 0))) (30, 0) (1 / 2) = Inr r"
      "lit real_env 0 \<le> r" "r \<le> lit real_env 1"
      "bezier_pt real_env 3 (mB2 (\<lambda>a. (0, 0))) (1 / 2) = Inr q0"
      "bezier_pt real_env 3 (mB2 (\<lambda>a. (0, 0))) r = Inr q"
      "\<not> lensq (pt_sub q (30, 0)) > lensq (pt_sub q0 (30, 0))"
    by blast
  from B2_newton1 [of "\<lambda>a. (0, 0)"] have n:
    "NewtonRaphsonRootFind real_env (mB2 (\<lambda>a. (0, 0))) (30, 0) (1 / 2) = Inr (23 / 67)"
    by (simp add: dB_def)
  with r(1) have e: "r = 23 / 67" by simp
  from r(2,3) e have "(0::real) \<le> 23 / 67 \<and> (23 / 67::real) \<le> 1" by simp
  moreover from r(4,5,6) e have "\<exists>q0 q. bezier_pt real_env 3 (mB2 (\<lambda>a. (0, 0))) (1 / 2) = Inr q0
        \<and> bezier_pt real_env 3 (mB2 (\<lambda>a. (0, 0))) (23 / 67) = Inr q
        \<and> \<not> lensq (pt_sub q (30, 0)) > lensq (pt_sub q0 (30, 0))"
    by blast
  ultimately show ?thesis using n by blast
qed

end
